theory Spec2Isabelle
  imports Complex_Main "HOL-Library.AList" "HOL-Library.Log_Nat"
begin

section \<open>HistoryManager (core/HistoryManager.js)\<close>

text \<open>
  The manager stores opaque actions whose \<open>undo\<close> and \<open>redo\<close> callbacks act on the
  rest of the program, the world \<open>'w\<close>. A JavaScript callback either returns or throws,
  and in both cases it may have changed the world before: \<open>Returned w\<close> and \<open>Threw w\<close>.
\<close>

datatype 'w outcome = Returned 'w | Threw 'w

fun world_of :: "'w outcome \<Rightarrow> 'w" where
  "world_of (Returned w) = w"
| "world_of (Threw w) = w"

record 'w action =
  atype :: string
  undo_cb :: "'w \<Rightarrow> 'w outcome"
  redo_cb :: "'w \<Rightarrow> 'w outcome"

text \<open>What \<open>getState()\<close> returns and \<open>onChange\<close> receives.\<close>

record history_state =
  st_canUndo :: bool
  st_canRedo :: bool
  st_historyLength :: nat
  st_currentIndex :: int

text \<open>
  \<open>calls\<close> is a ghost field: the log of every callback the manager invoked and of every
  \<open>console.error\<close> it wrote, oldest first. The source has no such field; it makes
  "no callback was invoked" a statement about the state.
\<close>

datatype call = UndoCall int | RedoCall int | ChangeCall history_state | ConsoleError string

record 'w HistoryManager =
  maxSteps :: int
  history :: "'w action list"
  currentIndex :: int
  onChange :: "(history_state \<Rightarrow> 'w \<Rightarrow> 'w outcome) option"
  calls :: "call list"

record 'w history_options =
  opt_maxSteps :: "int option"
  opt_onChange :: "(history_state \<Rightarrow> 'w \<Rightarrow> 'w outcome) option"

text \<open>
  The constructor: \<open>options.maxSteps || 50\<close> takes 50 for a missing and for a zero
  \<open>maxSteps\<close> (both are falsy).
\<close>

definition HistoryManager_new :: "'w history_options \<Rightarrow> 'w HistoryManager" where
  "HistoryManager_new options =
     \<lparr> maxSteps = (case opt_maxSteps options of
                      None \<Rightarrow> 50
                    | Some n \<Rightarrow> if n = 0 then 50 else n),
       history = [],
       currentIndex = - 1,
       onChange = opt_onChange options,
       calls = [] \<rparr>"

definition canUndo :: "'w HistoryManager \<Rightarrow> bool" where
  "canUndo h = (currentIndex h \<ge> 0)"

definition canRedo :: "'w HistoryManager \<Rightarrow> bool" where
  "canRedo h = (currentIndex h < int (length (history h)) - 1)"

definition getState :: "'w HistoryManager \<Rightarrow> history_state" where
  "getState h =
     \<lparr> st_canUndo = canUndo h,
       st_canRedo = canRedo h,
       st_historyLength = length (history h),
       st_currentIndex = currentIndex h \<rparr>"

text \<open>\<open>_notifyChange\<close>: calls \<open>onChange\<close> when there is one; its exception is not caught here.\<close>

definition notifyChange :: "'w HistoryManager \<Rightarrow> 'w \<Rightarrow> 'w HistoryManager \<times> 'w outcome" where
  "notifyChange h w =
     (case onChange h of
        None \<Rightarrow> (h, Returned w)
      | Some f \<Rightarrow> (h\<lparr>calls := calls h @ [ChangeCall (getState h)]\<rparr>, f (getState h) w))"

text \<open>
  \<open>Array.prototype.slice(0, end)\<close>: a negative \<open>end\<close> counts from the end of the array,
  and the result is clamped to the array.
\<close>

definition slice0 :: "'a list \<Rightarrow> int \<Rightarrow> 'a list" where
  "slice0 xs e =
     (let n = int (length xs);
          k = (if e < 0 then max (n + e) 0 else min e n)
      in take (nat k) xs)"

text \<open>\<open>this.history[i]\<close>: \<open>undefined\<close> outside the array, here \<open>None\<close>.\<close>

definition history_at :: "'w HistoryManager \<Rightarrow> int \<Rightarrow> 'w action option" where
  "history_at h i =
     (if 0 \<le> i \<and> i < int (length (history h)) then Some (history h ! nat i) else None)"

text \<open>
  \<open>push(action)\<close>. The result is the manager and the outcome of \<open>_notifyChange()\<close>, the
  last statement: when \<open>onChange\<close> throws, \<open>push\<close> throws after the history is updated.
\<close>

definition push :: "'w action \<Rightarrow> 'w HistoryManager \<times> 'w \<Rightarrow> 'w HistoryManager \<times> 'w outcome" where
  "push a s =
     (case s of (h, w) \<Rightarrow>
        let h1 = (if currentIndex h < int (length (history h)) - 1
                  then h\<lparr>history := slice0 (history h) (currentIndex h + 1)\<rparr>
                  else h);
            h2 = h1\<lparr>history := history h1 @ [a], currentIndex := currentIndex h1 + 1\<rparr>;
            h3 = (if int (length (history h2)) > maxSteps h2
                  then h2\<lparr>history := tl (history h2), currentIndex := currentIndex h2 - 1\<rparr>
                  else h2)
        in notifyChange h3 w)"

text \<open>
  \<open>undo()\<close>. Reading \<open>undo\<close> off an \<open>undefined\<close> action is a TypeError inside the
  \<open>try\<close>; the \<open>catch\<close> covers the callback, the decrement and the notification.
\<close>

definition undo :: "'w HistoryManager \<times> 'w \<Rightarrow> bool \<times> 'w HistoryManager \<times> 'w" where
  "undo s =
     (case s of (h, w) \<Rightarrow>
        if \<not> canUndo h then (False, h, w)
        else
          (case history_at h (currentIndex h) of
             None \<Rightarrow> (False, h\<lparr>calls := calls h @ [ConsoleError ''Error during undo:'']\<rparr>, w)
           | Some a \<Rightarrow>
               let h1 = h\<lparr>calls := calls h @ [UndoCall (currentIndex h)]\<rparr> in
               (case undo_cb a w of
                  Threw w1 \<Rightarrow>
                    (False, h1\<lparr>calls := calls h1 @ [ConsoleError ''Error during undo:'']\<rparr>, w1)
                | Returned w1 \<Rightarrow>
                    let h2 = h1\<lparr>currentIndex := currentIndex h1 - 1\<rparr> in
                    (case notifyChange h2 w1 of
                       (h3, Returned w2) \<Rightarrow> (True, h3, w2)
                     | (h3, Threw w2) \<Rightarrow>
                         (False, h3\<lparr>calls := calls h3 @ [ConsoleError ''Error during undo:'']\<rparr>, w2)))))"

text \<open>\<open>redo()\<close>: the index moves first and is moved back in the \<open>catch\<close>.\<close>

definition redo :: "'w HistoryManager \<times> 'w \<Rightarrow> bool \<times> 'w HistoryManager \<times> 'w" where
  "redo s =
     (case s of (h, w) \<Rightarrow>
        if \<not> canRedo h then (False, h, w)
        else
          let h1 = h\<lparr>currentIndex := currentIndex h + 1\<rparr> in
          (case history_at h1 (currentIndex h1) of
             None \<Rightarrow>
               (False, h1\<lparr>calls := calls h1 @ [ConsoleError ''Error during redo:''],
                           currentIndex := currentIndex h1 - 1\<rparr>, w)
           | Some a \<Rightarrow>
               let h2 = h1\<lparr>calls := calls h1 @ [RedoCall (currentIndex h1)]\<rparr> in
               (case redo_cb a w of
                  Threw w1 \<Rightarrow>
                    (False, h2\<lparr>calls := calls h2 @ [ConsoleError ''Error during redo:''],
                                currentIndex := currentIndex h2 - 1\<rparr>, w1)
                | Returned w1 \<Rightarrow>
                    (case notifyChange h2 w1 of
                       (h3, Returned w2) \<Rightarrow> (True, h3, w2)
                     | (h3, Threw w2) \<Rightarrow>
                         (False, h3\<lparr>calls := calls h3 @ [ConsoleError ''Error during redo:''],
                                     currentIndex := currentIndex h3 - 1\<rparr>, w2)))))"

text \<open>\<open>clear()\<close>.\<close>

definition clear :: "'w HistoryManager \<times> 'w \<Rightarrow> 'w HistoryManager \<times> 'w outcome" where
  "clear s = (case s of (h, w) \<Rightarrow> notifyChange (h\<lparr>history := [], currentIndex := - 1\<rparr>) w)"

subsection \<open>Sequences of operations\<close>

datatype 'w op = Push "'w action" | Undo | Redo

text \<open>
  One operation of a caller that goes on after an exception of \<open>push\<close>: the manager and
  the world are the ones the operation left behind.
\<close>

fun step :: "'w op \<Rightarrow> 'w HistoryManager \<times> 'w \<Rightarrow> 'w HistoryManager \<times> 'w" where
  "step (Push a) s = (case push a s of (h, r) \<Rightarrow> (h, world_of r))"
| "step Undo s = snd (undo s)"
| "step Redo s = snd (redo s)"

fun run :: "'w op list \<Rightarrow> 'w HistoryManager \<times> 'w \<Rightarrow> 'w HistoryManager \<times> 'w" where
  "run [] s = s"
| "run (x # xs) s = run xs (step x s)"

text \<open>\<open>k\<close> calls of \<open>undo()\<close>, stopping at the first that reports failure.\<close>

fun undo_times :: "nat \<Rightarrow> 'w HistoryManager \<times> 'w \<Rightarrow> bool \<times> 'w HistoryManager \<times> 'w" where
  "undo_times 0 s = (True, s)"
| "undo_times (Suc k) s =
     (case undo s of (ok, s1) \<Rightarrow> if ok then undo_times k s1 else (False, s1))"

text \<open>
  The shape of a manager that \<open>push\<close>, \<open>undo()\<close> and \<open>redo()\<close> keep: the index is
  between \<open>-1\<close> and the last entry, and the log is no longer than the bound.
\<close>

definition hist_inv :: "'w HistoryManager \<Rightarrow> bool" where
  "hist_inv h =
     (- 1 \<le> currentIndex h \<and> currentIndex h \<le> int (length (history h)) - 1 \<and>
      int (length (history h)) \<le> max 0 (maxSteps h))"



section \<open>Numbers (IEEE 754 binary64)\<close>

text \<open>
  A JavaScript number that is finite is a binary64 value: a real \<open>m * 2 ^ q\<close> with
  \<open>\<bar>m\<bar> < 2 ^ 53\<close> and \<open>- 1074 \<le> q \<le> 971\<close>. An arithmetic operation returns the exact
  result rounded to the nearest such value, a tie going to the even \<open>m\<close>.

  \<open>round_even\<close> rounds a real to the nearest integer, ties to even. \<open>exponent a\<close> is the
  \<open>e\<close> with \<open>2 ^ e \<le> a < 2 ^ (e + 1)\<close> for a positive \<open>a\<close>, computed from the bit length of
  \<open>\<lfloor>a\<rfloor>\<close> or of \<open>\<lceil>1 / a\<rceil> - 1\<close>. \<open>fl\<close> rounds to binary64: the spacing of the values around
  \<open>x\<close> is \<open>2 ^ (e - 52)\<close>, and \<open>2 ^ (- 1074)\<close> in the subnormal range.

  Overflow is left out: \<open>fl\<close> has no \<open>Infinity\<close>, and there is no \<open>NaN\<close> and no negative
  zero. The functions of \<open>geometry.js\<close> stay far below \<open>2 ^ 1024\<close> on coordinates in degrees.
  The rounding is applied in \<open>geometry.js\<close> and to the areas \<open>_createShape\<close> computes;
  the pixel arithmetic of the SnapEngine and the midpoints of the handles are over the
  reals.
\<close>

definition round_even :: "real \<Rightarrow> int" where
  "round_even y =
     (let f = \<lfloor>y\<rfloor>;
          d = y - of_int f
      in if d < 1 / 2 then f
         else if 1 / 2 < d then f + 1
         else if even f then f else f + 1)"

definition exponent :: "real \<Rightarrow> int" where
  "exponent a = (if 1 \<le> a then bitlen \<lfloor>a\<rfloor> - 1 else - bitlen (\<lceil>1 / a\<rceil> - 1))"

definition fl :: "real \<Rightarrow> real" where
  "fl x =
     (if x = 0 then 0
      else
        let q = max (exponent \<bar>x\<bar>) (- 1022) - 52
        in of_int (round_even (x / 2 powi q)) * 2 powi q)"

text \<open>\<open>Math.PI\<close>: the binary64 value \<open>3.141592653589793\<close>.\<close>

definition Math_PI :: real where
  "Math_PI = 884279719003555 / 2 ^ 48"

section \<open>Geometry (utils/geometry.js)\<close>

text \<open>
  Each function takes the rounding \<open>rnd\<close> of its arithmetic as a parameter and applies it
  to the result of every operation, in the order JavaScript evaluates the expression.
  The program is the instance \<open>rnd = fl\<close>; the instance with the identity is the same
  formula in exact arithmetic (\<open>exact\<close> below).

  ECMAScript leaves \<open>Math.sin\<close>, \<open>Math.cos\<close> and \<open>Math.atan2\<close> implementation-approximated;
  here they are the rounded exact values, so \<open>Math.sin(0)\<close> is \<open>0\<close> as in every
  implementation.
\<close>

record LatLng =
  lat :: real
  lng :: real

record Point =
  pt_x :: real
  pt_y :: real

definition toRadians_in :: "(real \<Rightarrow> real) \<Rightarrow> real \<Rightarrow> real" where
  "toRadians_in rnd degrees = rnd (degrees * rnd (Math_PI / 180))"

definition Math_sin_in :: "(real \<Rightarrow> real) \<Rightarrow> real \<Rightarrow> real" where
  "Math_sin_in rnd x = rnd (sin x)"

definition Math_cos_in :: "(real \<Rightarrow> real) \<Rightarrow> real \<Rightarrow> real" where
  "Math_cos_in rnd x = rnd (cos x)"

definition Math_sqrt_in :: "(real \<Rightarrow> real) \<Rightarrow> real \<Rightarrow> real" where
  "Math_sqrt_in rnd x = rnd (sqrt x)"

text \<open>\<open>Math.atan2(y, x)\<close>.\<close>

definition atan2 :: "real \<Rightarrow> real \<Rightarrow> real" where
  "atan2 y x =
     (if 0 < x then arctan (y / x)
      else if x < 0 \<and> 0 \<le> y then arctan (y / x) + pi
      else if x < 0 then arctan (y / x) - pi
      else if 0 < y then pi / 2
      else if y < 0 then - (pi / 2)
      else 0)"

definition Math_atan2_in :: "(real \<Rightarrow> real) \<Rightarrow> real \<Rightarrow> real \<Rightarrow> real" where
  "Math_atan2_in rnd y x = rnd (atan2 y x)"

definition distanceLatLng_in :: "(real \<Rightarrow> real) \<Rightarrow> LatLng \<Rightarrow> LatLng \<Rightarrow> real" where
  "distanceLatLng_in rnd p1 p2 =
     (let R = 6371000;
          lat1 = toRadians_in rnd (lat p1);
          lat2 = toRadians_in rnd (lat p2);
          deltaLat = toRadians_in rnd (rnd (lat p2 - lat p1));
          deltaLng = toRadians_in rnd (rnd (lng p2 - lng p1));
          a = rnd (rnd (Math_sin_in rnd (rnd (deltaLat / 2)) * Math_sin_in rnd (rnd (deltaLat / 2))) +
                   rnd (rnd (rnd (Math_cos_in rnd lat1 * Math_cos_in rnd lat2) *
                             Math_sin_in rnd (rnd (deltaLng / 2))) *
                        Math_sin_in rnd (rnd (deltaLng / 2))));
          c = rnd (2 * Math_atan2_in rnd (Math_sqrt_in rnd a) (Math_sqrt_in rnd (rnd (1 - a))))
      in rnd (R * c))"

text \<open>
  The summand of the loop of \<open>calculatePolygonArea\<close> for the edge from \<open>p1\<close> to \<open>p2\<close>:
  \<open>toRadians(p2.lng - p1.lng) * (2 + Math.sin(toRadians(p1.lat)) + Math.sin(toRadians(p2.lat)))\<close>.
\<close>

definition excess_in :: "(real \<Rightarrow> real) \<Rightarrow> LatLng \<Rightarrow> LatLng \<Rightarrow> real" where
  "excess_in rnd p1 p2 =
     rnd (toRadians_in rnd (rnd (lng p2 - lng p1)) *
          rnd (rnd (2 + Math_sin_in rnd (toRadians_in rnd (lat p1))) +
               Math_sin_in rnd (toRadians_in rnd (lat p2))))"

text \<open>
  \<open>calculatePolygonArea(coordinates)\<close>: the \<open>for\<close> loop over \<open>i = 0 .. length - 1\<close> with
  \<open>j = (i + 1) % length\<close> is a fold over the indices, \<open>total\<close> being the accumulator;
  \<open>total * R * R / 2\<close> is \<open>((total * R) * R) / 2\<close>.
\<close>

definition calculatePolygonArea_in :: "(real \<Rightarrow> real) \<Rightarrow> LatLng list \<Rightarrow> real" where
  "calculatePolygonArea_in rnd coordinates =
     (if length coordinates < 3 then 0
      else
        let R = 6371000;
            total = fold (\<lambda>i total.
                       let j = (i + 1) mod length coordinates;
                           p1 = coordinates ! i;
                           p2 = coordinates ! j
                       in rnd (total + excess_in rnd p1 p2)) [0..<length coordinates] 0
        in \<bar>rnd (rnd (rnd (total * R) * R) / 2)\<bar>)"

text \<open>Exact arithmetic, and the functions of the program.\<close>

definition exact :: "real \<Rightarrow> real" where
  "exact x = x"

definition toRadians :: "real \<Rightarrow> real" where
  "toRadians = toRadians_in fl"

definition distanceLatLng :: "LatLng \<Rightarrow> LatLng \<Rightarrow> real" where
  "distanceLatLng = distanceLatLng_in fl"

definition calculatePolygonArea :: "LatLng list \<Rightarrow> real" where
  "calculatePolygonArea = calculatePolygonArea_in fl"

text \<open>
  The summands of the loop in the order it adds them, and the sum of the same summands
  in exact arithmetic.
\<close>

definition ring_terms :: "(real \<Rightarrow> real) \<Rightarrow> LatLng list \<Rightarrow> real list" where
  "ring_terms rnd cs =
     map (\<lambda>i. excess_in rnd (cs ! i) (cs ! ((i + 1) mod length cs))) [0..<length cs]"

definition ring_sum :: "LatLng list \<Rightarrow> real" where
  "ring_sum cs = (\<Sum>i<length cs. excess_in exact (cs ! i) (cs ! ((i + 1) mod length cs)))"

text \<open>A ring of four points on the equator.\<close>

definition ex_ring :: "LatLng list" where
  "ex_ring = [\<lparr>lat = 0, lng = 0\<rparr>, \<lparr>lat = 0, lng = 1\<rparr>, \<lparr>lat = 0, lng = 2\<rparr>, \<lparr>lat = 0, lng = 5\<rparr>]"

section \<open>Google Maps objects\<close>

text \<open>
  The overlays of the Maps API are objects shared by reference: the DrawingManager's
  shape, the SnapEngine's registry and the handles' listeners all hold the same
  \<open>google.maps.Polygon\<close>. They live in a store, a list addressed by position; \<open>new\<close>
  appends, and nothing is ever freed.
\<close>

record Bounds =
  north :: real
  south :: real
  east :: real
  west :: real

datatype geometry =
    PolygonGeom "LatLng list"
  | PolylineGeom "LatLng list"
  | CircleGeom LatLng real
  | RectangleGeom Bounds

text \<open>
  An overlay: its geometry, its options as set by the constructor and by
  \<open>setOptions\<close> (option name to value, both as text), and whether it is on the map
  (\<open>setMap(null)\<close> takes it off).
\<close>

record GObject =
  g_geom :: geometry
  g_options :: "string \<rightharpoonup> string"
  g_onMap :: bool

type_synonym store = "GObject list"

datatype error = TypeError

definition deref :: "store \<Rightarrow> nat \<Rightarrow> GObject option" where
  "deref st r = (if r < length st then Some (st ! r) else None)"

text \<open>
  The accessors. An overlay of another class has no such method, and calling it is a
  TypeError in the source: \<open>None\<close> here.
\<close>

fun getPath :: "geometry \<Rightarrow> LatLng list option" where
  "getPath (PolygonGeom p) = Some p"
| "getPath (PolylineGeom p) = Some p"
| "getPath _ = None"

fun getBounds :: "geometry \<Rightarrow> Bounds option" where
  "getBounds (RectangleGeom b) = Some b"
| "getBounds _ = None"

fun getCircle :: "geometry \<Rightarrow> (LatLng \<times> real) option" where
  "getCircle (CircleGeom c r) = Some (c, r)"
| "getCircle _ = None"

text \<open>Writing a path back keeps the class of the overlay.\<close>

fun setPath :: "LatLng list \<Rightarrow> geometry \<Rightarrow> geometry" where
  "setPath p (PolygonGeom _) = PolygonGeom p"
| "setPath p (PolylineGeom _) = PolylineGeom p"
| "setPath p g = g"

record Marker =
  m_position :: LatLng
  m_visible :: bool
  m_onMap :: bool

text \<open>
  The map as the SnapEngine reads it. \<open>projection_calls\<close> is a ghost field counting the
  calls of \<open>fromLatLngToPoint\<close> and \<open>fromPointToLatLng\<close>.
\<close>

record Projection =
  fromLatLngToPoint :: "LatLng \<Rightarrow> Point"
  fromPointToLatLng :: "Point \<Rightarrow> LatLng"

record GMap =
  getProjection :: "Projection option"
  getZoom :: real
  projection_calls :: nat

section \<open>SnapEngine (snapping/SnapEngine.js)\<close>

record Edge =
  edge_start :: LatLng
  edge_end :: LatLng
  edge_shapeId :: string

record Projected =
  pr_point :: Point
  pr_distance :: real
  pr_t :: real

record Snap =
  snap_point :: LatLng
  snap_distance :: real
  snap_edge :: Edge
  snap_t :: real

text \<open>An entry \<open>{ id, type, obj }\<close> of the registry; \<open>obj\<close> is a reference into the store.\<close>

record SnapShape =
  ss_id :: string
  ss_type :: string
  ss_obj :: nat

text \<open>
  \<open>shapes\<close> is a JavaScript \<open>Map\<close>, iterated in insertion order: an association list
  where \<open>set\<close> on a present key keeps the key's place (\<open>AList.update\<close>). \<open>onSnap_set\<close>
  says whether a callback was given to \<open>onSnap\<close>, and the ghost field \<open>onSnap_calls\<close>
  logs what it was called with.
\<close>

record SnapEngine =
  se_map :: "GMap option"
  threshold :: real
  showIndicator :: bool
  enabled :: bool
  se_shapes :: "(string \<times> SnapShape) list"
  snapMarker :: "Marker option"
  onSnap_set :: bool
  onSnap_calls :: "Snap list"

record snap_options =
  so_map :: "GMap option"
  so_threshold :: "real option"
  so_showIndicator :: "bool option"

text \<open>
  The constructor: \<open>options.threshold || 15\<close> (0 is falsy) and
  \<open>options.showIndicator !== false\<close>.
\<close>

definition SnapEngine_new :: "snap_options \<Rightarrow> SnapEngine" where
  "SnapEngine_new options =
     \<lparr> se_map = so_map options,
       threshold = (case so_threshold options of
                      None \<Rightarrow> 15
                    | Some n \<Rightarrow> if n = 0 then 15 else n),
       showIndicator = (so_showIndicator options \<noteq> Some False),
       enabled = True,
       se_shapes = [],
       snapMarker = None,
       onSnap_set = False,
       onSnap_calls = [] \<rparr>"

definition hideIndicator :: "SnapEngine \<Rightarrow> SnapEngine" where
  "hideIndicator engine =
     (case snapMarker engine of
        None \<Rightarrow> engine
      | Some m \<Rightarrow> engine\<lparr>snapMarker := Some (m\<lparr>m_visible := False\<rparr>)\<rparr>)"

definition enable :: "SnapEngine \<Rightarrow> SnapEngine" where
  "enable engine = engine\<lparr>enabled := True\<rparr>"

definition disable :: "SnapEngine \<Rightarrow> SnapEngine" where
  "disable engine = hideIndicator (engine\<lparr>enabled := False\<rparr>)"

definition setThreshold :: "real \<Rightarrow> SnapEngine \<Rightarrow> SnapEngine" where
  "setThreshold t engine = engine\<lparr>threshold := t\<rparr>"

definition addShape :: "string \<Rightarrow> string \<Rightarrow> nat \<Rightarrow> SnapEngine \<Rightarrow> SnapEngine" where
  "addShape i ty googleObject engine =
     engine\<lparr>se_shapes :=
       AList.update i \<lparr>ss_id = i, ss_type = ty, ss_obj = googleObject\<rparr> (se_shapes engine)\<rparr>"

definition removeShape :: "string \<Rightarrow> SnapEngine \<Rightarrow> SnapEngine" where
  "removeShape i engine = engine\<lparr>se_shapes := AList.delete i (se_shapes engine)\<rparr>"

text \<open>\<open>_showIndicator(latLng)\<close>: the marker is created on first use.\<close>

definition showIndicatorAt :: "LatLng \<Rightarrow> SnapEngine \<Rightarrow> SnapEngine" where
  "showIndicatorAt latLng engine =
     (if se_map engine = None then engine
      else engine\<lparr>snapMarker :=
             Some \<lparr>m_position = latLng, m_visible = True, m_onMap = True\<rparr>\<rparr>)"

text \<open>\<open>_projectPointToSegment(point, lineStart, lineEnd)\<close>.\<close>

definition projectPointToSegment :: "Point \<Rightarrow> Point \<Rightarrow> Point \<Rightarrow> Projected" where
  "projectPointToSegment point lineStart lineEnd =
     (let dx = pt_x lineEnd - pt_x lineStart;
          dy = pt_y lineEnd - pt_y lineStart;
          lengthSquared = dx * dx + dy * dy
      in if lengthSquared = 0
         then \<lparr> pr_point = lineStart,
                pr_distance = sqrt ((pt_x point - pt_x lineStart)\<^sup>2 + (pt_y point - pt_y lineStart)\<^sup>2),
                pr_t = 0 \<rparr>
         else
           let t0 = ((pt_x point - pt_x lineStart) * dx + (pt_y point - pt_y lineStart) * dy)
                      / lengthSquared;
               t = max 0 (min 1 t0);
               projected = \<lparr> pt_x = pt_x lineStart + t * dx, pt_y = pt_y lineStart + t * dy \<rparr>;
               distance = sqrt ((pt_x point - pt_x projected)\<^sup>2 + (pt_y point - pt_y projected)\<^sup>2)
           in \<lparr> pr_point = projected, pr_distance = distance, pr_t = t \<rparr>)"

text \<open>The edges \<open>_getAllEdges\<close> pushes for one shape, by the \<open>type\<close> of its entry.\<close>

definition polygonEdges :: "string \<Rightarrow> LatLng list \<Rightarrow> Edge list" where
  "polygonEdges i path =
     map (\<lambda>k. \<lparr> edge_start = path ! k,
                edge_end = path ! ((k + 1) mod length path),
                edge_shapeId = i \<rparr>) [0..<length path]"

definition polylineEdges :: "string \<Rightarrow> LatLng list \<Rightarrow> Edge list" where
  "polylineEdges i path =
     map (\<lambda>k. \<lparr> edge_start = path ! k,
                edge_end = path ! (k + 1),
                edge_shapeId = i \<rparr>) [0..<length path - 1]"

definition rectangleEdges :: "string \<Rightarrow> Bounds \<Rightarrow> Edge list" where
  "rectangleEdges i bounds =
     (let ne = \<lparr> lat = north bounds, lng = east bounds \<rparr>;
          sw = \<lparr> lat = south bounds, lng = west bounds \<rparr>;
          nw = \<lparr> lat = lat ne, lng = lng sw \<rparr>;
          se = \<lparr> lat = lat sw, lng = lng ne \<rparr>
      in [ \<lparr> edge_start = nw, edge_end = ne, edge_shapeId = i \<rparr>,
           \<lparr> edge_start = ne, edge_end = se, edge_shapeId = i \<rparr>,
           \<lparr> edge_start = se, edge_end = sw, edge_shapeId = i \<rparr>,
           \<lparr> edge_start = sw, edge_end = nw, edge_shapeId = i \<rparr> ])"

definition circlePoints :: "LatLng \<Rightarrow> real \<Rightarrow> LatLng list" where
  "circlePoints center radius =
     map (\<lambda>k. let angle = (real k / 36) * 2 * pi
               in \<lparr> lat = lat center + (radius / 111111) * sin angle,
                    lng = lng center +
                          (radius / (111111 * cos (lat center * pi / 180))) * cos angle \<rparr>)
         [0..<36]"

definition circleEdges :: "string \<Rightarrow> LatLng \<Rightarrow> real \<Rightarrow> Edge list" where
  "circleEdges i center radius = polygonEdges i (circlePoints center radius)"

definition shapeEdges :: "store \<Rightarrow> string \<Rightarrow> SnapShape \<Rightarrow> error + Edge list" where
  "shapeEdges st i shape =
     (case deref st (ss_obj shape) of
        None \<Rightarrow> Inl TypeError
      | Some obj \<Rightarrow>
          if ss_type shape = ''polygon'' then
            (case getPath (g_geom obj) of
               None \<Rightarrow> Inl TypeError
             | Some path \<Rightarrow> Inr (polygonEdges i path))
          else if ss_type shape = ''polyline'' then
            (case getPath (g_geom obj) of
               None \<Rightarrow> Inl TypeError
             | Some path \<Rightarrow> Inr (polylineEdges i path))
          else if ss_type shape = ''rectangle'' then
            (case getBounds (g_geom obj) of
               None \<Rightarrow> Inl TypeError
             | Some bounds \<Rightarrow> Inr (rectangleEdges i bounds))
          else if ss_type shape = ''circle'' then
            (case getCircle (g_geom obj) of
               None \<Rightarrow> Inl TypeError
             | Some (center, radius) \<Rightarrow> Inr (circleEdges i center radius))
          else Inr [])"

text \<open>
  \<open>_getAllEdges(excludeId)\<close>: the loop over the registry, \<open>edges\<close> being the array the
  source pushes to. The first TypeError ends it.
\<close>

fun getAllEdgesLoop ::
  "store \<Rightarrow> string option \<Rightarrow> (string \<times> SnapShape) list \<Rightarrow> Edge list \<Rightarrow> error + Edge list" where
  "getAllEdgesLoop st excludeId [] edges = Inr edges"
| "getAllEdgesLoop st excludeId ((i, shape) # rest) edges =
     (if Some i = excludeId then getAllEdgesLoop st excludeId rest edges
      else
        (case shapeEdges st i shape of
           Inl e \<Rightarrow> Inl e
         | Inr es \<Rightarrow> getAllEdgesLoop st excludeId rest (edges @ es)))"

definition getAllEdges :: "store \<Rightarrow> SnapEngine \<Rightarrow> string option \<Rightarrow> error + Edge list" where
  "getAllEdges st engine excludeId = getAllEdgesLoop st excludeId (se_shapes engine) []"

text \<open>A point of the map in pixels at the given scale.\<close>

definition toPixel :: "Projection \<Rightarrow> real \<Rightarrow> LatLng \<Rightarrow> Point" where
  "toPixel projection scale p =
     (let world = fromLatLngToPoint projection p
      in \<lparr> pt_x = pt_x world * scale, pt_y = pt_y world * scale \<rparr>)"

text \<open>The projection of the cursor on one edge, in pixels.\<close>

definition edgeProjected :: "Projection \<Rightarrow> real \<Rightarrow> Point \<Rightarrow> Edge \<Rightarrow> Projected" where
  "edgeProjected projection scale pointPixel edge =
     (let startPixel = toPixel projection scale (edge_start edge);
          endPixel = toPixel projection scale (edge_end edge)
      in projectPointToSegment pointPixel startPixel endPixel)"

text \<open>
  The object \<open>bestSnap\<close> is set to when an edge becomes the best, and the loop of
  \<open>findSnapPoint\<close> over the edges. The loop's state is \<open>bestSnap\<close>, \<open>minDistance\<close> and the
  number of projection calls made so far: two for every edge and one more for an edge
  that becomes the best.
\<close>

definition snapOf :: "Projection \<Rightarrow> real \<Rightarrow> Point \<Rightarrow> Edge \<Rightarrow> Snap" where
  "snapOf projection scale pointPixel edge =
     (let projected = edgeProjected projection scale pointPixel edge;
          projectedWorld = \<lparr> pt_x = pt_x (pr_point projected) / scale,
                              pt_y = pt_y (pr_point projected) / scale \<rparr>;
          projectedLatLng = fromPointToLatLng projection projectedWorld
      in \<lparr> snap_point = \<lparr> lat = lat projectedLatLng, lng = lng projectedLatLng \<rparr>,
           snap_distance = pr_distance projected,
           snap_edge = edge,
           snap_t = pr_t projected \<rparr>)"

fun snapLoop ::
  "Projection \<Rightarrow> real \<Rightarrow> Point \<Rightarrow> Edge list \<Rightarrow> Snap option \<times> real \<times> nat
     \<Rightarrow> Snap option \<times> real \<times> nat" where
  "snapLoop projection scale pointPixel [] acc = acc"
| "snapLoop projection scale pointPixel (edge # edges) (bestSnap, minDistance, n) =
     (let projected = edgeProjected projection scale pointPixel edge
      in if pr_distance projected < minDistance
         then snapLoop projection scale pointPixel edges
                (Some (snapOf projection scale pointPixel edge), pr_distance projected, n + 3)
         else snapLoop projection scale pointPixel edges (bestSnap, minDistance, n + 2))"

text \<open>
  \<open>findSnapPoint(point, excludeShapeId)\<close>: the result (\<open>None\<close> for \<open>null\<close>) and the
  engine with its indicator, its callback log and the projection count updated. The map
  is there when its projection is asked for: the first test has returned otherwise.
\<close>

definition findSnapPoint ::
  "store \<Rightarrow> SnapEngine \<Rightarrow> LatLng \<Rightarrow> string option \<Rightarrow> error + Snap option \<times> SnapEngine" where
  "findSnapPoint st engine point excludeShapeId =
     (if \<not> enabled engine \<or> se_map engine = None \<or> length (se_shapes engine) = 0
      then Inr (None, engine)
      else
        (case getAllEdges st engine excludeShapeId of
           Inl e \<Rightarrow> Inl e
         | Inr edges \<Rightarrow>
             if length edges = 0 then Inr (None, engine)
             else
               (case se_map engine of
                  None \<Rightarrow> Inr (None, engine)
                | Some m \<Rightarrow>
                    (case getProjection m of
                       None \<Rightarrow> Inr (None, engine)
                     | Some projection \<Rightarrow>
                         let zoom = getZoom m;
                             scale = 2 powr zoom;
                             pointPixel = toPixel projection scale point
                         in (case snapLoop projection scale pointPixel edges
                                    (None, threshold engine, 1) of
                               (bestSnap, minDistance, n) \<Rightarrow>
                                 let engine1 = engine\<lparr>se_map :=
                                       Some (m\<lparr>projection_calls := projection_calls m + n\<rparr>)\<rparr>
                                 in (case bestSnap of
                                       Some snap \<Rightarrow>
                                         let engine2 = (if showIndicator engine1
                                                        then showIndicatorAt (snap_point snap) engine1
                                                        else engine1);
                                             engine3 = (if onSnap_set engine2
                                                        then engine2\<lparr>onSnap_calls :=
                                                               onSnap_calls engine2 @ [snap]\<rparr>
                                                        else engine2)
                                         in Inr (Some snap, engine3)
                                     | None \<Rightarrow> Inr (None, hideIndicator engine1)))))))"

text \<open>
  The pixel distance of the cursor to an edge as \<open>findSnapPoint\<close> computes it with the
  engine's map.
\<close>

definition pixelDistance :: "Projection \<Rightarrow> real \<Rightarrow> LatLng \<Rightarrow> Edge \<Rightarrow> real" where
  "pixelDistance projection zoom point edge =
     pr_distance (edgeProjected projection (2 powr zoom)
                    (toPixel projection (2 powr zoom) point) edge)"

section \<open>DrawingManager (core/DrawingManager.js)\<close>

text \<open>
  A shape object \<open>{ id, name, type, path | center, radius | bounds, area, obj }\<close>. Its
  \<open>type\<close> and the geometry fields that go with it are one value of \<^typ>\<open>geometry\<close>: the
  source never builds a shape whose fields do not fit its type. \<open>_serialize\<close> copies
  every field but \<open>obj\<close>, the reference to the overlay.
\<close>

record ShapeData =
  sh_id :: string
  sh_name :: string
  sh_geo :: geometry
  sh_area :: real

record Shape = ShapeData +
  sh_obj :: nat

fun type_of :: "geometry \<Rightarrow> string" where
  "type_of (PolygonGeom _) = ''polygon''"
| "type_of (PolylineGeom _) = ''polyline''"
| "type_of (CircleGeom _ _) = ''circle''"
| "type_of (RectangleGeom _) = ''rectangle''"

definition sh_type :: "'a ShapeData_scheme \<Rightarrow> string" where
  "sh_type shape = type_of (sh_geo shape)"

definition sh_path :: "'a ShapeData_scheme \<Rightarrow> LatLng list option" where
  "sh_path shape = getPath (sh_geo shape)"

definition serialize :: "Shape \<Rightarrow> ShapeData" where
  "serialize shape =
     \<lparr> sh_id = sh_id shape,
       sh_name = sh_name shape,
       sh_geo = sh_geo shape,
       sh_area = sh_area shape \<rparr>"

text \<open>The events of the EventBus with their payloads.\<close>

datatype event =
    DrawingStart string
  | DrawingUpdate nat
  | DrawingCancel
  | DrawingComplete ShapeData
  | ShapeCreated ShapeData
  | ShapeUpdated ShapeData
  | ShapeDeleted string
  | ShapeSelected ShapeData
  | ShapeDeselected
  | ShapesCleared
  | HistoryChange history_state
  | SnapActive bool "LatLng option"

text \<open>
  A midpoint handle carries the variable \<open>insertedIndex\<close> of its listeners' closure; its
  \<open>edgeIndex\<close> is its position in the list of the shape's midpoint handles.
\<close>

record MidpointMarker = Marker +
  insertedIndex :: "nat option"

record Label =
  l_position :: LatLng
  l_text :: string
  l_onMap :: bool

record dm_options =
  snapping_enabled :: bool
  snapping_threshold :: real
  style_drawing :: "string \<rightharpoonup> string"
  style_completed :: "string \<rightharpoonup> string"
  style_selected :: "string \<rightharpoonup> string"

text \<open>
  The manager without \<open>this.history\<close>: the entries of the history are closures over
  the manager, so the HistoryManager is kept beside it, with this record as its world
  (\<open>session\<close> below). \<open>events\<close> is the log of what was emitted, oldest first: listeners
  are observers, and \<open>emit\<close> catches what they throw. \<open>heap\<close> is the store of overlays.
  The manager writes one option of the map, the cursor, kept in \<open>draggableCursor\<close>; the
  map's projection and zoom are in the SnapEngine.
\<close>

record DrawingManager =
  options :: dm_options
  shapes :: "(string \<times> Shape) list"
  selectedShapeId :: "string option"
  isDrawing :: bool
  drawingType :: "string option"
  drawingPath :: "LatLng list"
  lastSnapPoint :: "LatLng option"
  idCounter :: nat
  previewLine :: "LatLng list option"
  previewMarkers :: "Marker list"
  drawingListeners :: "string list"
  vertexMarkers :: "(string \<times> Marker list) list"
  midpointMarkers :: "(string \<times> MidpointMarker list) list"
  labels :: "(string \<times> Label) list"
  shapeNameCounter :: nat
  events :: "event list"
  snapEngine :: SnapEngine
  heap :: store
  draggableCursor :: "string option"

type_synonym session = "DrawingManager HistoryManager \<times> DrawingManager"

text \<open>Sequencing of steps that may throw: the first exception ends the sequence.\<close>

fun and_then :: "'a outcome \<Rightarrow> ('a \<Rightarrow> 'a outcome) \<Rightarrow> 'a outcome" where
  "and_then (Returned a) f = f a"
| "and_then (Threw a) f = Threw a"

definition emit :: "event \<Rightarrow> DrawingManager \<Rightarrow> DrawingManager" where
  "emit ev dm = dm\<lparr>events := events dm @ [ev]\<rparr>"

text \<open>The default styles and the options after the defaults are merged in.\<close>

definition default_drawing :: "string \<rightharpoonup> string" where
  "default_drawing =
     [''strokeColor'' \<mapsto> ''#6366f1'', ''strokeWeight'' \<mapsto> ''2'',
      ''fillColor'' \<mapsto> ''#6366f1'', ''fillOpacity'' \<mapsto> ''0.3'']"

definition default_completed :: "string \<rightharpoonup> string" where
  "default_completed =
     [''strokeColor'' \<mapsto> ''#22c55e'', ''strokeWeight'' \<mapsto> ''2'',
      ''fillColor'' \<mapsto> ''#22c55e'', ''fillOpacity'' \<mapsto> ''0.2'']"

definition default_selected :: "string \<rightharpoonup> string" where
  "default_selected = [''strokeColor'' \<mapsto> ''#f59e0b'', ''strokeWeight'' \<mapsto> ''3'']"

record dm_user_options =
  uo_snapping_enabled :: "bool option"
  uo_snapping_threshold :: "real option"
  uo_snapping_showIndicator :: "bool option"
  uo_history_maxSteps :: "int option"
  uo_style_drawing :: "(string \<rightharpoonup> string) option"
  uo_style_completed :: "(string \<rightharpoonup> string) option"
  uo_style_selected :: "(string \<rightharpoonup> string) option"

definition merge_options :: "dm_user_options \<Rightarrow> dm_options" where
  "merge_options u =
     \<lparr> snapping_enabled = (case uo_snapping_enabled u of None \<Rightarrow> True | Some b \<Rightarrow> b),
       snapping_threshold = (case uo_snapping_threshold u of None \<Rightarrow> 15 | Some t \<Rightarrow> t),
       style_drawing = (case uo_style_drawing u of None \<Rightarrow> default_drawing | Some s \<Rightarrow> s),
       style_completed = (case uo_style_completed u of None \<Rightarrow> default_completed | Some s \<Rightarrow> s),
       style_selected = (case uo_style_selected u of None \<Rightarrow> default_selected | Some s \<Rightarrow> s) \<rparr>"

text \<open>
  The constructor. \<open>onChange\<close> of the history emits \<open>history:change\<close>; it cannot throw.
  The keyboard and map-click listeners it installs only call the operations below.
\<close>

definition DrawingManager_new :: "GMap \<Rightarrow> dm_user_options \<Rightarrow> session" where
  "DrawingManager_new gmap u =
     (let opts = merge_options u;
          engine = SnapEngine_new
                     \<lparr> so_map = Some gmap,
                       so_threshold = Some (snapping_threshold opts),
                       so_showIndicator = uo_snapping_showIndicator u \<rparr>
      in (HistoryManager_new
            \<lparr> opt_maxSteps = Some (case uo_history_maxSteps u of None \<Rightarrow> 50 | Some n \<Rightarrow> n),
              opt_onChange = Some (\<lambda>state dm. Returned (emit (HistoryChange state) dm)) \<rparr>,
          \<lparr> options = opts,
            shapes = [],
            selectedShapeId = None,
            isDrawing = False,
            drawingType = None,
            drawingPath = [],
            lastSnapPoint = None,
            idCounter = 0,
            previewLine = None,
            previewMarkers = [],
            drawingListeners = [],
            vertexMarkers = [],
            midpointMarkers = [],
            labels = [],
            shapeNameCounter = 0,
            events = [],
            snapEngine = (if snapping_enabled opts then engine else disable engine),
            heap = [],
            draggableCursor = None \<rparr>))"

subsection \<open>Overlays and handles\<close>

text \<open>\<open>new google.maps.X(...)\<close>: the reference of the new overlay and the manager with it.\<close>

definition alloc :: "GObject \<Rightarrow> DrawingManager \<Rightarrow> nat \<times> DrawingManager" where
  "alloc obj dm = (length (heap dm), dm\<lparr>heap := heap dm @ [obj]\<rparr>)"

definition update_obj :: "nat \<Rightarrow> (GObject \<Rightarrow> GObject) \<Rightarrow> DrawingManager \<Rightarrow> DrawingManager" where
  "update_obj r f dm =
     (if r < length (heap dm) then dm\<lparr>heap := (heap dm)[r := f (heap dm ! r)]\<rparr> else dm)"

text \<open>\<open>obj.setOptions(style)\<close>: the given options replace the ones of the same name.\<close>

definition setOptions :: "nat \<Rightarrow> (string \<rightharpoonup> string) \<Rightarrow> DrawingManager \<Rightarrow> DrawingManager" where
  "setOptions r style dm = update_obj r (\<lambda>obj. obj\<lparr>g_options := g_options obj ++ style\<rparr>) dm"

definition obj_path :: "DrawingManager \<Rightarrow> nat \<Rightarrow> LatLng list option" where
  "obj_path dm r = (case deref (heap dm) r of None \<Rightarrow> None | Some obj \<Rightarrow> getPath (g_geom obj))"

definition set_obj_path :: "nat \<Rightarrow> LatLng list \<Rightarrow> DrawingManager \<Rightarrow> DrawingManager" where
  "set_obj_path r p dm = update_obj r (\<lambda>obj. obj\<lparr>g_geom := setPath p (g_geom obj)\<rparr>) dm"

definition showMarkers :: "string \<Rightarrow> DrawingManager \<Rightarrow> DrawingManager" where
  "showMarkers shapeId dm =
     dm\<lparr>vertexMarkers :=
          AList.map_entry shapeId (map (\<lambda>m. m\<lparr>m_visible := True\<rparr>)) (vertexMarkers dm),
        midpointMarkers :=
          AList.map_entry shapeId (map (\<lambda>m. m\<lparr>m_visible := True\<rparr>)) (midpointMarkers dm)\<rparr>"

definition hideMarkers :: "string \<Rightarrow> DrawingManager \<Rightarrow> DrawingManager" where
  "hideMarkers shapeId dm =
     dm\<lparr>vertexMarkers :=
          AList.map_entry shapeId (map (\<lambda>m. m\<lparr>m_visible := False\<rparr>)) (vertexMarkers dm),
        midpointMarkers :=
          AList.map_entry shapeId (map (\<lambda>m. m\<lparr>m_visible := False\<rparr>)) (midpointMarkers dm)\<rparr>"

definition removeMarkers :: "string \<Rightarrow> DrawingManager \<Rightarrow> DrawingManager" where
  "removeMarkers shapeId dm =
     dm\<lparr>vertexMarkers := AList.delete shapeId (vertexMarkers dm),
        midpointMarkers := AList.delete shapeId (midpointMarkers dm)\<rparr>"

definition createVertexMarker :: "LatLng list \<Rightarrow> nat \<Rightarrow> Marker" where
  "createVertexMarker path index =
     \<lparr> m_position = path ! index, m_visible = False, m_onMap = True \<rparr>"

definition midpoint :: "LatLng \<Rightarrow> LatLng \<Rightarrow> LatLng" where
  "midpoint p1 p2 = \<lparr> lat = (lat p1 + lat p2) / 2, lng = (lng p1 + lng p2) / 2 \<rparr>"

definition createMidpointMarker :: "LatLng list \<Rightarrow> nat \<Rightarrow> MidpointMarker" where
  "createMidpointMarker path edgeIndex =
     (let p1 = path ! edgeIndex;
          p2 = path ! ((edgeIndex + 1) mod length path)
      in \<lparr> m_position = midpoint p1 p2, m_visible = False, m_onMap = True,
           insertedIndex = None \<rparr>)"

text \<open>
  \<open>_createVertexMarkers(shape)\<close>: one handle for every vertex and one for every edge of
  the overlay's path. An overlay without a path has no \<open>getPath\<close>: a TypeError.
\<close>

definition createVertexMarkers :: "Shape \<Rightarrow> DrawingManager \<Rightarrow> DrawingManager outcome" where
  "createVertexMarkers shape dm =
     (case obj_path dm (sh_obj shape) of
        None \<Rightarrow> Threw dm
      | Some path \<Rightarrow>
          let vertices = map (createVertexMarker path) [0..<length path];
              edgeCount = (if sh_type shape = ''polygon'' then length path else length path - 1);
              midpoints = map (createMidpointMarker path) [0..<edgeCount]
          in Returned
               (dm\<lparr>vertexMarkers := AList.update (sh_id shape) vertices (vertexMarkers dm),
                   midpointMarkers := AList.update (sh_id shape) midpoints (midpointMarkers dm)\<rparr>))"

text \<open>\<open>_getShapeCenter(shape)\<close>, the position of the label.\<close>

definition getShapeCenter :: "'a ShapeData_scheme \<Rightarrow> LatLng" where
  "getShapeCenter shape =
     (case sh_geo shape of
        CircleGeom center radius \<Rightarrow> center
      | RectangleGeom b \<Rightarrow>
          \<lparr> lat = (north b + south b) / 2, lng = (east b + west b) / 2 \<rparr>
      | PolygonGeom path \<Rightarrow>
          if length path = 0 then \<lparr> lat = 0, lng = 0 \<rparr>
          else \<lparr> lat = fold (\<lambda>p latSum. latSum + lat p) path 0 / real (length path),
                 lng = fold (\<lambda>p lngSum. lngSum + lng p) path 0 / real (length path) \<rparr>
      | PolylineGeom path \<Rightarrow>
          if length path = 0 then \<lparr> lat = 0, lng = 0 \<rparr>
          else \<lparr> lat = fold (\<lambda>p latSum. latSum + lat p) path 0 / real (length path),
                 lng = fold (\<lambda>p lngSum. lngSum + lng p) path 0 / real (length path) \<rparr>)"

definition createLabel :: "Shape \<Rightarrow> DrawingManager \<Rightarrow> DrawingManager" where
  "createLabel shape dm =
     dm\<lparr>labels :=
          AList.update (sh_id shape)
            \<lparr> l_position = getShapeCenter shape, l_text = sh_name shape, l_onMap = True \<rparr>
            (labels dm)\<rparr>"

definition updateLabel :: "Shape \<Rightarrow> DrawingManager \<Rightarrow> DrawingManager" where
  "updateLabel shape dm =
     (case map_of (labels dm) (sh_id shape) of
        None \<Rightarrow> dm
      | Some label \<Rightarrow>
          dm\<lparr>labels :=
               AList.update (sh_id shape)
                 (label\<lparr>l_position := getShapeCenter shape, l_text := sh_name shape\<rparr>)
                 (labels dm)\<rparr>)"

definition removeLabel :: "string \<Rightarrow> DrawingManager \<Rightarrow> DrawingManager" where
  "removeLabel i dm = dm\<lparr>labels := AList.delete i (labels dm)\<rparr>"

subsection \<open>Selection\<close>

text \<open>\<open>if (this.selectedShapeId)\<close>: \<open>null\<close> and the empty string are falsy.\<close>

definition truthy :: "string option \<Rightarrow> bool" where
  "truthy s = (case s of None \<Rightarrow> False | Some i \<Rightarrow> i \<noteq> [])"

text \<open>The previous selection loses its handles and, when it is a shape, its style.\<close>

definition unselect_previous :: "DrawingManager \<Rightarrow> DrawingManager" where
  "unselect_previous dm =
     (case selectedShapeId dm of
        None \<Rightarrow> dm
      | Some prevId \<Rightarrow>
          let dm1 = hideMarkers prevId dm
          in (case map_of (shapes dm1) prevId of
                None \<Rightarrow> dm1
              | Some prev \<Rightarrow> setOptions (sh_obj prev) (style_completed (options dm1)) dm1))"

definition selectShape :: "string \<Rightarrow> DrawingManager \<Rightarrow> DrawingManager" where
  "selectShape i dm =
     (if selectedShapeId dm = Some i then dm
      else
        let dm1 = (if truthy (selectedShapeId dm) then unselect_previous dm else dm);
            dm2 = dm1\<lparr>selectedShapeId := Some i\<rparr>
        in (case map_of (shapes dm2) i of
              None \<Rightarrow> dm2
            | Some shape \<Rightarrow>
                emit (ShapeSelected (serialize shape))
                  (showMarkers i (setOptions (sh_obj shape) (style_selected (options dm2)) dm2))))"

definition deselectShape :: "DrawingManager \<Rightarrow> DrawingManager" where
  "deselectShape dm =
     (if \<not> truthy (selectedShapeId dm) then dm
      else emit ShapeDeselected ((unselect_previous dm)\<lparr>selectedShapeId := None\<rparr>))"

subsection \<open>Shapes\<close>

text \<open>\<open>_removeShape(id)\<close>.\<close>

definition dm_removeShape :: "string \<Rightarrow> DrawingManager \<Rightarrow> DrawingManager" where
  "dm_removeShape i dm =
     (case map_of (shapes dm) i of
        None \<Rightarrow> dm
      | Some shape \<Rightarrow>
          let dm1 = removeLabel i (removeMarkers i dm);
              dm2 = update_obj (sh_obj shape) (\<lambda>obj. obj\<lparr>g_onMap := False\<rparr>) dm1;
              dm3 = dm2\<lparr>shapes := AList.delete i (shapes dm2),
                        snapEngine := removeShape i (snapEngine dm2)\<rparr>;
              dm4 = (if selectedShapeId dm3 = Some i then dm3\<lparr>selectedShapeId := None\<rparr> else dm3)
          in emit (ShapeDeleted i) dm4)"

text \<open>
  The options an overlay is constructed with: a polyline takes the two stroke options of
  the style, the other classes the whole style.
\<close>

definition overlay_options :: "dm_options \<Rightarrow> geometry \<Rightarrow> string \<rightharpoonup> string" where
  "overlay_options opts g =
     (case g of
        PolygonGeom _ \<Rightarrow>
          style_completed opts ++ [''editable'' \<mapsto> ''false'', ''clickable'' \<mapsto> ''true'']
      | PolylineGeom _ \<Rightarrow>
          (style_completed opts |` {''strokeColor'', ''strokeWeight''})
            ++ [''editable'' \<mapsto> ''false'', ''clickable'' \<mapsto> ''true'']
      | CircleGeom _ _ \<Rightarrow>
          style_completed opts ++ [''editable'' \<mapsto> ''true'', ''clickable'' \<mapsto> ''true'']
      | RectangleGeom _ \<Rightarrow>
          style_completed opts ++ [''editable'' \<mapsto> ''true'', ''clickable'' \<mapsto> ''true''])"

text \<open>
  \<open>_restoreShape(data)\<close>: a new overlay and a new shape object under the old id, with
  handles and label; \<open>shape:created\<close> is emitted, the history is not touched.
\<close>

definition restoreShape :: "ShapeData \<Rightarrow> DrawingManager \<Rightarrow> DrawingManager outcome" where
  "restoreShape data dm =
     (case alloc \<lparr> g_geom = sh_geo data,
                   g_options = overlay_options (options dm) (sh_geo data),
                   g_onMap = True \<rparr> dm of
        (r, dm1) \<Rightarrow>
          let shape = \<lparr> sh_id = sh_id data, sh_name = sh_name data, sh_geo = sh_geo data,
                        sh_area = sh_area data, sh_obj = r \<rparr>;
              dm2 = dm1\<lparr>shapes := AList.update (sh_id data) shape (shapes dm1),
                        snapEngine := addShape (sh_id data) (sh_type data) r (snapEngine dm1)\<rparr>
          in and_then
               (if sh_type shape = ''polygon'' \<or> sh_type shape = ''polyline''
                then createVertexMarkers shape dm2 else Returned dm2)
               (\<lambda>dm3. Returned (emit (ShapeCreated (serialize shape)) (createLabel shape dm3))))"

text \<open>Decimal digits of a counter, for \<open>`shape_${n}`\<close>.\<close>

definition digit_char :: "nat \<Rightarrow> char" where
  "digit_char d = ''0123456789'' ! d"

function string_of_nat :: "nat \<Rightarrow> string" where
  "string_of_nat n =
     (if n < 10 then [digit_char n] else string_of_nat (n div 10) @ [digit_char (n mod 10)])"
  by pat_completeness auto
termination
  by (relation "measure (\<lambda>n. n)") auto

declare string_of_nat.simps [simp del]

text \<open>
  \<open>_createShape()\<close>: both counters are incremented first. A circle and a rectangle
  read two points off the path; with fewer, reading \<open>lat\<close> off \<open>undefined\<close> is a
  TypeError. Another drawing type gives no shape (\<open>data\<close> stays \<open>undefined\<close>).
\<close>

definition createShape :: "DrawingManager \<Rightarrow> (Shape option \<times> DrawingManager) outcome" where
  "createShape dm =
     (let dm1 = dm\<lparr>idCounter := idCounter dm + 1, shapeNameCounter := shapeNameCounter dm + 1\<rparr>;
          i = ''shape_'' @ string_of_nat (idCounter dm1);
          name = ''Shape '' @ string_of_nat (shapeNameCounter dm1);
          make = (\<lambda>g a.
                    case alloc \<lparr> g_geom = g, g_options = overlay_options (options dm1) g,
                                  g_onMap = True \<rparr> dm1 of
                      (r, dm2) \<Rightarrow>
                        Returned (Some \<lparr> sh_id = i, sh_name = name, sh_geo = g, sh_area = a,
                                         sh_obj = r \<rparr>, dm2))
      in if drawingType dm1 = Some ''polygon'' then
           make (PolygonGeom (drawingPath dm1)) (calculatePolygonArea (drawingPath dm1))
         else if drawingType dm1 = Some ''polyline'' then
           make (PolylineGeom (drawingPath dm1)) 0
         else if drawingType dm1 = Some ''circle'' then
           (case drawingPath dm1 of
              center # edge # _ \<Rightarrow>
                let radius = distanceLatLng center edge
                in make (CircleGeom center radius) (fl (fl (Math_PI * radius) * radius))
            | _ \<Rightarrow> Threw (None, dm1))
         else if drawingType dm1 = Some ''rectangle'' then
           (case drawingPath dm1 of
              p1 # p2 # _ \<Rightarrow>
                let bounds = \<lparr> north = max (lat p1) (lat p2),
                               south = min (lat p1) (lat p2),
                               east = max (lng p1) (lng p2),
                               west = min (lng p1) (lng p2) \<rparr>;
                    w = distanceLatLng \<lparr> lat = north bounds, lng = west bounds \<rparr>
                                       \<lparr> lat = north bounds, lng = east bounds \<rparr>;
                    h = distanceLatLng \<lparr> lat = south bounds, lng = west bounds \<rparr>
                                       \<lparr> lat = north bounds, lng = west bounds \<rparr>
                in make (RectangleGeom bounds) (fl (w * h))
            | _ \<Rightarrow> Threw (None, dm1))
         else Returned (None, dm1))"

text \<open>
  \<open>_registerShape(shape)\<close>: registry, SnapEngine, handles, label, then the \<open>create\<close>
  entry of the history, whose callbacks remove the shape and restore it from the
  snapshot taken here, and \<open>shape:created\<close>. The \<open>click\<close> listener it puts on the
  overlay calls \<open>selectShape\<close> with the shape's id.
\<close>

definition registerShape :: "Shape \<Rightarrow> session \<Rightarrow> session outcome" where
  "registerShape shape s =
     (case s of (h, dm) \<Rightarrow>
        let dm1 = dm\<lparr>shapes := AList.update (sh_id shape) shape (shapes dm),
                     snapEngine := addShape (sh_id shape) (sh_type shape) (sh_obj shape)
                                     (snapEngine dm)\<rparr>
        in (case (if sh_type shape = ''polygon'' \<or> sh_type shape = ''polyline''
                  then createVertexMarkers shape dm1 else Returned dm1) of
              Threw dm2 \<Rightarrow> Threw (h, dm2)
            | Returned dm2 \<Rightarrow>
                let dm3 = createLabel shape dm2;
                    data = serialize shape
                in (case push \<lparr> atype = ''create'',
                                undo_cb = (\<lambda>w. Returned (dm_removeShape (sh_id shape) w)),
                                redo_cb = (\<lambda>w. restoreShape data w) \<rparr> (h, dm3) of
                      (h1, Threw dm4) \<Rightarrow> Threw (h1, dm4)
                    | (h1, Returned dm4) \<Rightarrow> Returned (h1, emit (ShapeCreated data) dm4))))"

subsection \<open>Drawing\<close>

definition cleanupDrawing :: "DrawingManager \<Rightarrow> DrawingManager" where
  "cleanupDrawing dm =
     dm\<lparr>drawingListeners := [],
        previewLine := None,
        previewMarkers := [],
        snapEngine := hideIndicator (snapEngine dm),
        lastSnapPoint := None\<rparr>"

definition stopDrawing :: "DrawingManager \<Rightarrow> DrawingManager" where
  "stopDrawing dm =
     emit DrawingCancel
       ((cleanupDrawing dm)\<lparr>isDrawing := False, drawingType := None, drawingPath := [],
                            draggableCursor := None\<rparr>)"

definition startDrawing :: "string \<Rightarrow> DrawingManager \<Rightarrow> DrawingManager" where
  "startDrawing ty dm =
     (let dm1 = (if isDrawing dm then stopDrawing dm else dm);
          dm2 = dm1\<lparr>isDrawing := True, drawingType := Some ty, drawingPath := [],
                    lastSnapPoint := None\<rparr>;
          dm3 = deselectShape dm2;
          dm4 = dm3\<lparr>draggableCursor := Some ''crosshair'',
                    drawingListeners := [''click'', ''mousemove'', ''dblclick'']\<rparr>
      in emit (DrawingStart ty) dm4)"

text \<open>
  \<open>{ polygon: 3, polyline: 2, circle: 2, rectangle: 2 }[this.drawingType] || 2\<close>. A name
  that the object literal inherits from \<open>Object.prototype\<close> yields a function, and a
  length compared with a function is never smaller: \<open>None\<close>.
\<close>

definition object_prototype_keys :: "string list" where
  "object_prototype_keys =
     [''constructor'', ''hasOwnProperty'', ''isPrototypeOf'', ''propertyIsEnumerable'',
      ''toLocaleString'', ''toString'', ''valueOf'', ''__defineGetter__'',
      ''__defineSetter__'', ''__lookupGetter__'', ''__lookupSetter__'', ''__proto__'']"

definition minPoints :: "string option \<Rightarrow> nat option" where
  "minPoints ty =
     (case ty of
        None \<Rightarrow> Some 2
      | Some t \<Rightarrow>
          if t = ''polygon'' then Some 3
          else if t = ''polyline'' \<or> t = ''circle'' \<or> t = ''rectangle'' then Some 2
          else if t \<in> set object_prototype_keys then None
          else Some 2)"

definition below_minimum :: "nat \<Rightarrow> nat option \<Rightarrow> bool" where
  "below_minimum n m = (case m of None \<Rightarrow> False | Some k \<Rightarrow> n < k)"

text \<open>\<open>completeDrawing()\<close>.\<close>

definition completeDrawing :: "session \<Rightarrow> session outcome" where
  "completeDrawing s =
     (case s of (h, dm) \<Rightarrow>
        if \<not> isDrawing dm then Returned s
        else if below_minimum (length (drawingPath dm)) (minPoints (drawingType dm))
        then Returned s
        else
          (case createShape dm of
             Threw (_, dm1) \<Rightarrow> Threw (h, dm1)
           | Returned (None, dm1) \<Rightarrow> Returned (h, stopDrawing dm1)
           | Returned (Some shape, dm1) \<Rightarrow>
               (case registerShape shape (h, dm1) of
                  Threw s1 \<Rightarrow> Threw s1
                | Returned (h1, dm2) \<Rightarrow>
                    Returned (h1, stopDrawing (emit (DrawingComplete (serialize shape)) dm2)))))"

definition addPreviewMarker :: "LatLng \<Rightarrow> DrawingManager \<Rightarrow> DrawingManager" where
  "addPreviewMarker pt dm =
     dm\<lparr>previewMarkers :=
          previewMarkers dm @ [\<lparr> m_position = pt, m_visible = True, m_onMap = True \<rparr>]\<rparr>"

definition updatePreviewLine :: "LatLng list \<Rightarrow> DrawingManager \<Rightarrow> DrawingManager" where
  "updatePreviewLine path dm = dm\<lparr>previewLine := Some path\<rparr>"

text \<open>\<open>_handleDrawingClick(pt)\<close>: the second click of a circle or rectangle completes it.\<close>

definition handleDrawingClick :: "LatLng \<Rightarrow> session \<Rightarrow> session outcome" where
  "handleDrawingClick pt s =
     (case s of (h, dm) \<Rightarrow>
        if drawingType dm = Some ''polygon'' \<or> drawingType dm = Some ''polyline'' then
          let dm1 = dm\<lparr>drawingPath := drawingPath dm @ [pt]\<rparr>;
              dm2 = updatePreviewLine (drawingPath dm1) (addPreviewMarker pt dm1)
          in Returned (h, emit (DrawingUpdate (length (drawingPath dm2))) dm2)
        else if drawingType dm = Some ''circle'' \<or> drawingType dm = Some ''rectangle'' then
          let dm1 = dm\<lparr>drawingPath := drawingPath dm @ [pt]\<rparr>
          in if length (drawingPath dm1) = 1 then Returned (h, addPreviewMarker pt dm1)
             else completeDrawing (h, dm1)
        else Returned s)"

text \<open>The \<open>click\<close> listener of the map while drawing.\<close>

definition map_click :: "LatLng \<Rightarrow> session \<Rightarrow> session outcome" where
  "map_click latLng s =
     (case s of (h, dm) \<Rightarrow>
        if \<not> isDrawing dm then Returned s
        else handleDrawingClick (case lastSnapPoint dm of Some p \<Rightarrow> p | None \<Rightarrow> latLng) s)"

subsection \<open>Editing with the handles\<close>

text \<open>
  \<open>this.options.snapping.enabled ? this.snapEngine.findSnapPoint(pt, shape.id) : null\<close>,
  the snap lookup of both \<open>drag\<close> listeners: the shape being edited is excluded.
\<close>

definition dragSnap ::
  "DrawingManager \<Rightarrow> string \<Rightarrow> LatLng \<Rightarrow> error + Snap option \<times> SnapEngine" where
  "dragSnap dm shapeId pt =
     (if snapping_enabled (options dm)
      then findSnapPoint (heap dm) (snapEngine dm) pt (Some shapeId)
      else Inr (None, snapEngine dm))"

text \<open>\<open>MVCArray.setAt\<close> and \<open>insertAt\<close> at positions up to the end of the path.\<close>

definition setAt :: "nat \<Rightarrow> 'a \<Rightarrow> 'a list \<Rightarrow> 'a list" where
  "setAt i v xs = (if i < length xs then xs[i := v] else xs @ replicate (i - length xs) v @ [v])"

definition insertAt :: "nat \<Rightarrow> 'a \<Rightarrow> 'a list \<Rightarrow> 'a list" where
  "insertAt i v xs = take i xs @ [v] @ drop i xs"

text \<open>
  \<open>_updateMidpointPositions(shape)\<close>: every midpoint handle moves to the middle of its
  edge. A handle whose edge is not in the path reads \<open>lat\<close> off \<open>undefined\<close>.
\<close>

definition updateMidpointPositions :: "Shape \<Rightarrow> DrawingManager \<Rightarrow> DrawingManager outcome" where
  "updateMidpointPositions shape dm =
     (case obj_path dm (sh_obj shape) of
        None \<Rightarrow> Threw dm
      | Some path \<Rightarrow>
          (case map_of (midpointMarkers dm) (sh_id shape) of
             None \<Rightarrow> Returned dm
           | Some midpoints \<Rightarrow>
               if length path < length midpoints then Threw dm
               else
                 Returned
                   (dm\<lparr>midpointMarkers :=
                        AList.update (sh_id shape)
                          (map (\<lambda>i. (midpoints ! i)
                                  \<lparr>m_position :=
                                     midpoint (path ! i) (path ! ((i + 1) mod length path))\<rparr>)
                             [0..<length midpoints])
                          (midpointMarkers dm)\<rparr>)))"

text \<open>
  \<open>_updateShapeData(shape)\<close>: the stored path is read off the overlay, the area of a
  polygon is computed again, the shape is registered anew with the SnapEngine, the
  label moves and \<open>shape:updated\<close> is emitted. Nothing is pushed on the history.
\<close>

definition updateShapeData :: "Shape \<Rightarrow> DrawingManager \<Rightarrow> DrawingManager outcome" where
  "updateShapeData shape dm =
     (case obj_path dm (sh_obj shape) of
        None \<Rightarrow> Threw dm
      | Some path \<Rightarrow>
          let shape1 = shape\<lparr>sh_geo := setPath path (sh_geo shape)\<rparr>;
              shape2 = (if sh_type shape1 = ''polygon''
                        then shape1\<lparr>sh_area := calculatePolygonArea path\<rparr> else shape1);
              dm1 = dm\<lparr>shapes := AList.map_entry (sh_id shape) (\<lambda>_. shape2) (shapes dm)\<rparr>;
              dm2 = dm1\<lparr>snapEngine :=
                          addShape (sh_id shape2) (sh_type shape2) (sh_obj shape2)
                            (removeShape (sh_id shape2) (snapEngine dm1))\<rparr>;
              dm3 = updateLabel shape2 dm2
          in Returned (emit (ShapeUpdated (serialize shape2)) dm3))"

text \<open>
  The listeners of a handle run on the shape and the path their closure holds: the
  shape registered under the id, as long as the handle is there. An event of a handle
  that is not there does not happen, and the manager stays as it is.

  \<open>drag\<close> of the vertex handle \<open>index\<close>: the Maps API has moved the handle to the cursor
  \<open>latLng\<close>; a snap moves handle and vertex to the snap point instead.
\<close>

definition vertex_drag :: "string \<Rightarrow> nat \<Rightarrow> LatLng \<Rightarrow> DrawingManager \<Rightarrow> DrawingManager outcome" where
  "vertex_drag shapeId index latLng dm =
     (case (map_of (shapes dm) shapeId, map_of (vertexMarkers dm) shapeId) of
        (Some shape, Some markers) \<Rightarrow>
          if \<not> index < length markers then Returned dm
          else
            (case (dragSnap dm shapeId latLng, obj_path dm (sh_obj shape)) of
               (Inr (snap, engine), Some path) \<Rightarrow>
                 let target = (case snap of Some sn \<Rightarrow> snap_point sn | None \<Rightarrow> latLng);
                     dm1 = dm\<lparr>snapEngine := engine,
                              vertexMarkers :=
                                AList.update shapeId
                                  (markers[index := (markers ! index)\<lparr>m_position := target\<rparr>])
                                  (vertexMarkers dm)\<rparr>;
                     dm2 = set_obj_path (sh_obj shape) (setAt index target path) dm1;
                     dm3 = (case snap of
                              Some sn \<Rightarrow> emit (SnapActive True (Some (snap_point sn))) dm2
                            | None \<Rightarrow>
                                emit (SnapActive False None)
                                  (dm2\<lparr>snapEngine := hideIndicator (snapEngine dm2)\<rparr>))
                 in updateMidpointPositions shape dm3
             | _ \<Rightarrow> Threw dm)
      | _ \<Rightarrow> Returned dm)"

text \<open>\<open>dragend\<close> of a vertex handle.\<close>

definition vertex_dragend :: "string \<Rightarrow> nat \<Rightarrow> DrawingManager \<Rightarrow> DrawingManager outcome" where
  "vertex_dragend shapeId index dm =
     (case (map_of (shapes dm) shapeId, map_of (vertexMarkers dm) shapeId) of
        (Some shape, Some markers) \<Rightarrow>
          if \<not> index < length markers then Returned dm
          else
            and_then (updateShapeData shape dm)
              (\<lambda>dm1. Returned
                 (emit (SnapActive False None)
                    (dm1\<lparr>snapEngine := hideIndicator (snapEngine dm1)\<rparr>)))
      | _ \<Rightarrow> Returned dm)"

text \<open>
  \<open>dragstart\<close> of the midpoint handle \<open>edgeIndex\<close>: the handle's position becomes a new
  vertex of the overlay's path at \<open>edgeIndex + 1\<close>.
\<close>

definition midpoint_dragstart :: "string \<Rightarrow> nat \<Rightarrow> DrawingManager \<Rightarrow> DrawingManager outcome" where
  "midpoint_dragstart shapeId edgeIndex dm =
     (case (map_of (shapes dm) shapeId, map_of (midpointMarkers dm) shapeId) of
        (Some shape, Some markers) \<Rightarrow>
          if \<not> edgeIndex < length markers then Returned dm
          else
            (case obj_path dm (sh_obj shape) of
               None \<Rightarrow> Threw dm
             | Some path \<Rightarrow>
                 let marker = markers ! edgeIndex;
                     dm1 = dm\<lparr>midpointMarkers :=
                                AList.update shapeId
                                  (markers[edgeIndex := marker\<lparr>insertedIndex := Some (edgeIndex + 1)\<rparr>])
                                  (midpointMarkers dm)\<rparr>
                 in Returned
                      (set_obj_path (sh_obj shape)
                         (insertAt (edgeIndex + 1) (m_position marker) path) dm1))
      | _ \<Rightarrow> Returned dm)"

text \<open>\<open>drag\<close> of a midpoint handle: nothing before \<open>dragstart\<close>; then as for a vertex.\<close>

definition midpoint_drag :: "string \<Rightarrow> nat \<Rightarrow> LatLng \<Rightarrow> DrawingManager \<Rightarrow> DrawingManager outcome" where
  "midpoint_drag shapeId edgeIndex latLng dm =
     (case (map_of (shapes dm) shapeId, map_of (midpointMarkers dm) shapeId) of
        (Some shape, Some markers) \<Rightarrow>
          if \<not> edgeIndex < length markers then Returned dm
          else
            (case insertedIndex (markers ! edgeIndex) of
               None \<Rightarrow> Returned dm
             | Some inserted \<Rightarrow>
                 (case (dragSnap dm shapeId latLng, obj_path dm (sh_obj shape)) of
                    (Inr (snap, engine), Some path) \<Rightarrow>
                      let target = (case snap of Some sn \<Rightarrow> snap_point sn | None \<Rightarrow> latLng);
                          dm1 = dm\<lparr>snapEngine := engine,
                                   midpointMarkers :=
                                     AList.update shapeId
                                       (markers[edgeIndex :=
                                          (markers ! edgeIndex)\<lparr>m_position := target\<rparr>])
                                       (midpointMarkers dm)\<rparr>;
                          dm2 = set_obj_path (sh_obj shape) (setAt inserted target path) dm1
                      in Returned
                           (case snap of
                              Some sn \<Rightarrow> emit (SnapActive True (Some (snap_point sn))) dm2
                            | None \<Rightarrow>
                                emit (SnapActive False None)
                                  (dm2\<lparr>snapEngine := hideIndicator (snapEngine dm2)\<rparr>))
                  | _ \<Rightarrow> Threw dm))
      | _ \<Rightarrow> Returned dm)"

text \<open>\<open>_rebuildMarkers(shape)\<close>: new handles for the path as it is now, then the shape's data.\<close>

definition rebuildMarkers :: "Shape \<Rightarrow> DrawingManager \<Rightarrow> DrawingManager outcome" where
  "rebuildMarkers shape dm =
     (let wasSelected = (selectedShapeId dm = Some (sh_id shape))
      in and_then (createVertexMarkers shape (removeMarkers (sh_id shape) dm))
           (\<lambda>dm1. updateShapeData shape
                     (if wasSelected then showMarkers (sh_id shape) dm1 else dm1)))"

text \<open>\<open>dragend\<close> of a midpoint handle.\<close>

definition midpoint_dragend :: "string \<Rightarrow> nat \<Rightarrow> DrawingManager \<Rightarrow> DrawingManager outcome" where
  "midpoint_dragend shapeId edgeIndex dm =
     (case (map_of (shapes dm) shapeId, map_of (midpointMarkers dm) shapeId) of
        (Some shape, Some markers) \<Rightarrow>
          if \<not> edgeIndex < length markers then Returned dm
          else
            and_then (rebuildMarkers shape dm)
              (\<lambda>dm1. Returned
                 (emit (SnapActive False None)
                    (dm1\<lparr>snapEngine := hideIndicator (snapEngine dm1)\<rparr>)))
      | _ \<Rightarrow> Returned dm)"

subsection \<open>Gestures\<close>

text \<open>
  The handles' listeners get the manager only: they have no access to the history but
  through it, and \<open>on_manager\<close> runs one in a session, the history passing through.
\<close>

definition on_manager :: "(DrawingManager \<Rightarrow> DrawingManager outcome) \<Rightarrow> session \<Rightarrow> session outcome" where
  "on_manager f s =
     (case s of (h, dm) \<Rightarrow>
        (case f dm of Returned dm1 \<Rightarrow> Returned (h, dm1) | Threw dm1 \<Rightarrow> Threw (h, dm1)))"

fun drag_moves ::
  "(LatLng \<Rightarrow> DrawingManager \<Rightarrow> DrawingManager outcome) \<Rightarrow> LatLng list \<Rightarrow> DrawingManager
     \<Rightarrow> DrawingManager outcome" where
  "drag_moves f [] dm = Returned dm"
| "drag_moves f (p # ps) dm = and_then (f p dm) (drag_moves f ps)"

text \<open>The \<open>snap:active\<close> events, the only ones a \<open>drag\<close> listener emits.\<close>

fun snap_active :: "event \<Rightarrow> bool" where
  "snap_active (SnapActive _ _) = True"
| "snap_active _ = False"

text \<open>A whole gesture on a vertex handle: the \<open>drag\<close> events at \<open>moves\<close>, then \<open>dragend\<close>.\<close>

definition vertex_gesture :: "string \<Rightarrow> nat \<Rightarrow> LatLng list \<Rightarrow> session \<Rightarrow> session outcome" where
  "vertex_gesture shapeId index moves =
     on_manager (\<lambda>dm. and_then (drag_moves (vertex_drag shapeId index) moves dm)
                        (vertex_dragend shapeId index))"

text \<open>A whole gesture on a midpoint handle: \<open>dragstart\<close>, the \<open>drag\<close> events, \<open>dragend\<close>.\<close>

definition midpoint_gesture :: "string \<Rightarrow> nat \<Rightarrow> LatLng list \<Rightarrow> session \<Rightarrow> session outcome" where
  "midpoint_gesture shapeId edgeIndex moves =
     on_manager (\<lambda>dm. and_then (midpoint_dragstart shapeId edgeIndex dm)
                        (\<lambda>dm1. and_then (drag_moves (midpoint_drag shapeId edgeIndex) moves dm1)
                                  (midpoint_dragend shapeId edgeIndex)))"

subsection \<open>Well-formed registries\<close>

text \<open>
  Every entry of the SnapEngine's registry names an overlay that has the accessors its
  \<open>type\<close> asks for, so \<open>_getAllEdges\<close> raises no TypeError. The manager registers every
  overlay under the type it was built for.
\<close>

definition registry_ok :: "store \<Rightarrow> SnapEngine \<Rightarrow> bool" where
  "registry_ok st engine =
     list_all (\<lambda>q. case shapeEdges st (fst q) (snd q) of Inl _ \<Rightarrow> False | Inr _ \<Rightarrow> True)
       (se_shapes engine)"

fun returned :: "'a outcome \<Rightarrow> bool" where
  "returned (Returned _) = True"
| "returned (Threw _) = False"

text \<open>
  The state between \<open>dragstart\<close> and \<open>dragend\<close> of the midpoint handle \<open>e\<close> of the shape
  registered as \<open>X\<close>, whose overlay had the path \<open>p\<close>: the handle remembers the index of
  the vertex it inserted, and the overlay's path is \<open>p\<close> with a vertex \<open>v\<close> inserted there.
\<close>

definition midpoint_dragging ::
  "string \<Rightarrow> nat \<Rightarrow> Shape \<Rightarrow> LatLng list \<Rightarrow> LatLng \<Rightarrow> DrawingManager \<Rightarrow> bool" where
  "midpoint_dragging X e shape p v dm =
     (map_of (shapes dm) X = Some shape \<and>
      (case map_of (midpointMarkers dm) X of
         None \<Rightarrow> False
       | Some ms \<Rightarrow> e < length ms \<and> insertedIndex (ms ! e) = Some (e + 1)) \<and>
      obj_path dm (sh_obj shape) = Some (insertAt (e + 1) v p) \<and>
      e + 1 \<le> length p \<and>
      registry_ok (heap dm) (snapEngine dm))"

text \<open>
  The state during the drag of the vertex handle \<open>idx\<close>: the overlay's path has as many
  vertices as before, no fewer than the shape has midpoint handles.
\<close>

definition vertex_dragging ::
  "string \<Rightarrow> nat \<Rightarrow> Shape \<Rightarrow> nat \<Rightarrow> DrawingManager \<Rightarrow> bool" where
  "vertex_dragging X idx shape n dm =
     (map_of (shapes dm) X = Some shape \<and>
      (case map_of (vertexMarkers dm) X of
         None \<Rightarrow> False
       | Some ms \<Rightarrow> idx < length ms) \<and>
      (case map_of (midpointMarkers dm) X of
         None \<Rightarrow> True
       | Some mids \<Rightarrow> length mids \<le> n) \<and>
      (case obj_path dm (sh_obj shape) of
         None \<Rightarrow> False
       | Some q \<Rightarrow> length q = n) \<and>
      idx < n \<and>
      registry_ok (heap dm) (snapEngine dm))"

section \<open>Example data\<close>

text \<open>
  A map whose projection takes longitude and latitude as they are, at zoom 0, and two
  polylines on the same segment, registered in the order of their ids.
\<close>

definition ex_projection :: Projection where
  "ex_projection =
     \<lparr> fromLatLngToPoint = (\<lambda>p. \<lparr> pt_x = lng p, pt_y = lat p \<rparr>),
       fromPointToLatLng = (\<lambda>q. \<lparr> lat = pt_y q, lng = pt_x q \<rparr>) \<rparr>"

definition ex_map :: GMap where
  "ex_map = \<lparr> getProjection = Some ex_projection, getZoom = 0, projection_calls = 0 \<rparr>"

definition ex_store :: store where
  "ex_store =
     [ \<lparr> g_geom = PolylineGeom [\<lparr>lat = 0, lng = 0\<rparr>, \<lparr>lat = 0, lng = 10\<rparr>],
         g_options = Map.empty, g_onMap = True \<rparr>,
       \<lparr> g_geom = PolylineGeom [\<lparr>lat = 0, lng = 0\<rparr>, \<lparr>lat = 0, lng = 10\<rparr>],
         g_options = Map.empty, g_onMap = True \<rparr> ]"

definition ex_engine :: SnapEngine where
  "ex_engine =
     addShape ''shape_2'' ''polyline'' 1
       (addShape ''shape_1'' ''polyline'' 0
          (SnapEngine_new \<lparr> so_map = Some ex_map, so_threshold = None, so_showIndicator = None \<rparr>))"

definition ex_edge :: "string \<Rightarrow> Edge" where
  "ex_edge i = \<lparr> edge_start = \<lparr>lat = 0, lng = 0\<rparr>, edge_end = \<lparr>lat = 0, lng = 10\<rparr>, edge_shapeId = i \<rparr>"


text \<open>
  A session: a new manager with the default options, a polygon drawing with two and
  with three clicks, and the triangle after \<open>completeDrawing()\<close>.
\<close>

definition ex_session0 :: session where
  "ex_session0 =
     DrawingManager_new ex_map
       \<lparr> uo_snapping_enabled = None, uo_snapping_threshold = None,
         uo_snapping_showIndicator = None, uo_history_maxSteps = None,
         uo_style_drawing = None, uo_style_completed = None, uo_style_selected = None \<rparr>"

definition ex_two_points :: session where
  "ex_two_points =
     world_of (map_click \<lparr>lat = 0, lng = 10\<rparr>
       (world_of (map_click \<lparr>lat = 0, lng = 0\<rparr>
          (fst ex_session0, startDrawing ''polygon'' (snd ex_session0)))))"

definition ex_three_points :: session where
  "ex_three_points = world_of (map_click \<lparr>lat = 10, lng = 0\<rparr> ex_two_points)"

definition ex_triangle :: session where
  "ex_triangle = world_of (completeDrawing ex_three_points)"

text \<open>The triangle selected by a click on it.\<close>

definition ex_selected :: DrawingManager where
  "ex_selected = selectShape ''shape_1'' (snd ex_triangle)"

text \<open>The triangle's shape object, and a second shape: a polyline drawn next to it.\<close>

definition ex_shape1 :: Shape where
  "ex_shape1 =
     \<lparr> sh_id = ''shape_1'', sh_name = ''Shape 1'',
       sh_geo = PolygonGeom [\<lparr>lat = 0, lng = 0\<rparr>, \<lparr>lat = 0, lng = 10\<rparr>, \<lparr>lat = 10, lng = 0\<rparr>],
       sh_area = calculatePolygonArea
                   [\<lparr>lat = 0, lng = 0\<rparr>, \<lparr>lat = 0, lng = 10\<rparr>, \<lparr>lat = 10, lng = 0\<rparr>],
       sh_obj = 0 \<rparr>"

definition ex_line_points :: session where
  "ex_line_points =
     world_of (map_click \<lparr>lat = 0, lng = 30\<rparr>
       (world_of (map_click \<lparr>lat = 0, lng = 20\<rparr>
          (fst ex_triangle, startDrawing ''polyline'' (snd ex_triangle)))))"

definition ex_pair :: session where
  "ex_pair = world_of (completeDrawing ex_line_points)"

definition ex_edge2 :: Edge where
  "ex_edge2 = \<lparr> edge_start = \<lparr>lat = 0, lng = 20\<rparr>, edge_end = \<lparr>lat = 0, lng = 30\<rparr>,
                 edge_shapeId = ''shape_2'' \<rparr>"

text \<open>
  The triangle after its first midpoint handle was dragged over one point, and the
  session with the triangle and the polyline after the triangle's second vertex was
  dragged next to the polyline.
\<close>

definition ex_midpoint_dragged :: session where
  "ex_midpoint_dragged =
     world_of (midpoint_gesture ''shape_1'' 0 [\<lparr>lat = 1, lng = 5\<rparr>] ex_triangle)"

definition ex_vertex_dragged :: session where
  "ex_vertex_dragged =
     world_of (vertex_gesture ''shape_1'' 1 [\<lparr>lat = 3, lng = 24\<rparr>] ex_pair)"

text \<open>
  The triangle's creation undone, then the id of the removed triangle selected, then the
  creation redone.
\<close>

definition ex_undone :: session where
  "ex_undone = snd (undo ex_triangle)"

definition ex_dangling :: session where
  "ex_dangling = (fst ex_undone, selectShape ''shape_1'' (snd ex_undone))"

definition ex_redone :: session where
  "ex_redone = snd (redo ex_dangling)"

section \<open>HistoryManager: bound, redo branch, failures\<close>

lemma notifyChange_fields:
  "maxSteps (fst (notifyChange h w)) = maxSteps h"
  "history (fst (notifyChange h w)) = history h"
  "currentIndex (fst (notifyChange h w)) = currentIndex h"
  "onChange (fst (notifyChange h w)) = onChange h"
  by (simp_all add: notifyChange_def split: option.splits)

lemma hist_inv_notifyChange: "hist_inv (fst (notifyChange h w)) = hist_inv h"
  by (simp add: hist_inv_def notifyChange_fields)

lemma slice0_take: "0 \<le> e \<Longrightarrow> slice0 xs e = take (nat e) xs"
  by (simp add: slice0_def Let_def min_def)

lemma push_history:
  assumes "- 1 \<le> currentIndex h" "currentIndex h \<le> int (length (history h)) - 1"
  shows "history (fst (push a (h, w))) =
           (let xs = take (nat (currentIndex h + 1)) (history h) @ [a]
            in if int (length xs) > maxSteps h then tl xs else xs)"
    and "currentIndex (fst (push a (h, w))) =
           (if int (length (take (nat (currentIndex h + 1)) (history h) @ [a])) > maxSteps h
            then currentIndex h + 1 - 1 else currentIndex h + 1)"
    and "maxSteps (fst (push a (h, w))) = maxSteps h"
  using assms
  by (auto simp add: push_def Let_def notifyChange_fields slice0_take)

lemma push_index_tail:
  assumes "- 1 \<le> currentIndex h" "currentIndex h \<le> int (length (history h)) - 1"
  shows "currentIndex (fst (push a (h, w))) = int (length (history (fst (push a (h, w))))) - 1"
  using assms by (auto simp add: push_history Let_def min_def)

lemma hist_inv_push: "hist_inv h \<Longrightarrow> hist_inv (fst (push a (h, w)))"
  unfolding hist_inv_def
  by (auto simp add: push_history Let_def min_def)

lemma undo_fields:
  "maxSteps (fst (snd (undo (h, w)))) = maxSteps h"
  "history (fst (snd (undo (h, w)))) = history h"
  by (auto simp add: undo_def Let_def notifyChange_def split: option.splits outcome.splits prod.splits)

lemma undo_index:
  "currentIndex (fst (snd (undo (h, w)))) = currentIndex h \<or>
   (0 \<le> currentIndex h \<and> currentIndex (fst (snd (undo (h, w)))) = currentIndex h - 1)"
  by (auto simp add: undo_def Let_def notifyChange_def canUndo_def split: option.splits outcome.splits prod.splits)

lemma redo_fields:
  "maxSteps (fst (snd (redo (h, w)))) = maxSteps h"
  "history (fst (snd (redo (h, w)))) = history h"
  by (auto simp add: redo_def Let_def notifyChange_def split: option.splits outcome.splits prod.splits)

lemma redo_index:
  "currentIndex (fst (snd (redo (h, w)))) = currentIndex h \<or>
   (currentIndex h < int (length (history h)) - 1 \<and>
    currentIndex (fst (snd (redo (h, w)))) = currentIndex h + 1)"
  by (auto simp add: redo_def Let_def notifyChange_def canRedo_def split: option.splits outcome.splits prod.splits)

lemma hist_inv_undo: "hist_inv h \<Longrightarrow> hist_inv (fst (snd (undo (h, w))))"
  using undo_index [of h w] by (auto simp add: hist_inv_def undo_fields)

lemma hist_inv_redo: "hist_inv h \<Longrightarrow> hist_inv (fst (snd (redo (h, w))))"
  using redo_index [of h w] by (auto simp add: hist_inv_def redo_fields)

lemma fst_step_Push: "fst (step (Push a) s) = fst (push a s)"
  by (cases "push a s") simp

lemma hist_inv_step: "hist_inv (fst s) \<Longrightarrow> hist_inv (fst (step x s))"
proof (cases s)
  case (Pair h w)
  assume "hist_inv (fst s)"
  with Pair have inv: "hist_inv h" by simp
  show ?thesis
  proof (cases x)
    case (Push a)
    with Pair hist_inv_push [OF inv, of a w] show ?thesis
      by (simp only: fst_step_Push)
  next
    case Undo
    with Pair hist_inv_undo [OF inv, of w] show ?thesis by simp
  next
    case Redo
    with Pair hist_inv_redo [OF inv, of w] show ?thesis by simp
  qed
qed

lemma maxSteps_step: "maxSteps (fst (step x s)) = maxSteps (fst s)"
proof (cases s)
  case (Pair h w)
  show ?thesis
  proof (cases x)
    case (Push a)
    have "maxSteps (fst (push a (h, w))) = maxSteps h"
      by (simp add: push_def Let_def notifyChange_fields)
    with Pair Push show ?thesis by (simp only: fst_step_Push fst_conv)
  next
    case Undo
    with Pair show ?thesis by (simp add: undo_fields)
  next
    case Redo
    with Pair show ?thesis by (simp add: redo_fields)
  qed
qed

lemma hist_inv_run: "hist_inv (fst s) \<Longrightarrow> hist_inv (fst (run ops s))"
  by (induction ops arbitrary: s) (simp_all add: hist_inv_step)

lemma maxSteps_run: "maxSteps (fst (run ops s)) = maxSteps (fst s)"
  by (induction ops arbitrary: s) (simp_all add: maxSteps_step)

lemma hist_inv_new: "hist_inv (HistoryManager_new opts)"
  by (simp add: hist_inv_def HistoryManager_new_def)

lemma hist_inv_reachable:
  "hist_inv (fst (run ops (HistoryManager_new opts, w)))"
  by (rule hist_inv_run) (simp add: hist_inv_new)

lemma maxSteps_new_nonzero: "maxSteps (HistoryManager_new opts) \<noteq> 0"
  by (simp add: HistoryManager_new_def split: option.splits)

lemma history_at_last:
  "xs = history h \<Longrightarrow> xs \<noteq> [] \<Longrightarrow> currentIndex h = int (length xs) - 1 \<Longrightarrow>
   history_at h (currentIndex h) = Some (last xs)"
  by (cases "history h" rule: rev_cases) (auto simp add: history_at_def)

text \<open>
  Claim C5. Take a manager built by the constructor with a bound that is not negative,
  and run any sequence of \<open>push\<close>, \<open>undo()\<close> and \<open>redo()\<close> on it. The history is never
  longer than \<open>maxSteps\<close>. A further \<open>push\<close> keeps the bound, leaves \<open>currentIndex\<close> at
  the last position, where the pushed action is, and when the new length would exceed
  the bound it drops the oldest entry and takes the increment of the index back.
\<close>

theorem history_bounded_by_maxSteps:
  assumes bound: "0 \<le> maxSteps (HistoryManager_new opts)"
      and s: "s = run ops (HistoryManager_new opts, w)"
      and h': "h' = fst (push a s)"
  shows "int (length (history (fst s))) \<le> maxSteps (fst s) \<and>
         int (length (history h')) \<le> maxSteps h' \<and>
         maxSteps h' = maxSteps (HistoryManager_new opts) \<and>
         currentIndex h' = int (length (history h')) - 1 \<and>
         history_at h' (currentIndex h') = Some a \<and>
         (maxSteps (fst s) < int (length (take (nat (currentIndex (fst s) + 1)) (history (fst s)) @ [a])) \<longrightarrow>
            history h' = tl (take (nat (currentIndex (fst s) + 1)) (history (fst s)) @ [a]) \<and>
            currentIndex h' = currentIndex (fst s) + 1 - 1)"
proof -
  obtain h w1 where hw: "s = (h, w1)" by (cases s)
  have inv: "hist_inv h"
    using hist_inv_reachable [of ops opts w] s [symmetric] hw by simp
  have ms: "maxSteps h = maxSteps (HistoryManager_new opts)"
    using maxSteps_run [of ops "(HistoryManager_new opts, w)"] s [symmetric] hw by simp
  have pos: "1 \<le> maxSteps h"
    using bound maxSteps_new_nonzero [of opts] ms by simp
  have lo: "- 1 \<le> currentIndex h" and hi: "currentIndex h \<le> int (length (history h)) - 1"
    using inv by (simp_all add: hist_inv_def)
  have inv': "hist_inv h'"
    using hist_inv_push [OF inv, of a w1] h' hw by simp
  have ms': "maxSteps h' = maxSteps h"
    using push_history(3) [OF lo hi, of a w1] h' hw by simp
  have c1: "int (length (history h)) \<le> maxSteps h"
    using inv pos by (simp add: hist_inv_def)
  have c2: "int (length (history h')) \<le> maxSteps h'"
    using inv' pos ms' by (simp add: hist_inv_def)
  have c3: "currentIndex h' = int (length (history h')) - 1"
    using push_index_tail [OF lo hi, of a w1] h' hw by simp
  have hist': "history h' =
      (let xs = take (nat (currentIndex h + 1)) (history h) @ [a]
       in if int (length xs) > maxSteps h then tl xs else xs)"
    using push_history(1) [OF lo hi, of a w1] h' hw by simp
  have idx': "currentIndex h' =
      (if int (length (take (nat (currentIndex h + 1)) (history h) @ [a])) > maxSteps h
       then currentIndex h + 1 - 1 else currentIndex h + 1)"
    using push_history(2) [OF lo hi, of a w1] h' hw by simp
  have ne: "history h' \<noteq> []"
  proof (cases "take (nat (currentIndex h + 1)) (history h)")
    case Nil
    with hist' pos show ?thesis by (simp add: Let_def)
  next
    case (Cons y ys)
    with hist' show ?thesis by (simp add: Let_def)
  qed
  have lst: "last (history h') = a"
  proof (cases "take (nat (currentIndex h + 1)) (history h)")
    case Nil
    with hist' pos show ?thesis by (simp add: Let_def)
  next
    case (Cons y ys)
    with hist' show ?thesis by (simp add: Let_def)
  qed
  have c4: "history_at h' (currentIndex h') = Some a"
    using history_at_last [OF refl ne c3] lst by simp
  have c5: "maxSteps h < int (length (take (nat (currentIndex h + 1)) (history h) @ [a])) \<longrightarrow>
            history h' = tl (take (nat (currentIndex h + 1)) (history h) @ [a]) \<and>
            currentIndex h' = currentIndex h + 1 - 1"
    using hist' idx' by (simp add: Let_def)
  have c6: "maxSteps h' = maxSteps (HistoryManager_new opts)"
    using ms ms' by simp
  show ?thesis
    unfolding hw fst_conv using c1 c2 c3 c4 c5 c6 by blast
qed

lemma undo_success:
  assumes "undo (h, w) = (True, h1, w1)"
  shows "currentIndex h1 = currentIndex h - 1 \<and> 0 \<le> currentIndex h \<and>
         history h1 = history h \<and> maxSteps h1 = maxSteps h"
  using assms
  by (auto simp add: undo_def Let_def notifyChange_def canUndo_def
      split: if_splits option.splits outcome.splits prod.splits)

lemma undo_times_success:
  "undo_times k s = (True, s1) \<Longrightarrow>
   currentIndex (fst s1) = currentIndex (fst s) - int k \<and>
   (0 < k \<longrightarrow> 0 \<le> currentIndex (fst s1) + 1) \<and>
   history (fst s1) = history (fst s) \<and> maxSteps (fst s1) = maxSteps (fst s)"
proof (induction k arbitrary: s)
  case 0
  then show ?case by simp
next
  case (Suc k)
  obtain ok h2 w2 where u: "undo s = (ok, h2, w2)" by (cases "undo s") auto
  with Suc.prems have ok: "ok" and rest: "undo_times k (h2, w2) = (True, s1)"
    by (auto split: if_splits)
  obtain h w where s: "s = (h, w)" by (cases s)
  from u ok s have st: "currentIndex h2 = currentIndex h - 1 \<and> 0 \<le> currentIndex h \<and>
         history h2 = history h \<and> maxSteps h2 = maxSteps h"
    using undo_success [of h w h2 w2] by simp
  from Suc.IH [OF rest] st s show ?case by auto
qed

text \<open>
  Claim C6. Push the \<open>N \<ge> 1\<close> entries \<open>as\<close> on a new manager, call \<open>undo()\<close> \<open>k\<close> times,
  \<open>1 \<le> k \<le> N\<close>, each call reporting success, and push one entry \<open>e\<close>. There were entries
  after the index, and the push keeps those up to the index, followed by \<open>e\<close>: the undone
  entries are gone. \<open>canRedo\<close> is false and \<open>redo()\<close> reports failure and changes nothing.
\<close>

theorem push_after_undo_discards_redo:
  assumes n: "as \<noteq> []" and k1: "1 \<le> k" and kn: "k \<le> length as"
      and undone: "undo_times k (run (map Push as) (HistoryManager_new opts, w)) = (True, h1, w1)"
      and pushed: "push e (h1, w1) = (h2, r)"
  shows "currentIndex h1 + 1 < int (length (history h1)) \<and>
         history h2 = take (nat (currentIndex h1 + 1)) (history h1) @ [e] \<and>
         currentIndex h2 = int (length (history h2)) - 1 \<and>
         \<not> canRedo h2 \<and>
         redo (h2, world_of r) = (False, h2, world_of r)"
proof -
  let ?s = "run (map Push as) (HistoryManager_new opts, w)"
  have inv: "hist_inv (fst ?s)" by (rule hist_inv_reachable)
  from undo_times_success [OF undone] k1
  have ci: "currentIndex h1 = currentIndex (fst ?s) - int k"
    and lo: "- 1 \<le> currentIndex h1"
    and hs: "history h1 = history (fst ?s)"
    and ms: "maxSteps h1 = maxSteps (fst ?s)"
    by auto
  from inv ci hs k1 have gap: "currentIndex h1 + 1 < int (length (history h1))"
    by (simp add: hist_inv_def)
  from inv hs ms have len: "int (length (history h1)) \<le> max 0 (maxSteps h1)"
    by (simp add: hist_inv_def)
  from gap have hi: "currentIndex h1 \<le> int (length (history h1)) - 1" by simp
  from gap lo len have room:
    "\<not> maxSteps h1 < int (length (take (nat (currentIndex h1 + 1)) (history h1) @ [e]))"
    by (auto simp add: min_def max_def split: if_splits)
  have h2: "h2 = fst (push e (h1, w1))" using pushed by simp
  have c2: "history h2 = take (nat (currentIndex h1 + 1)) (history h1) @ [e]"
    using push_history(1) [OF lo hi, of e w1] room h2 by (simp add: Let_def)
  have c3: "currentIndex h2 = int (length (history h2)) - 1"
    using push_index_tail [OF lo hi, of e w1] h2 by simp
  have c4: "\<not> canRedo h2" using c3 by (simp add: canRedo_def)
  have c5: "redo (h2, world_of r) = (False, h2, world_of r)"
    using c4 by (simp add: redo_def)
  show ?thesis using gap c2 c3 c4 c5 by simp
qed


lemmas history_defs =
  HistoryManager_new_def push_def undo_def redo_def notifyChange_def getState_def
  canUndo_def canRedo_def history_at_def slice0_def Let_def

text \<open>
  A bound of 2: two pushes, an undo and a redo leave two entries; the third push drops
  the oldest one and the index stays 1.
\<close>

theorem history_bounded_by_maxSteps_witness:
  "0 \<le> maxSteps (HistoryManager_new \<lparr>opt_maxSteps = Some 2, opt_onChange = None\<rparr> :: nat HistoryManager) \<and>
   length (history (fst (run [Push \<lparr>atype = ''create'', undo_cb = Returned, redo_cb = Returned\<rparr>,
                              Push \<lparr>atype = ''delete'', undo_cb = Returned, redo_cb = Returned\<rparr>, Undo, Redo]
      (HistoryManager_new \<lparr>opt_maxSteps = Some 2, opt_onChange = None\<rparr>, 0::nat)))) = 2 \<and>
   map atype (history (fst (push \<lparr>atype = ''clear'', undo_cb = Returned, redo_cb = Returned\<rparr>
      (run [Push \<lparr>atype = ''create'', undo_cb = Returned, redo_cb = Returned\<rparr>,
            Push \<lparr>atype = ''delete'', undo_cb = Returned, redo_cb = Returned\<rparr>, Undo, Redo]
      (HistoryManager_new \<lparr>opt_maxSteps = Some 2, opt_onChange = None\<rparr>, 0::nat))))) = [''delete'', ''clear''] \<and>
   currentIndex (fst (push \<lparr>atype = ''clear'', undo_cb = Returned, redo_cb = Returned\<rparr>
      (run [Push \<lparr>atype = ''create'', undo_cb = Returned, redo_cb = Returned\<rparr>,
            Push \<lparr>atype = ''delete'', undo_cb = Returned, redo_cb = Returned\<rparr>, Undo, Redo]
      (HistoryManager_new \<lparr>opt_maxSteps = Some 2, opt_onChange = None\<rparr>, 0::nat)))) = 1"
  using history_bounded_by_maxSteps
    [of "\<lparr>opt_maxSteps = Some 2, opt_onChange = None\<rparr>"
        "run [Push \<lparr>atype = ''create'', undo_cb = Returned, redo_cb = Returned\<rparr>,
              Push \<lparr>atype = ''delete'', undo_cb = Returned, redo_cb = Returned\<rparr>, Undo, Redo]
           (HistoryManager_new \<lparr>opt_maxSteps = Some 2, opt_onChange = None\<rparr>, 0::nat)"
        "[Push \<lparr>atype = ''create'', undo_cb = Returned, redo_cb = Returned\<rparr>,
          Push \<lparr>atype = ''delete'', undo_cb = Returned, redo_cb = Returned\<rparr>, Undo, Redo]"
        "0::nat" _
        "\<lparr>atype = ''clear'', undo_cb = Returned, redo_cb = Returned\<rparr>"]
  by (simp add: history_defs)

text \<open>Three pushes, two undos, one push: the redo afterwards fails.\<close>

theorem push_after_undo_discards_redo_witness:
  "undo_times 2 (run (map Push [\<lparr>atype = ''create'', undo_cb = Returned, redo_cb = Returned\<rparr>,
                                 \<lparr>atype = ''delete'', undo_cb = Returned, redo_cb = Returned\<rparr>,
                                 \<lparr>atype = ''clear'', undo_cb = Returned, redo_cb = Returned\<rparr>])
      (HistoryManager_new \<lparr>opt_maxSteps = None, opt_onChange = None\<rparr>, 0::nat)) =
     (True,
      \<lparr>maxSteps = 50,
       history = [\<lparr>atype = ''create'', undo_cb = Returned, redo_cb = Returned\<rparr>,
                  \<lparr>atype = ''delete'', undo_cb = Returned, redo_cb = Returned\<rparr>,
                  \<lparr>atype = ''clear'', undo_cb = Returned, redo_cb = Returned\<rparr>],
       currentIndex = 0, onChange = None,
       calls = [UndoCall 2, UndoCall 1]\<rparr>, 0) \<and>
   fst (redo (fst (push \<lparr>atype = ''create'', undo_cb = Returned, redo_cb = Returned\<rparr>
      (\<lparr>maxSteps = 50,
       history = [\<lparr>atype = ''create'', undo_cb = Returned, redo_cb = Returned\<rparr>,
                  \<lparr>atype = ''delete'', undo_cb = Returned, redo_cb = Returned\<rparr>,
                  \<lparr>atype = ''clear'', undo_cb = Returned, redo_cb = Returned\<rparr>],
       currentIndex = 0, onChange = None,
       calls = [UndoCall 2, UndoCall 1]\<rparr>, 0::nat)), 0)) = False"
proof -
  let ?a = "\<lparr>atype = ''create'', undo_cb = Returned, redo_cb = Returned\<rparr> :: nat action"
  let ?b = "\<lparr>atype = ''delete'', undo_cb = Returned, redo_cb = Returned\<rparr> :: nat action"
  let ?c = "\<lparr>atype = ''clear'', undo_cb = Returned, redo_cb = Returned\<rparr> :: nat action"
  let ?h1 = "\<lparr>maxSteps = 50, history = [?a, ?b, ?c], currentIndex = 0, onChange = None,
             calls = [UndoCall 2, UndoCall 1]\<rparr> :: nat HistoryManager"
  have ne: "[?a, ?b, ?c] \<noteq> []" by simp
  have k1: "(1::nat) \<le> 2" by simp
  have kn: "(2::nat) \<le> length [?a, ?b, ?c]" by simp
  have undone: "undo_times 2 (run (map Push [?a, ?b, ?c])
      (HistoryManager_new \<lparr>opt_maxSteps = None, opt_onChange = None\<rparr>, 0::nat)) = (True, ?h1, 0)"
    by (simp add: history_defs numeral_2_eq_2)
  have pushed: "push ?a (?h1, 0) = (fst (push ?a (?h1, 0)), snd (push ?a (?h1, 0)))"
    by simp
  have w: "world_of (snd (push ?a (?h1, 0::nat))) = 0"
    by (simp add: history_defs)
  from push_after_undo_discards_redo [OF ne k1 kn undone pushed] undone w
  show ?thesis by simp
qed



section \<open>Rounding to binary64\<close>

lemma round_even_eqI: "\<bar>y - of_int m\<bar> < 1 / 2 \<Longrightarrow> round_even y = m"
proof -
  assume a: "\<bar>y - of_int m\<bar> < 1 / 2"
  show ?thesis
  proof (cases "of_int m \<le> y")
    case True
    with a have "\<lfloor>y\<rfloor> = m" by (intro floor_unique) auto
    with a True show ?thesis by (simp add: round_even_def Let_def)
  next
    case False
    with a have f: "\<lfloor>y\<rfloor> = m - 1" by (intro floor_unique) auto
    from a False have "1 / 2 < y - of_int (m - 1)" by simp
    with f show ?thesis by (simp add: round_even_def Let_def)
  qed
qed

lemma exponent_bounds:
  assumes "0 < a"
  shows "2 powi exponent a \<le> a \<and> a < 2 powi (exponent a + 1)"
proof (cases "1 \<le> a")
  case True
  define n where "n = \<lfloor>a\<rfloor>"
  have n: "0 < n" using True by (simp add: n_def)
  from bitlen_bounds [OF n] have b1: "2 ^ nat (bitlen n - 1) \<le> n" and b2: "n < 2 ^ nat (bitlen n)"
    by simp_all
  have bl: "1 \<le> bitlen n" using n by (auto simp: bitlen_alt_def)
  have e: "exponent a = bitlen n - 1" using True by (simp add: exponent_def n_def)
  have "(2::real) powi (bitlen n - 1) = 2 ^ nat (bitlen n - 1)"
    using bl by (simp add: power_int_def)
  also have "\<dots> = of_int (2 ^ nat (bitlen n - 1))" by simp
  also have "\<dots> \<le> of_int n" using b1 by (simp only: of_int_le_iff)
  also have "\<dots> \<le> a" by (simp add: n_def)
  finally have l: "2 powi (bitlen n - 1) \<le> a" .
  have "n + 1 \<le> 2 ^ nat (bitlen n)" using b2 by simp
  then have "(of_int (n + 1) :: real) \<le> of_int (2 ^ nat (bitlen n))" by (simp only: of_int_le_iff)
  moreover have "a < of_int (n + 1)" by (simp add: n_def)
  ultimately have "a < 2 ^ nat (bitlen n)" by simp
  also have "(2::real) ^ nat (bitlen n) = 2 powi (bitlen n)"
    using bl by (simp add: power_int_def)
  finally have u: "a < 2 powi (bitlen n - 1 + 1)" by simp
  from l u show ?thesis unfolding e by blast
next
  case False
  define r where "r = 1 / a"
  have r: "1 < r" using False assms by (simp add: r_def)
  define n where "n = \<lceil>r\<rceil> - 1"
  have n: "0 < n" using r by (simp add: n_def)
  from bitlen_bounds [OF n] have b1: "2 ^ nat (bitlen n - 1) \<le> n" and b2: "n < 2 ^ nat (bitlen n)"
    by simp_all
  have bl: "1 \<le> bitlen n" using n by (auto simp: bitlen_alt_def)
  have e: "exponent a = - bitlen n" using False by (simp add: exponent_def n_def r_def)
  have "\<lceil>r\<rceil> \<le> 2 ^ nat (bitlen n)" using b2 by (simp add: n_def)
  then have "r \<le> 2 ^ nat (bitlen n)" by (simp add: ceiling_le_iff)
  also have "(2::real) ^ nat (bitlen n) = 2 powi (bitlen n)"
    using bl by (simp add: power_int_def)
  finally have "r \<le> 2 powi bitlen n" .
  then have l: "2 powi (- bitlen n) \<le> a"
    using assms by (simp add: r_def power_int_minus field_simps)
  have "2 ^ nat (bitlen n - 1) < \<lceil>r\<rceil>" using b1 by (simp add: n_def)
  then have "(2::real) ^ nat (bitlen n - 1) < r" by (simp add: less_ceiling_iff)
  moreover have "(2::real) ^ nat (bitlen n - 1) = 2 powi (bitlen n - 1)"
    using bl by (simp add: power_int_def)
  ultimately have pr: "2 powi (bitlen n - 1) < r" by simp
  define P :: real where "P = 2 powi (bitlen n - 1)"
  have P: "0 < P" by (simp add: P_def)
  have "P < 1 / a" using pr by (simp add: P_def r_def)
  then have "a < 1 / P" using assms P by (simp add: field_simps)
  also have "1 / P = 2 powi (- (bitlen n - 1))"
    unfolding P_def by (rule power_int_minus_divide [symmetric])
  finally have u: "a < 2 powi (- bitlen n + 1)" by simp
  from l u show ?thesis unfolding e by blast
qed

lemma exponent_eqI:
  assumes "2 powi e \<le> a" "a < 2 powi (e + 1)"
  shows "exponent a = e"
proof -
  have pos: "0 < a" using assms(1) by (smt (verit) zero_less_power_int)
  from exponent_bounds [OF pos] have b1: "2 powi exponent a \<le> a" and b2: "a < 2 powi (exponent a + 1)"
    by simp_all
  have "e < exponent a + 1"
  proof (rule ccontr)
    assume "\<not> e < exponent a + 1"
    then have "(2::real) powi (exponent a + 1) \<le> 2 powi e"
      by (intro power_int_increasing) simp_all
    with assms(1) b2 show False by simp
  qed
  moreover have "exponent a < e + 1"
  proof (rule ccontr)
    assume "\<not> exponent a < e + 1"
    then have "(2::real) powi (e + 1) \<le> 2 powi exponent a"
      by (intro power_int_increasing) simp_all
    with assms(2) b1 show False by simp
  qed
  ultimately show ?thesis by simp
qed

lemma fl_eqI:
  assumes "2 powi e \<le> \<bar>x\<bar>" "\<bar>x\<bar> < 2 powi (e + 1)" "- 1022 \<le> e"
    and "\<bar>x / 2 powi (e - 52) - of_int m\<bar> < 1 / 2"
  shows "fl x = of_int m * 2 powi (e - 52)"
proof -
  have "0 < \<bar>x\<bar>" using assms(1) by (smt (verit) zero_less_power_int)
  then have nz: "x \<noteq> 0" by simp
  have e: "exponent \<bar>x\<bar> = e" using assms(1,2) by (rule exponent_eqI)
  have q: "max (exponent \<bar>x\<bar>) (- 1022) - 52 = e - 52" using e assms(3) by simp
  have "round_even (x / 2 powi (e - 52)) = m" using assms(4) by (rule round_even_eqI)
  then show ?thesis using nz q by (simp add: fl_def Let_def)
qed

lemma fl_eq_div:
  assumes "2 ^ 52 \<le> \<bar>x\<bar> * 2 ^ k" "\<bar>x\<bar> * 2 ^ k < 2 ^ 53" "k \<le> 1074"
    and "\<bar>x * 2 ^ k - of_int m\<bar> < 1 / 2"
  shows "fl x = of_int m / 2 ^ k"
proof -
  define e where "e = 52 - int k"
  have p: "(2::real) powi (e - 52) = 1 / 2 ^ k"
    by (simp add: e_def power_int_minus divide_inverse)
  have "(2::real) powi (52 + (e - 52)) = 2 powi 52 * 2 powi (e - 52)"
    by (rule power_int_add) simp
  then have pe: "(2::real) powi e = 2 ^ 52 / 2 ^ k" using p by simp
  have "(2::real) powi (53 + (e - 52)) = 2 powi 53 * 2 powi (e - 52)"
    by (rule power_int_add) simp
  moreover have "53 + (e - 52) = e + 1" by simp
  ultimately have pe1: "(2::real) powi (e + 1) = 2 ^ 53 / 2 ^ k" using p by simp
  have a1: "2 powi e \<le> \<bar>x\<bar>" unfolding pe using assms(1) by (simp add: field_simps)
  have a2: "\<bar>x\<bar> < 2 powi (e + 1)" unfolding pe1 using assms(2) by (simp add: field_simps)
  have a3: "- 1022 \<le> e" using assms(3) by (simp add: e_def)
  have a4: "\<bar>x / 2 powi (e - 52) - of_int m\<bar> < 1 / 2" unfolding p using assms(4) by simp
  from fl_eqI [OF a1 a2 a3 a4] show ?thesis unfolding p by simp
qed

lemma round_even_tie: "y = of_int f + 1 / 2 \<Longrightarrow> round_even y = (if even f then f else f + 1)"
proof -
  assume y: "y = of_int f + 1 / 2"
  then have "\<lfloor>y\<rfloor> = f" by (intro floor_unique) auto
  with y show ?thesis by (simp add: round_even_def Let_def)
qed

lemma round_even_error: "\<bar>of_int (round_even y) - y\<bar> \<le> 1 / 2"
proof -
  have "of_int \<lfloor>y\<rfloor> \<le> y" "y < of_int \<lfloor>y\<rfloor> + 1" by linarith+
  then show ?thesis by (auto simp add: round_even_def Let_def)
qed

text \<open>The rounded value is within half the spacing of the exact one.\<close>

lemma fl_error:
  "\<bar>fl x - x\<bar> \<le> 2 powi (max (exponent \<bar>x\<bar>) (- 1022) - 52) / 2"
proof (cases "x = 0")
  case True
  then show ?thesis by (simp add: fl_def)
next
  case False
  define q where "q = max (exponent \<bar>x\<bar>) (- 1022) - 52"
  define P :: real where "P = 2 powi q"
  have P: "0 < P" by (simp add: P_def)
  have "fl x - x = (of_int (round_even (x / P)) - x / P) * P"
    using False P by (simp add: fl_def Let_def q_def P_def field_simps)
  then have "\<bar>fl x - x\<bar> = \<bar>of_int (round_even (x / P)) - x / P\<bar> * P"
    using P by (simp add: abs_mult)
  also have "\<dots> \<le> 1 / 2 * P"
    using round_even_error [of "x / P"] P by (intro mult_right_mono) simp_all
  finally show ?thesis by (simp add: P_def q_def)
qed

lemma fl_tie_div:
  assumes "2 ^ 52 \<le> \<bar>x\<bar> * 2 ^ k" "\<bar>x\<bar> * 2 ^ k < 2 ^ 53" "k \<le> 1074"
    and "x * 2 ^ k = of_int f + 1 / 2"
  shows "fl x = of_int (if even f then f else f + 1) / 2 ^ k"
proof -
  define e where "e = 52 - int k"
  have p: "(2::real) powi (e - 52) = 1 / 2 ^ k"
    by (simp add: e_def power_int_minus divide_inverse)
  have "(2::real) powi (52 + (e - 52)) = 2 powi 52 * 2 powi (e - 52)"
    by (rule power_int_add) simp
  then have pe: "(2::real) powi e = 2 ^ 52 / 2 ^ k" using p by simp
  have "(2::real) powi (53 + (e - 52)) = 2 powi 53 * 2 powi (e - 52)"
    by (rule power_int_add) simp
  moreover have "53 + (e - 52) = e + 1" by simp
  ultimately have pe1: "(2::real) powi (e + 1) = 2 ^ 53 / 2 ^ k" using p by simp
  have a1: "2 powi e \<le> \<bar>x\<bar>" unfolding pe using assms(1) by (simp add: field_simps)
  have a2: "\<bar>x\<bar> < 2 powi (e + 1)" unfolding pe1 using assms(2) by (simp add: field_simps)
  have "0 < \<bar>x\<bar>" using a1 by (smt (verit) zero_less_power_int)
  then have nz: "x \<noteq> 0" by simp
  have ex: "exponent \<bar>x\<bar> = e" using a1 a2 by (rule exponent_eqI)
  have q: "max (exponent \<bar>x\<bar>) (- 1022) - 52 = e - 52" using ex assms(3) by (simp add: e_def)
  have "x / 2 powi (e - 52) = of_int f + 1 / 2" unfolding p using assms(4) by simp
  then have "round_even (x / 2 powi (e - 52)) = (if even f then f else f + 1)"
    by (rule round_even_tie)
  then show ?thesis using nz q p by (simp add: fl_def Let_def)
qed

text \<open>A binary64 value is not changed by the rounding.\<close>

lemma fl_exact:
  assumes x: "x = of_int m / 2 ^ k" and m: "\<bar>m\<bar> < 2 ^ 53" and k: "k \<le> 1074"
  shows "fl x = x"
proof (cases "x = 0")
  case True
  then show ?thesis by (simp add: fl_def)
next
  case False
  define e where "e = exponent \<bar>x\<bar>"
  define q where "q = max e (- 1022) - 52"
  have pos: "0 < \<bar>x\<bar>" using False by simp
  from exponent_bounds [OF pos] have lo: "2 powi e \<le> \<bar>x\<bar>" by (simp add: e_def)
  have pk: "(2::real) powi (- int k) = 1 / 2 ^ k"
    by (simp add: power_int_minus divide_inverse)
  have "\<bar>x\<bar> = \<bar>of_int m\<bar> / 2 ^ k" unfolding x by simp
  also have "\<dots> < 2 ^ 53 / 2 ^ k"
  proof -
    have "\<bar>of_int m :: real\<bar> = of_int \<bar>m\<bar>" by simp
    also have "\<dots> < of_int (2 ^ 53)" using m by (simp only: of_int_less_iff)
    finally show ?thesis by (simp add: divide_strict_right_mono)
  qed
  also have "\<dots> = 2 powi 53 * 2 powi (- int k)" using pk by simp
  also have "\<dots> = 2 powi (53 - int k)"
    using power_int_add [of "2::real" 53 "- int k"] by simp
  finally have hi: "\<bar>x\<bar> < 2 powi (53 - int k)" .
  have "e < 53 - int k"
  proof (rule ccontr)
    assume "\<not> e < 53 - int k"
    then have "(2::real) powi (53 - int k) \<le> 2 powi e"
      by (intro power_int_increasing) simp_all
    with lo hi show False by simp
  qed
  then have qk: "q \<le> - int k" using k by (simp add: q_def)
  define j where "j = nat (- int k - q)"
  have j: "int j = - int k - q" using qk by (simp add: j_def)
  have "(2::real) powi (- int k) = 2 powi (int j + q)" using j by simp
  also have "\<dots> = 2 powi (int j) * 2 powi q" by (rule power_int_add) simp
  finally have split: "(2::real) powi (- int k) = 2 ^ j * 2 powi q" by simp
  have "x = of_int m * (1 / 2 ^ k)" unfolding x by simp
  also have "(1::real) / 2 ^ k = 2 ^ j * 2 powi q" using pk split by simp
  finally have xq: "x = of_int (m * 2 ^ j) * 2 powi q" by (simp add: mult.assoc)
  have "x / 2 powi q = of_int (m * 2 ^ j)"
    using xq by simp
  then have "round_even (x / 2 powi q) = m * 2 ^ j"
    by (intro round_even_eqI) simp
  then have "fl x = of_int (m * 2 ^ j) * 2 powi q"
    using False by (simp add: fl_def Let_def q_def e_def)
  with xq show ?thesis by simp
qed

lemma fl_0: "fl 0 = 0"
  by (simp add: fl_def)

lemma round_even_minus: "round_even (- y) = - round_even y"
proof -
  define f where "f = \<lfloor>y\<rfloor>"
  define d where "d = y - of_int f"
  have d: "0 \<le> d" "d < 1" unfolding d_def f_def by linarith+
  consider "d < 1 / 2" | "1 / 2 < d" | "d = 1 / 2" by linarith
  then show ?thesis
  proof cases
    case 1
    then have r: "round_even y = f" by (simp add: round_even_def Let_def f_def d_def)
    have "\<bar>- y - of_int (- f)\<bar> < 1 / 2" using 1 d by (simp add: d_def)
    then have "round_even (- y) = - f" by (rule round_even_eqI)
    with r show ?thesis by simp
  next
    case 2
    then have r: "round_even y = f + 1" by (simp add: round_even_def Let_def f_def d_def)
    have "\<bar>- y - of_int (- (f + 1))\<bar> < 1 / 2" using 2 d by (simp add: d_def)
    then have "round_even (- y) = - (f + 1)" by (rule round_even_eqI)
    with r show ?thesis by simp
  next
    case 3
    then have y: "y = of_int f + 1 / 2" by (simp add: d_def)
    then have y': "- y = of_int (- f - 1) + 1 / 2" by simp
    from round_even_tie [OF y] round_even_tie [OF y'] show ?thesis by simp
  qed
qed

lemma fl_minus: "fl (- x) = - fl x"
  by (simp add: fl_def Let_def round_even_minus)

section \<open>Polygon area: rotation and reversal\<close>

subsection \<open>In exact arithmetic\<close>

lemma fold_add_sum_list: "fold (\<lambda>i total. total + f i) xs a = a + sum_list (map f xs)"
  for a :: real
  by (induction xs arbitrary: a) simp_all

lemma calculatePolygonArea_ring_sum:
  "calculatePolygonArea_in exact cs =
     (if length cs < 3 then 0 else \<bar>ring_sum cs * 6371000 * 6371000 / 2\<bar>)"
proof -
  have "fold (\<lambda>i total. total + excess_in exact (cs ! i) (cs ! ((i + 1) mod length cs))) [0..<length cs] 0
        = ring_sum cs"
    unfolding ring_sum_def fold_add_sum_list
    by (simp add: interv_sum_list_conv_sum_set_nat atLeast0LessThan)
  then show ?thesis by (simp add: calculatePolygonArea_in_def Let_def abs_mult exact_def)
qed

lemma excess_swap: "excess_in exact q p = - excess_in exact p q"
proof -
  have "toRadians_in exact (lng p - lng q) = - toRadians_in exact (lng q - lng p)"
    unfolding toRadians_in_def exact_def by (metis minus_diff_eq mult_minus_left)
  then show ?thesis
    unfolding excess_in_def by (simp add: add_ac exact_def)
qed

lemma ring_sum_rotate: "ring_sum (rotate k cs) = ring_sum cs"
proof (cases "cs = []")
  case True
  then show ?thesis by (simp add: ring_sum_def)
next
  case False
  define n where "n = length cs"
  have n: "0 < n" using False by (simp add: n_def)
  define F where "F m = excess_in exact (cs ! m) (cs ! ((m + 1) mod n))" for m
  have summand: "excess_in exact (rotate k cs ! i) (rotate k cs ! ((i + 1) mod n)) = F ((k + i) mod n)"
    if "i < n" for i
  proof -
    have "rotate k cs ! i = cs ! ((k + i) mod n)"
      using that by (simp add: nth_rotate n_def)
    moreover have "rotate k cs ! ((i + 1) mod n) = cs ! ((k + (i + 1) mod n) mod n)"
      using n by (simp add: nth_rotate n_def)
    moreover have "(k + (i + 1) mod n) mod n = ((k + i) mod n + 1) mod n"
      by (simp add: mod_simps add.assoc)
    ultimately show ?thesis by (simp add: F_def)
  qed
  have kn: "k mod n < n" using n by simp
  have shift: "k + (n - k mod n) = n * (k div n + 1)"
  proof -
    have "k = n * (k div n) + k mod n" by simp
    then have "k + (n - k mod n) = n * (k div n) + (k mod n + (n - k mod n))"
      by linarith
    also have "k mod n + (n - k mod n) = n" using kn by simp
    finally show ?thesis by simp
  qed
  have "ring_sum (rotate k cs) = (\<Sum>i<n. F ((k + i) mod n))"
    unfolding ring_sum_def using summand by (simp add: n_def)
  also have "\<dots> = (\<Sum>m<n. F m)"
  proof (rule sum.reindex_bij_witness [where i = "\<lambda>m. (m + (n - k mod n)) mod n" and j = "\<lambda>i. (k + i) mod n"])
    fix a assume "a \<in> {..<n}"
    then have a: "a < n" by simp
    have "((k + a) mod n + (n - k mod n)) mod n = (k + a + (n - k mod n)) mod n"
      by (rule mod_add_left_eq)
    also have "k + a + (n - k mod n) = a + n * (k div n + 1)"
      using kn shift by simp
    also have "(a + n * (k div n + 1)) mod n = a"
      using a by (simp only: mod_mult_self2 mod_less)
    finally show "((k + a) mod n + (n - k mod n)) mod n = a" .
    show "(k + a) mod n \<in> {..<n}" using n by simp
  next
    fix b assume "b \<in> {..<n}"
    then have b: "b < n" by simp
    show "(b + (n - k mod n)) mod n \<in> {..<n}" using n by simp
    have "(k + (b + (n - k mod n)) mod n) mod n = (k + (b + (n - k mod n))) mod n"
      by (rule mod_add_right_eq)
    also have "k + (b + (n - k mod n)) = b + n * (k div n + 1)"
      using kn shift by simp
    also have "(b + n * (k div n + 1)) mod n = b"
      using b by (simp only: mod_mult_self2 mod_less)
    finally show "(k + (b + (n - k mod n)) mod n) mod n = b" .
  qed simp
  also have "\<dots> = ring_sum cs" by (simp add: ring_sum_def F_def n_def)
  finally show ?thesis .
qed

lemma ring_sum_rev: "ring_sum (rev cs) = - ring_sum cs"
proof (cases "cs = []")
  case True
  then show ?thesis by (simp add: ring_sum_def)
next
  case False
  define n where "n = length cs"
  have n: "0 < n" using False by (simp add: n_def)
  define F where "F m = excess_in exact (cs ! m) (cs ! ((m + 1) mod n))" for m
  define g where "g i = n - 1 - (i + 1) mod n" for i
  have g_lt: "g i < n" for i using n by (simp add: g_def)
  have g_succ: "(g i + 1) mod n = n - 1 - i" if "i < n" for i
  proof (cases "i = n - 1")
    case True
    then show ?thesis using n by (simp add: g_def)
  next
    case False
    with that have "i + 1 < n" by simp
    then show ?thesis by (simp add: g_def)
  qed
  have summand: "excess_in exact (rev cs ! i) (rev cs ! ((i + 1) mod n)) = - F (g i)" if "i < n" for i
  proof -
    have a: "rev cs ! i = cs ! (n - 1 - i)"
      using that by (simp add: rev_nth n_def)
    have "(i + 1) mod n < n" using n by simp
    then have b: "rev cs ! ((i + 1) mod n) = cs ! g i"
      by (simp add: rev_nth n_def g_def)
    show ?thesis
      unfolding a b F_def g_succ [OF that] by (rule excess_swap)
  qed
  have "ring_sum (rev cs) = (\<Sum>i<n. - F (g i))"
    unfolding ring_sum_def using summand by (simp add: n_def)
  also have "\<dots> = - (\<Sum>i<n. F (g i))" by (simp add: sum_negf)
  also have "(\<Sum>i<n. F (g i)) = (\<Sum>m<n. F m)"
  proof (rule sum.reindex_bij_witness [where i = "\<lambda>m. (2 * n - 2 - m) mod n" and j = g])
    fix a assume "a \<in> {..<n}"
    then have a: "a < n" by simp
    show "g a \<in> {..<n}" using g_lt by simp
    show "(2 * n - 2 - g a) mod n = a"
    proof (cases "a = n - 1")
      case True
      then show ?thesis using n by (simp add: g_def)
    next
      case False
      with a have lt: "a + 1 < n" by simp
      then have "g a = n - 2 - a" by (simp add: g_def)
      with lt have "2 * n - 2 - g a = n + a" by simp
      then show ?thesis using a by simp
    qed
  next
    fix b assume "b \<in> {..<n}"
    then have b: "b < n" by simp
    show "(2 * n - 2 - b) mod n \<in> {..<n}" using n by simp
    show "g ((2 * n - 2 - b) mod n) = b"
    proof (cases "b = n - 1")
      case True
      then have "2 * n - 2 - b = n - 1" using n by simp
      then show ?thesis using n True by (simp add: g_def)
    next
      case False
      with b have lt: "b + 1 < n" by simp
      then have "2 * n - 2 - b = n + (n - 2 - b)" by simp
      moreover have "(n + (n - 2 - b)) mod n = (n - 2 - b) mod n" by (rule mod_add_self1)
      moreover have "(n - 2 - b) mod n = n - 2 - b" using lt by (intro mod_less) simp
      ultimately have "(2 * n - 2 - b) mod n = n - 2 - b" by (simp only:)
      then show ?thesis using lt by (simp add: g_def)
    qed
  qed simp
  also have "(\<Sum>m<n. F m) = ring_sum cs" by (simp add: ring_sum_def F_def n_def)
  finally show ?thesis .
qed

subsection \<open>In binary64 arithmetic\<close>

lemma calculatePolygonArea_in_terms:
  "calculatePolygonArea_in rnd cs =
     (if length cs < 3 then 0
      else \<bar>rnd (rnd (rnd (fold (\<lambda>t total. rnd (total + t)) (ring_terms rnd cs) 0 * 6371000) *
                     6371000) / 2)\<bar>)"
  by (simp add: calculatePolygonArea_in_def ring_terms_def Let_def fold_map comp_def)

lemma ring_terms_rotate: "ring_terms rnd (rotate k cs) = rotate k (ring_terms rnd cs)"
proof (rule nth_equalityI)
  show "length (ring_terms rnd (rotate k cs)) = length (rotate k (ring_terms rnd cs))"
    by (simp add: ring_terms_def)
next
  fix i
  assume "i < length (ring_terms rnd (rotate k cs))"
  then have i: "i < length cs" by (simp add: ring_terms_def)
  define n where "n = length cs"
  have n: "0 < n" using i by (auto simp add: n_def)
  have a: "rotate k cs ! i = cs ! ((k + i) mod n)"
    using i by (simp add: nth_rotate n_def)
  have "(i + 1) mod n < n" using n by simp
  then have b: "rotate k cs ! ((i + 1) mod n) = cs ! ((k + (i + 1) mod n) mod n)"
    by (simp add: nth_rotate n_def)
  have c: "(k + (i + 1) mod n) mod n = ((k + i) mod n + 1) mod n"
    by (simp add: mod_simps add.assoc)
  have kn: "(k + i) mod n < n" using n by simp
  have "ring_terms rnd (rotate k cs) ! i =
          excess_in rnd (rotate k cs ! i) (rotate k cs ! ((i + 1) mod n))"
    using i by (simp add: ring_terms_def n_def)
  also have "\<dots> = excess_in rnd (cs ! ((k + i) mod n)) (cs ! (((k + i) mod n + 1) mod n))"
    unfolding a b c ..
  also have "\<dots> = ring_terms rnd cs ! ((k + i) mod n)"
    using kn by (simp add: ring_terms_def n_def)
  also have "\<dots> = rotate k (ring_terms rnd cs) ! i"
    using i by (simp add: nth_rotate ring_terms_def n_def)
  finally show "ring_terms rnd (rotate k cs) ! i = rotate k (ring_terms rnd cs) ! i" .
qed

text \<open>
  Claim C9, as amended. \<open>calculatePolygonArea\<close> is 0 on fewer than 3 points, the empty
  list included. On a ring of 3 or more points it adds the summands of the ring in
  binary64 arithmetic, in the order of the ring: a rotation by \<open>k\<close> positions rotates the
  list of summands and leaves each summand as it is. In exact arithmetic the value of
  the same formula does not change when the ring is rotated or reversed.
\<close>

theorem polygonArea_rotation_reversal:
  "(length cs < 3 \<longrightarrow> calculatePolygonArea cs = 0) \<and>
   calculatePolygonArea [] = 0 \<and>
   (3 \<le> length cs \<longrightarrow>
      calculatePolygonArea cs =
        \<bar>fl (fl (fl (fold (\<lambda>t total. fl (total + t)) (ring_terms fl cs) 0 * 6371000) *
                   6371000) / 2)\<bar> \<and>
      ring_terms fl (rotate k cs) = rotate k (ring_terms fl cs) \<and>
      calculatePolygonArea_in exact (rotate k cs) = calculatePolygonArea_in exact cs \<and>
      calculatePolygonArea_in exact (rev cs) = calculatePolygonArea_in exact cs)"
proof -
  have short: "length cs < 3 \<longrightarrow> calculatePolygonArea cs = 0"
    and empty: "calculatePolygonArea [] = 0"
    by (simp_all add: calculatePolygonArea_def calculatePolygonArea_in_def)
  have loop: "3 \<le> length cs \<longrightarrow>
      calculatePolygonArea cs =
        \<bar>fl (fl (fl (fold (\<lambda>t total. fl (total + t)) (ring_terms fl cs) 0 * 6371000) *
                   6371000) / 2)\<bar>"
    unfolding calculatePolygonArea_def by (simp add: calculatePolygonArea_in_terms)
  have rot: "calculatePolygonArea_in exact (rotate k cs) = calculatePolygonArea_in exact cs"
    and rev: "calculatePolygonArea_in exact (rev cs) = calculatePolygonArea_in exact cs"
    by (simp_all add: calculatePolygonArea_ring_sum ring_sum_rotate ring_sum_rev)
  from short empty loop rot rev ring_terms_rotate [of fl k cs] show ?thesis by blast
qed

subsection \<open>A ring whose computed area depends on the start index and on the direction\<close>

text \<open>
  The ring \<open>ex_ring\<close> lies on the equator, so that every \<open>Math.sin\<close> of the loop is
  \<open>Math.sin(0) = 0\<close> and the summand of an edge is twice its rounded difference of
  longitudes in radians.
\<close>

lemma deg_rounded: "fl (Math_PI / 180) = 5030569068109113 / 2 ^ 58"
  using fl_eq_div [where x = "Math_PI / 180" and k = 58 and m = 5030569068109113]
  by (simp add: Math_PI_def)

text \<open>Binary64 values that occur in the example: the rounding leaves them as they are.\<close>

lemma fl_exact_values:
  "fl 1 = 1"
  "fl (5030569068109113 / 288230376151711744) = 5030569068109113 / 288230376151711744"
  "fl 2 = 2"
  "fl (5030569068109113 / 144115188075855872) = 5030569068109113 / 144115188075855872"
  "fl 3 = 3"
  "fl (3772926801081835 / 36028797018963968) = 3772926801081835 / 36028797018963968"
  "fl 5 = 5"
  "fl (6288211335136391 / 36028797018963968) = 6288211335136391 / 36028797018963968"
  "fl (5030569068109113 / 72057594037927936) = 5030569068109113 / 72057594037927936"
  "fl (1 / 36028797018963968) = 1 / 36028797018963968"
  "fl (796375 / 4503599627370496) = 796375 / 4503599627370496"
  "fl (634213140625 / 562949953421312) = 634213140625 / 562949953421312"
  "fl (634213140625 / 1125899906842624) = 634213140625 / 1125899906842624"
  "fl (628821133513639 / 18014398509481984) = 628821133513639 / 18014398509481984"
  "fl (1 / 144115188075855872) = 1 / 144115188075855872"
  "fl (796375 / 18014398509481984) = 796375 / 18014398509481984"
  "fl (634213140625 / 2251799813685248) = 634213140625 / 2251799813685248"
  "fl (634213140625 / 4503599627370496) = 634213140625 / 4503599627370496"
proof -
  show "fl 1 = 1"
    using fl_exact [where x = "1" and m = 1 and k = 0] by simp
  show "fl (5030569068109113 / 288230376151711744) = 5030569068109113 / 288230376151711744"
    using fl_exact [where x = "5030569068109113 / 288230376151711744" and m = 5030569068109113 and k = 58] by simp
  show "fl 2 = 2"
    using fl_exact [where x = "2" and m = 2 and k = 0] by simp
  show "fl (5030569068109113 / 144115188075855872) = 5030569068109113 / 144115188075855872"
    using fl_exact [where x = "5030569068109113 / 144115188075855872" and m = 5030569068109113 and k = 57] by simp
  show "fl 3 = 3"
    using fl_exact [where x = "3" and m = 3 and k = 0] by simp
  show "fl (3772926801081835 / 36028797018963968) = 3772926801081835 / 36028797018963968"
    using fl_exact [where x = "3772926801081835 / 36028797018963968" and m = 3772926801081835 and k = 55] by simp
  show "fl 5 = 5"
    using fl_exact [where x = "5" and m = 5 and k = 0] by simp
  show "fl (6288211335136391 / 36028797018963968) = 6288211335136391 / 36028797018963968"
    using fl_exact [where x = "6288211335136391 / 36028797018963968" and m = 6288211335136391 and k = 55] by simp
  show "fl (5030569068109113 / 72057594037927936) = 5030569068109113 / 72057594037927936"
    using fl_exact [where x = "5030569068109113 / 72057594037927936" and m = 5030569068109113 and k = 56] by simp
  show "fl (1 / 36028797018963968) = 1 / 36028797018963968"
    using fl_exact [where x = "1 / 36028797018963968" and m = 1 and k = 55] by simp
  show "fl (796375 / 4503599627370496) = 796375 / 4503599627370496"
    using fl_exact [where x = "796375 / 4503599627370496" and m = 796375 and k = 52] by simp
  show "fl (634213140625 / 562949953421312) = 634213140625 / 562949953421312"
    using fl_exact [where x = "634213140625 / 562949953421312" and m = 634213140625 and k = 49] by simp
  show "fl (634213140625 / 1125899906842624) = 634213140625 / 1125899906842624"
    using fl_exact [where x = "634213140625 / 1125899906842624" and m = 634213140625 and k = 50] by simp
  show "fl (628821133513639 / 18014398509481984) = 628821133513639 / 18014398509481984"
    using fl_exact [where x = "628821133513639 / 18014398509481984" and m = 628821133513639 and k = 54] by simp
  show "fl (1 / 144115188075855872) = 1 / 144115188075855872"
    using fl_exact [where x = "1 / 144115188075855872" and m = 1 and k = 57] by simp
  show "fl (796375 / 18014398509481984) = 796375 / 18014398509481984"
    using fl_exact [where x = "796375 / 18014398509481984" and m = 796375 and k = 54] by simp
  show "fl (634213140625 / 2251799813685248) = 634213140625 / 2251799813685248"
    using fl_exact [where x = "634213140625 / 2251799813685248" and m = 634213140625 and k = 51] by simp
  show "fl (634213140625 / 4503599627370496) = 634213140625 / 4503599627370496"
    using fl_exact [where x = "634213140625 / 4503599627370496" and m = 634213140625 and k = 52] by simp
qed

text \<open>The products and sums of the example that are not binary64 values, rounded.\<close>

lemma fl_rounded_values:
  "fl (15091707204327339 / 288230376151711744) = 3772926801081835 / 72057594037927936"
  "fl (25152845340545565 / 288230376151711744) = 6288211335136391 / 72057594037927936"
  "fl (12576422670272783 / 72057594037927936) = 786026416892049 / 4503599627370496"
  "fl (20122276272436453 / 144115188075855872) = 5030569068109113 / 36028797018963968"
  "fl (25152845340545565 / 144115188075855872) = 6288211335136391 / 36028797018963968"
proof -
  show "fl (15091707204327339 / 288230376151711744) = 3772926801081835 / 72057594037927936"
    using fl_tie_div [where x = "15091707204327339 / 288230376151711744" and k = 57 and f = 7545853602163669] by simp
  show "fl (25152845340545565 / 288230376151711744) = 6288211335136391 / 72057594037927936"
    using fl_eq_div [where x = "25152845340545565 / 288230376151711744" and k = 56 and m = 6288211335136391] by simp
  show "fl (12576422670272783 / 72057594037927936) = 786026416892049 / 4503599627370496"
    using fl_tie_div [where x = "12576422670272783 / 72057594037927936" and k = 55 and f = 6288211335136391] by simp
  show "fl (20122276272436453 / 144115188075855872) = 5030569068109113 / 36028797018963968"
    using fl_eq_div [where x = "20122276272436453 / 144115188075855872" and k = 55 and m = 5030569068109113] by simp
  show "fl (25152845340545565 / 144115188075855872) = 6288211335136391 / 36028797018963968"
    using fl_eq_div [where x = "25152845340545565 / 144115188075855872" and k = 55 and m = 6288211335136391] by simp
qed

lemma excess_equator:
  "lat p = 0 \<Longrightarrow> lat q = 0 \<Longrightarrow>
   excess_in fl p q = fl (fl (fl (lng q - lng p) * (5030569068109113 / 2 ^ 58)) * 2)"
  by (simp add: excess_in_def toRadians_in_def Math_sin_in_def deg_rounded fl_0 fl_exact_values)

lemma upt_4: "[0..<4] = [0, 1, 2, 3]"
  by (simp add: upt_rec)

lemma ex_ring_terms:
  "ring_terms fl ex_ring =
     [5030569068109113 / 2 ^ 57, 5030569068109113 / 2 ^ 57, 3772926801081835 / 2 ^ 55,
      - (6288211335136391 / 2 ^ 55)]"
  "ring_terms fl (rev ex_ring) =
     [- (3772926801081835 / 2 ^ 55), - (5030569068109113 / 2 ^ 57), - (5030569068109113 / 2 ^ 57),
      6288211335136391 / 2 ^ 55]"
  by (simp_all add: ring_terms_def ex_ring_def upt_4 excess_equator fl_minus
      fl_exact_values fl_rounded_values)

lemma ring_terms_rotate1: "ring_terms rnd (rotate1 cs) = rotate1 (ring_terms rnd cs)"
  using ring_terms_rotate [of rnd 1 cs] by simp

lemma ex_ring_length: "length ex_ring = 4"
  by (simp add: ex_ring_def)

lemma ex_ring_area:
  "calculatePolygonArea ex_ring = 634213140625 / 2 ^ 50"
  "calculatePolygonArea (rotate 1 ex_ring) = 634213140625 / 2 ^ 52"
  "calculatePolygonArea (rev ex_ring) = 0"
  by (simp_all add: calculatePolygonArea_def calculatePolygonArea_in_terms ring_terms_rotate1
      ex_ring_terms ex_ring_length fl_minus fl_0 fl_exact_values fl_rounded_values)


text \<open>
  Two points give 0. The ring \<open>ex_ring\<close> rotated by one position has the summands of
  \<open>ex_ring\<close> in rotated order. In exact arithmetic a triangle rotated by one position
  and reversed keeps its area.
\<close>

theorem polygonArea_rotation_reversal_witness:
  "calculatePolygonArea [\<lparr>lat = 0, lng = 0\<rparr>, \<lparr>lat = 0, lng = 1\<rparr>] = 0 \<and>
   ring_terms fl (rotate 1 ex_ring) =
     [5030569068109113 / 2 ^ 57, 3772926801081835 / 2 ^ 55, - (6288211335136391 / 2 ^ 55),
      5030569068109113 / 2 ^ 57] \<and>
   calculatePolygonArea_in exact [\<lparr>lat = 0, lng = 1\<rparr>, \<lparr>lat = 1, lng = 0\<rparr>, \<lparr>lat = 0, lng = 0\<rparr>] =
     calculatePolygonArea_in exact [\<lparr>lat = 0, lng = 0\<rparr>, \<lparr>lat = 0, lng = 1\<rparr>, \<lparr>lat = 1, lng = 0\<rparr>] \<and>
   calculatePolygonArea_in exact [\<lparr>lat = 1, lng = 0\<rparr>, \<lparr>lat = 0, lng = 1\<rparr>, \<lparr>lat = 0, lng = 0\<rparr>] =
     calculatePolygonArea_in exact [\<lparr>lat = 0, lng = 0\<rparr>, \<lparr>lat = 0, lng = 1\<rparr>, \<lparr>lat = 1, lng = 0\<rparr>]"
  using polygonArea_rotation_reversal [of "[\<lparr>lat = 0, lng = 0\<rparr>, \<lparr>lat = 0, lng = 1\<rparr>]" 0]
    polygonArea_rotation_reversal [of ex_ring 1]
    polygonArea_rotation_reversal
      [of "[\<lparr>lat = 0, lng = 0\<rparr>, \<lparr>lat = 0, lng = 1\<rparr>, \<lparr>lat = 1, lng = 0\<rparr>]" 1]
  by (simp add: ex_ring_length ex_ring_terms)

text \<open>
  The claim as stated fails on \<open>ex_ring\<close>: the area computed from its second vertex is
  a quarter of the area computed from its first vertex, and the area of the reversed
  ring is 0.
\<close>

theorem polygonArea_rounding_counterexample:
  "3 \<le> length ex_ring \<and>
   calculatePolygonArea ex_ring = 634213140625 / 2 ^ 50 \<and>
   calculatePolygonArea (rotate 1 ex_ring) = 634213140625 / 2 ^ 52 \<and>
   calculatePolygonArea (rev ex_ring) = 0 \<and>
   calculatePolygonArea (rotate 1 ex_ring) \<noteq> calculatePolygonArea ex_ring \<and>
   calculatePolygonArea (rev ex_ring) \<noteq> calculatePolygonArea ex_ring"
  unfolding ex_ring_area by (simp add: ex_ring_length)

section \<open>SnapEngine: threshold, ties, exclusion\<close>

lemma snapLoop_none:
  "\<forall>edge\<in>set edges. md \<le> pr_distance (edgeProjected pr sc pp edge) \<Longrightarrow>
   \<exists>n'. snapLoop pr sc pp edges (best, md, n) = (best, md, n')"
  by (induction edges arbitrary: n) (auto simp add: Let_def)

lemma snapLoop_some:
  "\<exists>edge\<in>set edges. pr_distance (edgeProjected pr sc pp edge) < md \<Longrightarrow>
   \<exists>i n'. i < length edges \<and>
     snapLoop pr sc pp edges (best, md, n) =
       (Some (snapOf pr sc pp (edges ! i)), pr_distance (edgeProjected pr sc pp (edges ! i)), n') \<and>
     pr_distance (edgeProjected pr sc pp (edges ! i)) < md \<and>
     (\<forall>j<length edges. pr_distance (edgeProjected pr sc pp (edges ! i))
                        \<le> pr_distance (edgeProjected pr sc pp (edges ! j))) \<and>
     (\<forall>j<i. pr_distance (edgeProjected pr sc pp (edges ! i))
              < pr_distance (edgeProjected pr sc pp (edges ! j)))"
proof (induction edges arbitrary: best md n)
  case Nil
  then show ?case by simp
next
  case (Cons e es)
  let ?d = "\<lambda>edge. pr_distance (edgeProjected pr sc pp edge)"
  show ?case
  proof (cases "?d e < md")
    case True
    note closer = True
    show ?thesis
    proof (cases "\<exists>edge\<in>set es. ?d edge < ?d e")
      case True
      from Cons.IH [OF True, of "Some (snapOf pr sc pp e)" "n + 3"]
      obtain i n' where i: "i < length es"
        and run: "snapLoop pr sc pp es (Some (snapOf pr sc pp e), ?d e, n + 3) =
                    (Some (snapOf pr sc pp (es ! i)), ?d (es ! i), n')"
        and lt: "?d (es ! i) < ?d e"
        and least: "\<forall>j<length es. ?d (es ! i) \<le> ?d (es ! j)"
        and first: "\<forall>j<i. ?d (es ! i) < ?d (es ! j)"
        by blast
      have "\<forall>j<length (e # es). ?d ((e # es) ! Suc i) \<le> ?d ((e # es) ! j)"
        using least lt by (auto simp add: nth_Cons split: nat.splits)
      moreover have "\<forall>j<Suc i. ?d ((e # es) ! Suc i) < ?d ((e # es) ! j)"
        using first lt by (auto simp add: nth_Cons split: nat.splits)
      moreover have "snapLoop pr sc pp (e # es) (best, md, n) =
          (Some (snapOf pr sc pp ((e # es) ! Suc i)), ?d ((e # es) ! Suc i), n')"
        using closer run by (simp add: Let_def)
      moreover have "?d ((e # es) ! Suc i) < md" using lt closer by simp
      moreover have "Suc i < length (e # es)" using i by simp
      ultimately show ?thesis by blast
    next
      case False
      then have all: "\<forall>edge\<in>set es. ?d e \<le> ?d edge" by auto
      from snapLoop_none [OF all, of "Some (snapOf pr sc pp e)" "n + 3"]
      obtain n' where run: "snapLoop pr sc pp es (Some (snapOf pr sc pp e), ?d e, n + 3) =
                    (Some (snapOf pr sc pp e), ?d e, n')"
        by blast
      have "\<forall>j<length (e # es). ?d ((e # es) ! 0) \<le> ?d ((e # es) ! j)"
        using all by (auto simp add: nth_Cons split: nat.splits)
      moreover have "snapLoop pr sc pp (e # es) (best, md, n) =
          (Some (snapOf pr sc pp ((e # es) ! 0)), ?d ((e # es) ! 0), n')"
        using closer run by (simp add: Let_def)
      moreover have "?d ((e # es) ! 0) < md" using closer by simp
      ultimately show ?thesis by (intro exI [of _ 0] exI [of _ n']) simp
    qed
  next
    case False
    with Cons.prems have ex: "\<exists>edge\<in>set es. ?d edge < md" by auto
    from Cons.IH [OF ex, of best "n + 2"]
    obtain i n' where i: "i < length es"
      and run: "snapLoop pr sc pp es (best, md, n + 2) =
                  (Some (snapOf pr sc pp (es ! i)), ?d (es ! i), n')"
      and lt: "?d (es ! i) < md"
      and least: "\<forall>j<length es. ?d (es ! i) \<le> ?d (es ! j)"
      and first: "\<forall>j<i. ?d (es ! i) < ?d (es ! j)"
      by blast
    have far: "?d (es ! i) < ?d e" using lt False by simp
    have "\<forall>j<length (e # es). ?d ((e # es) ! Suc i) \<le> ?d ((e # es) ! j)"
      using least far by (auto simp add: nth_Cons split: nat.splits)
    moreover have "\<forall>j<Suc i. ?d ((e # es) ! Suc i) < ?d ((e # es) ! j)"
      using first far by (auto simp add: nth_Cons split: nat.splits)
    moreover have "snapLoop pr sc pp (e # es) (best, md, n) =
        (Some (snapOf pr sc pp ((e # es) ! Suc i)), ?d ((e # es) ! Suc i), n')"
      using False run by (simp add: Let_def)
    moreover have "?d ((e # es) ! Suc i) < md" using lt by simp
    moreover have "Suc i < length (e # es)" using i by simp
    ultimately show ?thesis by blast
  qed
qed

lemma snap_distance_snapOf:
  "snap_distance (snapOf pr sc pp edge) = pr_distance (edgeProjected pr sc pp edge)"
  "snap_edge (snapOf pr sc pp edge) = edge"
  by (simp_all add: snapOf_def Let_def)

lemma shapeEdges_ids:
  "shapeEdges st i shape = Inr es \<Longrightarrow> \<forall>edge\<in>set es. edge_shapeId edge = i"
  by (auto simp add: shapeEdges_def polygonEdges_def polylineEdges_def rectangleEdges_def
      circleEdges_def Let_def split: option.splits if_splits prod.splits)


lemma getAllEdgesLoop_ids:
  "getAllEdgesLoop st (Some X) entries acc = Inr edges \<Longrightarrow>
   \<forall>edge\<in>set acc. edge_shapeId edge \<noteq> X \<Longrightarrow>
   \<forall>edge\<in>set edges. edge_shapeId edge \<noteq> X"
proof (induction entries arbitrary: acc)
  case Nil
  then show ?case by simp
next
  case (Cons p entries)
  obtain i shape where p: "p = (i, shape)" by (cases p)
  show ?case
  proof (cases "i = X")
    case True
    with Cons.prems p have "getAllEdgesLoop st (Some X) entries acc = Inr edges" by simp
    from Cons.IH [OF this Cons.prems(2)] show ?thesis .
  next
    case False
    with Cons.prems p obtain es where es: "shapeEdges st i shape = Inr es"
      and rest: "getAllEdgesLoop st (Some X) entries (acc @ es) = Inr edges"
      by (auto split: sum.splits)
    have "\<forall>edge\<in>set (acc @ es). edge_shapeId edge \<noteq> X"
      using Cons.prems(2) shapeEdges_ids [OF es] False by auto
    from Cons.IH [OF rest this] show ?thesis .
  qed
qed



lemma findSnapPoint_near:
  assumes en: "enabled engine" and m: "se_map engine = Some m"
      and pr: "getProjection m = Some projection"
      and edges: "getAllEdges st engine ex = Inr edges"
      and near: "\<exists>edge\<in>set edges. pixelDistance projection (getZoom m) point edge < threshold engine"
  shows "\<exists>snap engine' i. findSnapPoint st engine point ex = Inr (Some snap, engine') \<and>
           snap_distance snap < threshold engine \<and>
           i < length edges \<and> snap_edge snap = edges ! i \<and>
           snap_distance snap = pixelDistance projection (getZoom m) point (edges ! i) \<and>
           (\<forall>j<length edges. snap_distance snap \<le> pixelDistance projection (getZoom m) point (edges ! j)) \<and>
           (\<forall>j<i. snap_distance snap < pixelDistance projection (getZoom m) point (edges ! j))"
proof -
  let ?sc = "2 powr getZoom m"
  let ?pp = "toPixel projection ?sc point"
  from near have "\<exists>edge\<in>set edges. pr_distance (edgeProjected projection ?sc ?pp edge) < threshold engine"
    by (simp add: pixelDistance_def)
  from snapLoop_some [OF this, of None 1]
  obtain i n' where i: "i < length edges"
    and run: "snapLoop projection ?sc ?pp edges (None, threshold engine, 1) =
       (Some (snapOf projection ?sc ?pp (edges ! i)),
        pr_distance (edgeProjected projection ?sc ?pp (edges ! i)), n')"
    and lt: "pr_distance (edgeProjected projection ?sc ?pp (edges ! i)) < threshold engine"
    and least: "\<forall>j<length edges. pr_distance (edgeProjected projection ?sc ?pp (edges ! i))
                        \<le> pr_distance (edgeProjected projection ?sc ?pp (edges ! j))"
    and first: "\<forall>j<i. pr_distance (edgeProjected projection ?sc ?pp (edges ! i))
              < pr_distance (edgeProjected projection ?sc ?pp (edges ! j))"
    by blast
  have ne: "edges \<noteq> []" using i by auto
  have entries: "se_shapes engine \<noteq> []"
    using edges ne by (auto simp add: getAllEdges_def)
  let ?snap = "snapOf projection ?sc ?pp (edges ! i)"
  have "\<exists>engine'. findSnapPoint st engine point ex = Inr (Some ?snap, engine')"
    using en m pr edges ne entries run by (simp add: findSnapPoint_def Let_def)
  then obtain engine' where res: "findSnapPoint st engine point ex = Inr (Some ?snap, engine')"
    by blast
  have d: "snap_distance ?snap = pixelDistance projection (getZoom m) point (edges ! i)"
    by (simp add: snap_distance_snapOf pixelDistance_def)
  have e: "snap_edge ?snap = edges ! i" by (simp add: snap_distance_snapOf)
  have c1: "snap_distance ?snap < threshold engine" using lt by (simp add: snap_distance_snapOf)
  have c2: "\<forall>j<length edges. snap_distance ?snap \<le> pixelDistance projection (getZoom m) point (edges ! j)"
    using least by (simp add: snap_distance_snapOf pixelDistance_def)
  have c3: "\<forall>j<i. snap_distance ?snap < pixelDistance projection (getZoom m) point (edges ! j)"
    using first by (simp add: snap_distance_snapOf pixelDistance_def)
  from res c1 i e d c2 c3 show ?thesis by blast
qed



lemma ex_engine_fields:
  "enabled ex_engine" "se_map ex_engine = Some ex_map" "threshold ex_engine = 15"
  "se_shapes ex_engine = [(''shape_1'', \<lparr>ss_id = ''shape_1'', ss_type = ''polyline'', ss_obj = 0\<rparr>),
                          (''shape_2'', \<lparr>ss_id = ''shape_2'', ss_type = ''polyline'', ss_obj = 1\<rparr>)]"
  by (simp_all add: ex_engine_def addShape_def SnapEngine_new_def)

lemma upt_2: "[0..<2] = [0, Suc 0]" "[0..<Suc 0] = [0]"
  by (simp_all add: upt_rec)


lemma ex_edges_excl: "getAllEdges ex_store ex_engine (Some ''shape_1'') = Inr [ex_edge ''shape_2'']"
  by (simp add: getAllEdges_def ex_engine_fields shapeEdges_def deref_def ex_store_def
      polylineEdges_def ex_edge_def)

lemma sqrt_9: "sqrt 9 = 3"
  using real_sqrt_abs [of 3] by simp




section \<open>DrawingManager: the example sessions\<close>

lemma string_of_nat_1: "string_of_nat (Suc 0) = ''1''"
  by (subst string_of_nat.simps) (simp add: digit_char_def)

lemmas dm_defs = DrawingManager_new_def merge_options_def SnapEngine_new_def HistoryManager_new_def
  startDrawing_def stopDrawing_def deselectShape_def truthy_def emit_def map_click_def
  handleDrawingClick_def addPreviewMarker_def updatePreviewLine_def Let_def

lemma ex_two_points_fields:
  "isDrawing (snd ex_two_points)" "drawingType (snd ex_two_points) = Some ''polygon''"
  "drawingPath (snd ex_two_points) = [\<lparr>lat = 0, lng = 0\<rparr>, \<lparr>lat = 0, lng = 10\<rparr>]"
  "shapes (snd ex_two_points) = []" "history (fst ex_two_points) = []"
  by (simp_all add: ex_two_points_def ex_session0_def dm_defs)

lemma ex_three_points_fields:
  "isDrawing (snd ex_three_points)" "drawingType (snd ex_three_points) = Some ''polygon''"
  "drawingPath (snd ex_three_points) = [\<lparr>lat = 0, lng = 0\<rparr>, \<lparr>lat = 0, lng = 10\<rparr>, \<lparr>lat = 10, lng = 0\<rparr>]"
  "shapes (snd ex_three_points) = []" "history (fst ex_three_points) = []"
  "heap (snd ex_three_points) = []" "idCounter (snd ex_three_points) = 0"
  "vertexMarkers (snd ex_three_points) = []" "midpointMarkers (snd ex_three_points) = []"
  "se_shapes (snapEngine (snd ex_three_points)) = []"
  "maxSteps (fst ex_three_points) = 50" "currentIndex (fst ex_three_points) = - 1"
  "snapping_enabled (options (snd ex_three_points))"
  by (simp_all add: ex_three_points_def ex_two_points_def ex_session0_def dm_defs)

lemmas complete_defs = completeDrawing_def below_minimum_def minPoints_def createShape_def
  registerShape_def createVertexMarkers_def createVertexMarker_def createMidpointMarker_def
  createLabel_def alloc_def obj_path_def deref_def sh_type_def serialize_def push_def
  notifyChange_def getState_def canUndo_def canRedo_def addShape_def overlay_options_def
  cleanupDrawing_def hideIndicator_def stopDrawing_def emit_def Let_def

lemma upt_3: "[0..<3] = [0, 1, 2]"
  by (simp add: upt_rec)

lemma ex_three_points_more:
  "onChange (fst ex_three_points) = Some (\<lambda>state dm. Returned (emit (HistoryChange state) dm))"
  "shapeNameCounter (snd ex_three_points) = 0"
  "labels (snd ex_three_points) = []"
  "selectedShapeId (snd ex_three_points) = None"
  "snapMarker (snapEngine (snd ex_three_points)) = None"
  by (simp_all add: ex_three_points_def ex_two_points_def ex_session0_def dm_defs)

lemma ex_three_points_extra:
  "se_map (snapEngine (snd ex_three_points)) = Some ex_map"
  "enabled (snapEngine (snd ex_three_points))"
  "threshold (snapEngine (snd ex_three_points)) = 15"
  "lastSnapPoint (snd ex_three_points) = None"
  "style_completed (options (snd ex_three_points)) = default_completed"
  "style_selected (options (snd ex_three_points)) = default_selected"
  by (simp_all add: ex_three_points_def ex_two_points_def ex_session0_def dm_defs)

section \<open>DrawingManager: completion below the minimum, selection\<close>

text \<open>
  Claim C8. For each of the four drawing types, with its minimum point count (polygon
  3, polyline, circle and rectangle 2), \<open>completeDrawing()\<close> on a path shorter than the
  minimum returns the session it was given: no shape, no history entry, no event, and
  the drawing goes on with the same path.
\<close>

theorem completeDrawing_below_minimum:
  assumes "(ty, k) \<in> {(''polygon'', 3), (''polyline'', 2), (''circle'', 2), (''rectangle'', 2)}"
      and "drawingType dm = Some ty"
      and "length (drawingPath dm) < k"
  shows "minPoints (drawingType dm) = Some k \<and> completeDrawing (h, dm) = Returned (h, dm)"
  using assms by (auto simp add: completeDrawing_def minPoints_def below_minimum_def)

text \<open>A polygon drawing with two clicks: \<open>completeDrawing()\<close> changes nothing.\<close>

theorem completeDrawing_below_minimum_witness:
  "completeDrawing ex_two_points = Returned ex_two_points \<and>
   isDrawing (snd ex_two_points) \<and>
   drawingPath (snd ex_two_points) = [\<lparr>lat = 0, lng = 0\<rparr>, \<lparr>lat = 0, lng = 10\<rparr>] \<and>
   shapes (snd ex_two_points) = [] \<and> history (fst ex_two_points) = []"
  using completeDrawing_below_minimum
    [of "''polygon''" 3 "snd ex_two_points" "fst ex_two_points"]
  by (simp add: ex_two_points_fields)

lemma map_of_map_entry_same:
  "map_of (AList.map_entry k f xs) k = map_option f (map_of xs k)"
  by (simp add: map_of_map_entry split: option.splits)

lemma map_of_map_entry_other:
  "k' \<noteq> k \<Longrightarrow> map_of (AList.map_entry k f xs) k' = map_of xs k'"
  by (simp add: map_of_map_entry)

lemma hideMarkers_fields:
  "shapes (hideMarkers j dm) = shapes dm" "events (hideMarkers j dm) = events dm"
  "heap (hideMarkers j dm) = heap dm" "options (hideMarkers j dm) = options dm"
  "selectedShapeId (hideMarkers j dm) = selectedShapeId dm"
  "map_of (vertexMarkers (hideMarkers j dm)) j =
     map_option (map (\<lambda>m. m\<lparr>m_visible := False\<rparr>)) (map_of (vertexMarkers dm) j)"
  "map_of (midpointMarkers (hideMarkers j dm)) j =
     map_option (map (\<lambda>m. m\<lparr>m_visible := False\<rparr>)) (map_of (midpointMarkers dm) j)"
  by (simp_all add: hideMarkers_def map_of_map_entry_same)

lemma setOptions_fields:
  "shapes (setOptions r st dm) = shapes dm" "events (setOptions r st dm) = events dm"
  "options (setOptions r st dm) = options dm"
  "selectedShapeId (setOptions r st dm) = selectedShapeId dm"
  "vertexMarkers (setOptions r st dm) = vertexMarkers dm"
  "midpointMarkers (setOptions r st dm) = midpointMarkers dm"
  "length (heap (setOptions r st dm)) = length (heap dm)"
  "r < length (heap dm) \<Longrightarrow>
     g_options (heap (setOptions r st dm) ! r) = g_options (heap dm ! r) ++ st"
  by (simp_all add: setOptions_def update_obj_def)

lemma unselect_previous_fields:
  "shapes (unselect_previous dm) = shapes dm" "events (unselect_previous dm) = events dm"
  "selectedShapeId (unselect_previous dm) = selectedShapeId dm"
  by (simp_all add: unselect_previous_def Let_def hideMarkers_fields setOptions_fields
      split: option.splits)

lemma unselect_previous_effect:
  assumes "selectedShapeId dm = Some prev"
  shows "map_of (vertexMarkers (unselect_previous dm)) prev =
           map_option (map (\<lambda>m. m\<lparr>m_visible := False\<rparr>)) (map_of (vertexMarkers dm) prev)"
    and "map_of (midpointMarkers (unselect_previous dm)) prev =
           map_option (map (\<lambda>m. m\<lparr>m_visible := False\<rparr>)) (map_of (midpointMarkers dm) prev)"
    and "map_of (shapes dm) prev = Some p \<Longrightarrow> sh_obj p < length (heap dm) \<Longrightarrow>
           g_options (heap (unselect_previous dm) ! sh_obj p) =
             g_options (heap dm ! sh_obj p) ++ style_completed (options dm)"
  using assms
  by (simp_all add: unselect_previous_def Let_def hideMarkers_fields setOptions_fields
      split: option.splits)

lemma selectShape_unknown:
  assumes "map_of (shapes dm) i = None"
  shows "selectShape i dm =
           (if selectedShapeId dm = Some i then dm
            else (if truthy (selectedShapeId dm) then unselect_previous dm else dm)
                   \<lparr>selectedShapeId := Some i\<rparr>)"
  using assms by (simp add: selectShape_def Let_def unselect_previous_fields)

section \<open>Editing: exclusion of the edited shape, overlays in the store\<close>

subsection \<open>Exclusion\<close>

lemma snapLoop_member:
  "snapLoop pr sc pp edges (best, md, n) = (Some snap, md', n') \<Longrightarrow>
   best = Some snap \<or> (\<exists>edge\<in>set edges. snap = snapOf pr sc pp edge)"
proof (induction edges arbitrary: best md n)
  case Nil
  then show ?case by simp
next
  case (Cons e es)
  show ?case
  proof (cases "pr_distance (edgeProjected pr sc pp e) < md")
    case True
    with Cons.prems have "snapLoop pr sc pp es
        (Some (snapOf pr sc pp e), pr_distance (edgeProjected pr sc pp e), n + 3) =
        (Some snap, md', n')"
      by (simp add: Let_def)
    from Cons.IH [OF this] show ?thesis by auto
  next
    case False
    with Cons.prems have "snapLoop pr sc pp es (best, md, n + 2) = (Some snap, md', n')"
      by (simp add: Let_def)
    from Cons.IH [OF this] show ?thesis by auto
  qed
qed

lemma findSnapPoint_edge:
  assumes "findSnapPoint st engine point ex = Inr (Some snap, engine')"
  shows "\<exists>edges. getAllEdges st engine ex = Inr edges \<and> snap_edge snap \<in> set edges"
proof -
  from assms obtain edges where edges: "getAllEdges st engine ex = Inr edges"
    by (auto simp add: findSnapPoint_def split: if_splits sum.splits)
  from assms obtain m where m: "se_map engine = Some m"
    by (cases "se_map engine") (auto simp add: findSnapPoint_def)
  from assms edges m obtain pr where pr: "getProjection m = Some pr"
    by (cases "getProjection m") (auto simp add: findSnapPoint_def split: if_splits)
  obtain best md n where run:
    "snapLoop pr (2 powr getZoom m) (toPixel pr (2 powr getZoom m) point) edges
       (None, threshold engine, 1) = (best, md, n)"
    by (cases "snapLoop pr (2 powr getZoom m) (toPixel pr (2 powr getZoom m) point) edges
       (None, threshold engine, 1)") auto
  have "best = Some snap"
    using assms edges m pr run
    by (auto simp add: findSnapPoint_def Let_def split: if_splits option.splits)
  with run have
    "snapLoop pr (2 powr getZoom m) (toPixel pr (2 powr getZoom m) point) edges
       (None, threshold engine, 1) = (Some snap, md, n)"
    by simp
  from snapLoop_member [OF this] obtain edge where
    "edge \<in> set edges" "snap = snapOf pr (2 powr getZoom m) (toPixel pr (2 powr getZoom m) point) edge"
    by auto
  then have "snap_edge snap \<in> set edges" by (simp add: snap_distance_snapOf)
  with edges show ?thesis by blast
qed

lemma getAllEdges_excluded:
  "getAllEdges st engine (Some X) = Inr edges \<Longrightarrow> \<forall>edge\<in>set edges. edge_shapeId edge \<noteq> X"
  using getAllEdgesLoop_ids [of st X "se_shapes engine" "[]" edges]
  by (simp add: getAllEdges_def)

lemma findSnapPoint_excluded:
  assumes "findSnapPoint st engine point (Some X) = Inr (Some snap, engine')"
  shows "edge_shapeId (snap_edge snap) \<noteq> X"
  using findSnapPoint_edge [OF assms] getAllEdges_excluded by blast

lemma dragSnap_excluded:
  assumes "dragSnap dm X point = Inr (Some snap, engine')"
  shows "edge_shapeId (snap_edge snap) \<noteq> X"
  using assms findSnapPoint_excluded
  by (auto simp add: dragSnap_def split: if_splits)

subsection \<open>Overlays in the store\<close>

lemma obj_path_bound: "obj_path dm r = Some p \<Longrightarrow> r < length (heap dm)"
  by (auto simp add: obj_path_def deref_def split: if_splits)

lemma obj_path_set:
  "obj_path dm r = Some p \<Longrightarrow> obj_path (set_obj_path r q dm) r = Some q"
  by (cases "g_geom (heap dm ! r)")
     (auto simp add: obj_path_def deref_def set_obj_path_def update_obj_def split: if_splits)

lemma set_obj_path_fields:
  "shapes (set_obj_path r q dm) = shapes dm"
  "events (set_obj_path r q dm) = events dm"
  "options (set_obj_path r q dm) = options dm"
  "selectedShapeId (set_obj_path r q dm) = selectedShapeId dm"
  "vertexMarkers (set_obj_path r q dm) = vertexMarkers dm"
  "midpointMarkers (set_obj_path r q dm) = midpointMarkers dm"
  "snapEngine (set_obj_path r q dm) = snapEngine dm"
  "labels (set_obj_path r q dm) = labels dm"
  by (simp_all add: set_obj_path_def update_obj_def)

lemma obj_path_heap: "heap dm' = heap dm \<Longrightarrow> obj_path dm' r = obj_path dm r"
  by (simp add: obj_path_def)

lemma shapeEdges_setPath:
  "(case shapeEdges (st[r := (st ! r)\<lparr>g_geom := setPath q (g_geom (st ! r))\<rparr>]) i s of
      Inl _ \<Rightarrow> False | Inr _ \<Rightarrow> True) =
   (case shapeEdges st i s of Inl _ \<Rightarrow> False | Inr _ \<Rightarrow> True)"
proof (cases "ss_obj s = r \<and> r < length st")
  case True
  then show ?thesis
    by (cases "g_geom (st ! r)") (simp_all add: shapeEdges_def deref_def)
next
  case False
  then show ?thesis
    by (auto simp add: shapeEdges_def deref_def)
qed

lemma registry_ok_set_obj_path:
  "registry_ok (heap (set_obj_path r q dm)) engine = registry_ok (heap dm) engine"
  by (simp add: registry_ok_def set_obj_path_def update_obj_def shapeEdges_setPath)

lemma getAllEdgesLoop_ok:
  "list_all (\<lambda>q. case shapeEdges st (fst q) (snd q) of Inl _ \<Rightarrow> False | Inr _ \<Rightarrow> True) entries \<Longrightarrow>
   \<exists>edges. getAllEdgesLoop st ex entries acc = Inr edges"
proof (induction entries arbitrary: acc)
  case Nil
  then show ?case by simp
next
  case (Cons q entries)
  obtain i s where q: "q = (i, s)" by (cases q)
  from Cons.prems q obtain es where es: "shapeEdges st i s = Inr es"
    by (auto split: sum.splits)
  from Cons.prems have rest:
    "list_all (\<lambda>q. case shapeEdges st (fst q) (snd q) of Inl _ \<Rightarrow> False | Inr _ \<Rightarrow> True) entries"
    by simp
  show ?case
    using Cons.IH [OF rest, of acc] Cons.IH [OF rest, of "acc @ es"] q es by simp
qed

lemma findSnapPoint_ok:
  assumes "registry_ok st engine"
  shows "\<exists>snap engine'. findSnapPoint st engine point ex = Inr (snap, engine') \<and>
           se_shapes engine' = se_shapes engine"
proof -
  from assms obtain edges where edges: "getAllEdges st engine ex = Inr edges"
    using getAllEdgesLoop_ok [of st "se_shapes engine" ex "[]"]
    by (auto simp add: registry_ok_def getAllEdges_def)
  show ?thesis
    by (simp add: findSnapPoint_def edges Let_def hideIndicator_def showIndicatorAt_def
        split: option.splits prod.splits)
qed

lemma dragSnap_ok:
  assumes "registry_ok (heap dm) (snapEngine dm)"
  shows "\<exists>snap engine'. dragSnap dm X point = Inr (snap, engine') \<and>
           se_shapes engine' = se_shapes (snapEngine dm)"
  using findSnapPoint_ok [OF assms] by (simp add: dragSnap_def)

lemma registry_ok_shapes:
  "se_shapes engine' = se_shapes engine \<Longrightarrow> registry_ok st engine' = registry_ok st engine"
  by (simp add: registry_ok_def)

section \<open>Editing: the midpoint gesture\<close>

lemma length_insertAt: "length (insertAt k v p) = Suc (length p)"
  by (simp add: insertAt_def)

lemma setAt_insertAt: "k \<le> length p \<Longrightarrow> setAt k t (insertAt k v p) = insertAt k t p"
  by (simp add: setAt_def insertAt_def list_update_append min_def)

lemma length_setAt: "k < length p \<Longrightarrow> length (setAt k t p) = length p"
  by (simp add: setAt_def)

lemma emit_fields:
  "shapes (emit ev dm) = shapes dm" "heap (emit ev dm) = heap dm"
  "snapEngine (emit ev dm) = snapEngine dm" "midpointMarkers (emit ev dm) = midpointMarkers dm"
  "vertexMarkers (emit ev dm) = vertexMarkers dm" "selectedShapeId (emit ev dm) = selectedShapeId dm"
  "events (emit ev dm) = events dm @ [ev]" "labels (emit ev dm) = labels dm"
  "obj_path (emit ev dm) r = obj_path dm r"
  by (simp_all add: emit_def obj_path_def)

lemma obj_path_updates:
  "obj_path (dm\<lparr>snapEngine := a\<rparr>) r = obj_path dm r"
  "obj_path (dm\<lparr>midpointMarkers := b\<rparr>) r = obj_path dm r"
  "obj_path (dm\<lparr>vertexMarkers := c\<rparr>) r = obj_path dm r"
  "obj_path (dm\<lparr>shapes := d\<rparr>) r = obj_path dm r"
  "obj_path (dm\<lparr>labels := e\<rparr>) r = obj_path dm r"
  by (simp_all add: obj_path_def)

lemma registry_ok_hide:
  "registry_ok st (hideIndicator engine) = registry_ok st engine"
  by (simp add: registry_ok_def hideIndicator_def split: option.splits)

lemma midpoint_dragstart_result:
  assumes sh: "map_of (shapes dm) X = Some shape"
      and ms: "map_of (midpointMarkers dm) X = Some ms" and e: "e < length ms"
      and path: "obj_path dm (sh_obj shape) = Some p" and room: "e + 1 \<le> length p"
      and ok: "registry_ok (heap dm) (snapEngine dm)"
  shows "\<exists>dm1. midpoint_dragstart X e dm = Returned dm1 \<and>
           midpoint_dragging X e shape p (m_position (ms ! e)) dm1 \<and>
           events dm1 = events dm \<and> selectedShapeId dm1 = selectedShapeId dm"
proof -
  define dm0 where "dm0 = dm\<lparr>midpointMarkers :=
      AList.update X (ms[e := (ms ! e)\<lparr>insertedIndex := Some (e + 1)\<rparr>]) (midpointMarkers dm)\<rparr>"
  define dm1 where "dm1 = set_obj_path (sh_obj shape) (insertAt (e + 1) (m_position (ms ! e)) p) dm0"
  have run: "midpoint_dragstart X e dm = Returned dm1"
    using sh ms e path by (simp add: midpoint_dragstart_def dm1_def dm0_def Let_def)
  have p0: "obj_path dm0 (sh_obj shape) = Some p"
    using path by (simp add: dm0_def obj_path_updates)
  have a: "map_of (shapes dm1) X = Some shape"
    using sh by (simp add: dm1_def dm0_def set_obj_path_fields)
  have b: "map_of (midpointMarkers dm1) X = Some (ms[e := (ms ! e)\<lparr>insertedIndex := Some (e + 1)\<rparr>])"
    by (simp add: dm1_def dm0_def set_obj_path_fields update_conv')
  have c: "obj_path dm1 (sh_obj shape) = Some (insertAt (e + 1) (m_position (ms ! e)) p)"
    unfolding dm1_def by (rule obj_path_set [OF p0])
  have d: "registry_ok (heap dm1) (snapEngine dm1)"
    using ok by (simp add: dm1_def registry_ok_set_obj_path set_obj_path_fields dm0_def)
  have "midpoint_dragging X e shape p (m_position (ms ! e)) dm1"
    using a b c d e room by (simp add: midpoint_dragging_def)
  moreover have "events dm1 = events dm" "selectedShapeId dm1 = selectedShapeId dm"
    by (simp_all add: dm1_def dm0_def set_obj_path_fields)
  ultimately show ?thesis using run by blast
qed

lemma midpoint_drag_step:
  assumes inv: "midpoint_dragging X e shape p v dm"
  shows "\<exists>v' dm' a b. midpoint_drag X e latLng dm = Returned dm' \<and>
           midpoint_dragging X e shape p v' dm' \<and>
           events dm' = events dm @ [SnapActive a b] \<and>
           selectedShapeId dm' = selectedShapeId dm"
proof -
  from inv obtain ms where sh: "map_of (shapes dm) X = Some shape"
    and ms: "map_of (midpointMarkers dm) X = Some ms" and e: "e < length ms"
    and ins: "insertedIndex (ms ! e) = Some (e + 1)"
    and path: "obj_path dm (sh_obj shape) = Some (insertAt (e + 1) v p)"
    and room: "e + 1 \<le> length p"
    and ok: "registry_ok (heap dm) (snapEngine dm)"
    by (auto simp add: midpoint_dragging_def split: option.splits)
  from dragSnap_ok [OF ok, of X latLng] obtain snap engine where
    snap: "dragSnap dm X latLng = Inr (snap, engine)"
    and reg: "se_shapes engine = se_shapes (snapEngine dm)"
    by blast
  define target where "target = (case snap of Some sn \<Rightarrow> snap_point sn | None \<Rightarrow> latLng)"
  define ms' where "ms' = ms[e := (ms ! e)\<lparr>m_position := target\<rparr>]"
  define dm1 where "dm1 = dm\<lparr>snapEngine := engine,
                              midpointMarkers := AList.update X ms' (midpointMarkers dm)\<rparr>"
  define dm2 where "dm2 = set_obj_path (sh_obj shape) (setAt (e + 1) target (insertAt (e + 1) v p)) dm1"
  define dm' where "dm' = (case snap of
      Some sn \<Rightarrow> emit (SnapActive True (Some (snap_point sn))) dm2
    | None \<Rightarrow> emit (SnapActive False None) (dm2\<lparr>snapEngine := hideIndicator (snapEngine dm2)\<rparr>))"
  have run: "midpoint_drag X e latLng dm = Returned dm'"
    using sh ms e ins snap path
    by (cases snap)
       (simp_all add: midpoint_drag_def Let_def dm'_def dm2_def dm1_def ms'_def target_def)
  have p1: "obj_path dm1 (sh_obj shape) = Some (insertAt (e + 1) v p)"
    using path by (simp add: dm1_def obj_path_def)
  have p2: "obj_path dm2 (sh_obj shape) = Some (insertAt (e + 1) target p)"
    using obj_path_set [OF p1, of "setAt (e + 1) target (insertAt (e + 1) v p)"] room
    by (simp add: dm2_def setAt_insertAt)
  have s2: "shapes dm2 = shapes dm" "midpointMarkers dm2 = AList.update X ms' (midpointMarkers dm)"
    "snapEngine dm2 = engine" "events dm2 = events dm" "selectedShapeId dm2 = selectedShapeId dm"
    by (simp_all add: dm2_def dm1_def set_obj_path_fields)
  have ok1: "registry_ok (heap dm1) engine"
    using ok reg by (simp add: dm1_def registry_ok_def)
  have ok2: "registry_ok (heap dm2) engine"
    using ok1 by (simp add: dm2_def registry_ok_set_obj_path)
  have e': "e < length ms'" and ins': "insertedIndex (ms' ! e) = Some (e + 1)"
    using e ins by (simp_all add: ms'_def)
  have "midpoint_dragging X e shape p target dm'"
    using sh p2 s2 ok2 e' ins' room
    by (cases snap)
       (simp_all add: midpoint_dragging_def dm'_def emit_fields obj_path_updates update_conv'
          registry_ok_hide)
  moreover have "\<exists>a b. events dm' = events dm @ [SnapActive a b]"
    using s2 by (cases snap) (auto simp add: dm'_def emit_fields emit_def)
  moreover have "selectedShapeId dm' = selectedShapeId dm"
    using s2 by (cases snap) (simp_all add: dm'_def emit_fields emit_def)
  ultimately show ?thesis using run by blast
qed

lemma midpoint_drag_moves:
  assumes "midpoint_dragging X e shape p v dm"
  shows "\<exists>v' dm' evs. drag_moves (midpoint_drag X e) moves dm = Returned dm' \<and>
           midpoint_dragging X e shape p v' dm' \<and>
           events dm' = events dm @ evs \<and> list_all snap_active evs \<and>
           selectedShapeId dm' = selectedShapeId dm \<and> (moves = [] \<longrightarrow> v' = v)"
  using assms
proof (induction moves arbitrary: v dm)
  case Nil
  then show ?case by auto
next
  case (Cons latLng moves)
  from midpoint_drag_step [OF Cons.prems, of latLng] obtain v1 dm1 a b where
    step: "midpoint_drag X e latLng dm = Returned dm1"
    and inv1: "midpoint_dragging X e shape p v1 dm1"
    and ev1: "events dm1 = events dm @ [SnapActive a b]"
    and sel1: "selectedShapeId dm1 = selectedShapeId dm"
    by blast
  from Cons.IH [OF inv1] obtain v' dm' evs where
    rest: "drag_moves (midpoint_drag X e) moves dm1 = Returned dm'"
    and inv': "midpoint_dragging X e shape p v' dm'"
    and ev': "events dm' = events dm1 @ evs" and sa: "list_all snap_active evs"
    and sel': "selectedShapeId dm' = selectedShapeId dm1"
    by blast
  have "drag_moves (midpoint_drag X e) (latLng # moves) dm = Returned dm'"
    using step rest by simp
  moreover have "events dm' = events dm @ (SnapActive a b # evs)"
    using ev1 ev' by simp
  moreover have "list_all snap_active (SnapActive a b # evs)" using sa by simp
  moreover have "selectedShapeId dm' = selectedShapeId dm" using sel' sel1 by simp
  moreover have "latLng # moves = [] \<longrightarrow> v' = v" by simp
  ultimately show ?case using inv' by blast
qed

lemma type_of_setPath: "type_of (setPath q g) = type_of g"
  by (cases g) simp_all

lemma getPath_setPath:
  "type_of g = ''polygon'' \<or> type_of g = ''polyline'' \<Longrightarrow> getPath (setPath q g) = Some q"
  by (cases g) simp_all

lemma removeMarkers_fields:
  "shapes (removeMarkers j dm) = shapes dm" "events (removeMarkers j dm) = events dm"
  "heap (removeMarkers j dm) = heap dm" "snapEngine (removeMarkers j dm) = snapEngine dm"
  "selectedShapeId (removeMarkers j dm) = selectedShapeId dm"
  "labels (removeMarkers j dm) = labels dm"
  "obj_path (removeMarkers j dm) r = obj_path dm r"
  by (simp_all add: removeMarkers_def obj_path_def)

lemma showMarkers_fields:
  "shapes (showMarkers j dm) = shapes dm" "events (showMarkers j dm) = events dm"
  "heap (showMarkers j dm) = heap dm" "snapEngine (showMarkers j dm) = snapEngine dm"
  "selectedShapeId (showMarkers j dm) = selectedShapeId dm"
  "labels (showMarkers j dm) = labels dm"
  "obj_path (showMarkers j dm) r = obj_path dm r"
  "map_of (vertexMarkers (showMarkers j dm)) j =
     map_option (map (\<lambda>m. m\<lparr>m_visible := True\<rparr>)) (map_of (vertexMarkers dm) j)"
  "map_of (midpointMarkers (showMarkers j dm)) j =
     map_option (map (\<lambda>m. m\<lparr>m_visible := True\<rparr>)) (map_of (midpointMarkers dm) j)"
  by (simp_all add: showMarkers_def obj_path_def map_of_map_entry_same)

lemma createVertexMarkers_result:
  assumes "obj_path dm (sh_obj shape) = Some q"
  shows "\<exists>dm'. createVertexMarkers shape dm = Returned dm' \<and>
           shapes dm' = shapes dm \<and> events dm' = events dm \<and> heap dm' = heap dm \<and>
           snapEngine dm' = snapEngine dm \<and> selectedShapeId dm' = selectedShapeId dm \<and>
           labels dm' = labels dm \<and>
           (\<exists>vs. map_of (vertexMarkers dm') (sh_id shape) = Some vs \<and> length vs = length q) \<and>
           (\<exists>ms. map_of (midpointMarkers dm') (sh_id shape) = Some ms \<and>
                 length ms = (if sh_type shape = ''polygon'' then length q else length q - 1) \<and>
                 list_all (\<lambda>m. insertedIndex m = None) ms)"
  using assms
  by (simp add: createVertexMarkers_def Let_def update_conv' list_all_iff
      createMidpointMarker_def)

lemma updateShapeData_result:
  assumes path: "obj_path dm (sh_obj shape) = Some q"
      and sh: "map_of (shapes dm) X = Some shape" and sid: "sh_id shape = X"
  shows "\<exists>dm' shape'. updateShapeData shape dm = Returned dm' \<and>
           map_of (shapes dm') X = Some shape' \<and>
           sh_geo shape' = setPath q (sh_geo shape) \<and>
           sh_area shape' = (if sh_type shape = ''polygon'' then calculatePolygonArea q
                             else sh_area shape) \<and>
           sh_id shape' = X \<and> sh_name shape' = sh_name shape \<and> sh_obj shape' = sh_obj shape \<and>
           events dm' = events dm @ [ShapeUpdated (serialize shape')] \<and>
           heap dm' = heap dm \<and> vertexMarkers dm' = vertexMarkers dm \<and>
           midpointMarkers dm' = midpointMarkers dm \<and>
           selectedShapeId dm' = selectedShapeId dm"
proof -
  define shape1 where "shape1 = shape\<lparr>sh_geo := setPath q (sh_geo shape)\<rparr>"
  define shape2 where "shape2 = (if sh_type shape1 = ''polygon''
                        then shape1\<lparr>sh_area := calculatePolygonArea q\<rparr> else shape1)"
  define dm1 where "dm1 = dm\<lparr>shapes := AList.map_entry (sh_id shape) (\<lambda>_. shape2) (shapes dm)\<rparr>"
  define dm2 where "dm2 = dm1\<lparr>snapEngine :=
                          addShape (sh_id shape2) (sh_type shape2) (sh_obj shape2)
                            (removeShape (sh_id shape2) (snapEngine dm1))\<rparr>"
  define dm' where "dm' = emit (ShapeUpdated (serialize shape2)) (updateLabel shape2 dm2)"
  have run: "updateShapeData shape dm = Returned dm'"
    using path by (simp add: updateShapeData_def Let_def dm'_def dm2_def dm1_def shape2_def shape1_def)
  have ty: "sh_type (shape\<lparr>sh_geo := setPath q (sh_geo shape)\<rparr>) = sh_type shape"
    by (simp add: sh_type_def type_of_setPath)
  have f2: "sh_geo shape2 = setPath q (sh_geo shape)" "sh_id shape2 = X"
    "sh_name shape2 = sh_name shape" "sh_obj shape2 = sh_obj shape"
    "sh_area shape2 = (if sh_type shape = ''polygon'' then calculatePolygonArea q else sh_area shape)"
    using sid by (simp_all add: shape2_def shape1_def ty)
  have lab: "shapes (updateLabel s d) = shapes d" "events (updateLabel s d) = events d"
    "heap (updateLabel s d) = heap d" "vertexMarkers (updateLabel s d) = vertexMarkers d"
    "midpointMarkers (updateLabel s d) = midpointMarkers d"
    "selectedShapeId (updateLabel s d) = selectedShapeId d" for s d
    by (simp_all add: updateLabel_def split: option.splits)
  have "map_of (shapes dm') X = Some shape2"
    using sh sid by (simp add: dm'_def emit_fields lab dm2_def dm1_def map_of_map_entry_same)
  moreover have "events dm' = events dm @ [ShapeUpdated (serialize shape2)]"
    by (simp add: dm'_def emit_fields lab dm2_def dm1_def)
  moreover have "heap dm' = heap dm" "vertexMarkers dm' = vertexMarkers dm"
    "midpointMarkers dm' = midpointMarkers dm" "selectedShapeId dm' = selectedShapeId dm"
    by (simp_all add: dm'_def emit_fields lab dm2_def dm1_def)
  ultimately show ?thesis using run f2 by blast
qed

lemma midpoint_dragend_result:
  assumes inv: "midpoint_dragging X e shape p v dm"
      and sid: "sh_id shape = X" and poly: "sh_type shape = ''polygon''"
  shows "\<exists>dm' shape'. midpoint_dragend X e dm = Returned dm' \<and>
           obj_path dm' (sh_obj shape) = Some (insertAt (e + 1) v p) \<and>
           map_of (shapes dm') X = Some shape' \<and>
           sh_path shape' = Some (insertAt (e + 1) v p) \<and>
           sh_area shape' = calculatePolygonArea (insertAt (e + 1) v p) \<and>
           (\<exists>vs. map_of (vertexMarkers dm') X = Some vs \<and> length vs = length p + 1) \<and>
           (\<exists>ms. map_of (midpointMarkers dm') X = Some ms \<and> length ms = length p + 1 \<and>
                 list_all (\<lambda>m. insertedIndex m = None) ms) \<and>
           events dm' = events dm @ [ShapeUpdated (serialize shape'), SnapActive False None]"
proof -
  let ?q = "insertAt (e + 1) v p"
  from inv obtain ms where sh: "map_of (shapes dm) X = Some shape"
    and ms: "map_of (midpointMarkers dm) X = Some ms" and e: "e < length ms"
    and path: "obj_path dm (sh_obj shape) = Some ?q"
    by (auto simp add: midpoint_dragging_def split: option.splits)
  have path0: "obj_path (removeMarkers X dm) (sh_obj shape) = Some ?q"
    using path by (simp add: removeMarkers_fields)
  from createVertexMarkers_result [OF path0] sid poly obtain dm1 vs mids where
    cv: "createVertexMarkers shape (removeMarkers X dm) = Returned dm1"
    and f1: "shapes dm1 = shapes dm" "events dm1 = events dm" "heap dm1 = heap dm"
            "selectedShapeId dm1 = selectedShapeId dm"
    and vs: "map_of (vertexMarkers dm1) X = Some vs" "length vs = length ?q"
    and mids: "map_of (midpointMarkers dm1) X = Some mids" "length mids = length ?q"
              "list_all (\<lambda>m. insertedIndex m = None) mids"
    by (auto simp add: removeMarkers_fields)
  define dm2 where "dm2 = (if selectedShapeId dm = Some X then showMarkers X dm1 else dm1)"
  have f2: "shapes dm2 = shapes dm" "events dm2 = events dm" "heap dm2 = heap dm"
    using f1 by (simp_all add: dm2_def showMarkers_fields)
  have vs2: "\<exists>vs. map_of (vertexMarkers dm2) X = Some vs \<and> length vs = length ?q"
    using vs by (simp add: dm2_def showMarkers_fields)
  have mids2: "\<exists>ms. map_of (midpointMarkers dm2) X = Some ms \<and> length ms = length ?q \<and>
                 list_all (\<lambda>m. insertedIndex m = None) ms"
    using mids by (simp add: dm2_def showMarkers_fields list_all_iff)
  have path2: "obj_path dm2 (sh_obj shape) = Some ?q"
    using path f2 by (simp add: obj_path_def)
  have sh2: "map_of (shapes dm2) X = Some shape" using sh f2 by simp
  from updateShapeData_result [OF path2 sh2 sid] obtain dm3 shape' where
    us: "updateShapeData shape dm2 = Returned dm3"
    and sh3: "map_of (shapes dm3) X = Some shape'"
    and geo: "sh_geo shape' = setPath ?q (sh_geo shape)"
    and area: "sh_area shape' = (if sh_type shape = ''polygon'' then calculatePolygonArea ?q
                             else sh_area shape)"
    and ev3: "events dm3 = events dm2 @ [ShapeUpdated (serialize shape')]"
    and f3: "heap dm3 = heap dm2" "vertexMarkers dm3 = vertexMarkers dm2"
            "midpointMarkers dm3 = midpointMarkers dm2"
    by blast
  define dm' where "dm' = emit (SnapActive False None) (dm3\<lparr>snapEngine := hideIndicator (snapEngine dm3)\<rparr>)"
  have rb: "rebuildMarkers shape dm = Returned dm3"
    using cv us sid
    by (cases "selectedShapeId dm = Some X") (simp_all add: rebuildMarkers_def Let_def dm2_def)
  have run: "midpoint_dragend X e dm = Returned dm'"
    using sh ms e rb by (simp add: midpoint_dragend_def dm'_def)
  have c1: "obj_path dm' (sh_obj shape) = Some ?q"
    using path2 f3 by (simp add: dm'_def emit_fields obj_path_def)
  have c2: "map_of (shapes dm') X = Some shape'"
    using sh3 by (simp add: dm'_def emit_fields)
  have c3: "sh_path shape' = Some ?q"
    using geo poly by (simp add: sh_path_def sh_type_def getPath_setPath)
  have c4: "sh_area shape' = calculatePolygonArea ?q" using area poly by simp
  have c5: "\<exists>vs. map_of (vertexMarkers dm') X = Some vs \<and> length vs = length p + 1"
    using vs2 f3 by (simp add: dm'_def emit_fields length_insertAt)
  have c6: "\<exists>ms. map_of (midpointMarkers dm') X = Some ms \<and> length ms = length p + 1 \<and>
                 list_all (\<lambda>m. insertedIndex m = None) ms"
    using mids2 f3 by (simp add: dm'_def emit_fields length_insertAt)
  have c7: "events dm' = events dm @ [ShapeUpdated (serialize shape'), SnapActive False None]"
    using ev3 f2 by (simp add: dm'_def emit_def)
  from run c1 c2 c3 c4 c5 c6 c7 show ?thesis by blast
qed

section \<open>Editing: the vertex gesture\<close>

lemma midpoint_gesture_result:
  assumes sh: "map_of (shapes dm) X = Some shape" and sid: "sh_id shape = X"
      and poly: "sh_type shape = ''polygon''"
      and path: "obj_path dm (sh_obj shape) = Some p"
      and ms: "map_of (midpointMarkers dm) X = Some ms" and e: "e < length ms"
      and room: "e + 1 \<le> length p"
      and ok: "registry_ok (heap dm) (snapEngine dm)"
  shows "\<exists>v dm' shape' evs.
           midpoint_gesture X e moves (h, dm) = Returned (h, dm') \<and>
           obj_path dm' (sh_obj shape) = Some (insertAt (e + 1) v p) \<and>
           (moves = [] \<longrightarrow> v = m_position (ms ! e)) \<and>
           map_of (shapes dm') X = Some shape' \<and>
           sh_path shape' = Some (insertAt (e + 1) v p) \<and>
           sh_area shape' = calculatePolygonArea (insertAt (e + 1) v p) \<and>
           (\<exists>vs. map_of (vertexMarkers dm') X = Some vs \<and> length vs = length p + 1) \<and>
           (\<exists>ms'. map_of (midpointMarkers dm') X = Some ms' \<and> length ms' = length p + 1) \<and>
           events dm' = events dm @ evs @ [ShapeUpdated (serialize shape'), SnapActive False None] \<and>
           list_all snap_active evs"
proof -
  from midpoint_dragstart_result [OF sh ms e path room ok] obtain dm1 where
    start: "midpoint_dragstart X e dm = Returned dm1"
    and inv1: "midpoint_dragging X e shape p (m_position (ms ! e)) dm1"
    and ev1: "events dm1 = events dm"
    by blast
  from midpoint_drag_moves [OF inv1, of moves] obtain v dm2 evs where
    drags: "drag_moves (midpoint_drag X e) moves dm1 = Returned dm2"
    and inv2: "midpoint_dragging X e shape p v dm2"
    and ev2: "events dm2 = events dm1 @ evs" and sa: "list_all snap_active evs"
    and v: "moves = [] \<longrightarrow> v = m_position (ms ! e)"
    by blast
  from midpoint_dragend_result [OF inv2 sid poly] obtain dm' shape' where
    finish: "midpoint_dragend X e dm2 = Returned dm'"
    and c1: "obj_path dm' (sh_obj shape) = Some (insertAt (e + 1) v p)"
    and c2: "map_of (shapes dm') X = Some shape'"
    and c3: "sh_path shape' = Some (insertAt (e + 1) v p)"
    and c4: "sh_area shape' = calculatePolygonArea (insertAt (e + 1) v p)"
    and c5: "\<exists>vs. map_of (vertexMarkers dm') X = Some vs \<and> length vs = length p + 1"
    and c6: "\<exists>ms. map_of (midpointMarkers dm') X = Some ms \<and> length ms = length p + 1 \<and>
                 list_all (\<lambda>m. insertedIndex m = None) ms"
    and ev3: "events dm' = events dm2 @ [ShapeUpdated (serialize shape'), SnapActive False None]"
    by blast
  have run: "midpoint_gesture X e moves (h, dm) = Returned (h, dm')"
    using start drags finish by (simp add: midpoint_gesture_def on_manager_def)
  have ev: "events dm' = events dm @ evs @ [ShapeUpdated (serialize shape'), SnapActive False None]"
    using ev1 ev2 ev3 by simp
  from c6 have c6': "\<exists>ms'. map_of (midpointMarkers dm') X = Some ms' \<and> length ms' = length p + 1"
    by blast
  from run c1 v c2 c3 c4 c5 c6' ev sa show ?thesis by blast
qed

lemma fst_on_manager: "fst (world_of (on_manager f (h, dm))) = h"
  by (cases "f dm") (simp_all add: on_manager_def)

lemma vertex_drag_step:
  assumes inv: "vertex_dragging X idx shape n dm" and sid: "sh_id shape = X"
      and path: "obj_path dm (sh_obj shape) = Some q"
  shows "\<exists>dm' snap engine a b.
           vertex_drag X idx latLng dm = Returned dm' \<and>
           dragSnap dm X latLng = Inr (snap, engine) \<and>
           obj_path dm' (sh_obj shape) =
             Some (setAt idx (case snap of Some sn \<Rightarrow> snap_point sn | None \<Rightarrow> latLng) q) \<and>
           vertex_dragging X idx shape n dm' \<and>
           events dm' = events dm @ [SnapActive a b]"
proof -
  from inv path obtain ms where sh: "map_of (shapes dm) X = Some shape"
    and ms: "map_of (vertexMarkers dm) X = Some ms" and idx: "idx < length ms"
    and mids: "case map_of (midpointMarkers dm) X of None \<Rightarrow> True | Some mids \<Rightarrow> length mids \<le> n"
    and len: "length q = n" and idxn: "idx < n"
    and ok: "registry_ok (heap dm) (snapEngine dm)"
    by (auto simp add: vertex_dragging_def split: option.splits)
  from dragSnap_ok [OF ok, of X latLng] obtain snap engine where
    snap: "dragSnap dm X latLng = Inr (snap, engine)"
    and reg: "se_shapes engine = se_shapes (snapEngine dm)"
    by blast
  define target where "target = (case snap of Some sn \<Rightarrow> snap_point sn | None \<Rightarrow> latLng)"
  define ms' where "ms' = ms[idx := (ms ! idx)\<lparr>m_position := target\<rparr>]"
  define dm1 where "dm1 = dm\<lparr>snapEngine := engine,
                              vertexMarkers := AList.update X ms' (vertexMarkers dm)\<rparr>"
  define dm2 where "dm2 = set_obj_path (sh_obj shape) (setAt idx target q) dm1"
  define dm3 where "dm3 = (case snap of
      Some sn \<Rightarrow> emit (SnapActive True (Some (snap_point sn))) dm2
    | None \<Rightarrow> emit (SnapActive False None) (dm2\<lparr>snapEngine := hideIndicator (snapEngine dm2)\<rparr>))"
  have run: "vertex_drag X idx latLng dm = updateMidpointPositions shape dm3"
    using sh ms idx snap path
    by (cases snap)
       (simp_all add: vertex_drag_def Let_def dm3_def dm2_def dm1_def ms'_def target_def)
  have p1: "obj_path dm1 (sh_obj shape) = Some q"
    using path by (simp add: dm1_def obj_path_def)
  have p2: "obj_path dm2 (sh_obj shape) = Some (setAt idx target q)"
    unfolding dm2_def by (rule obj_path_set [OF p1])
  have s2: "shapes dm2 = shapes dm" "vertexMarkers dm2 = AList.update X ms' (vertexMarkers dm)"
    "midpointMarkers dm2 = midpointMarkers dm" "snapEngine dm2 = engine" "events dm2 = events dm"
    by (simp_all add: dm2_def dm1_def set_obj_path_fields)
  have ok1: "registry_ok (heap dm1) engine"
    using ok reg by (simp add: dm1_def registry_ok_def)
  have ok2: "registry_ok (heap dm2) engine"
    using ok1 by (simp add: dm2_def registry_ok_set_obj_path)
  have p3: "obj_path dm3 (sh_obj shape) = Some (setAt idx target q)"
    using p2 by (cases snap) (simp_all add: dm3_def emit_fields obj_path_updates)
  have s3: "shapes dm3 = shapes dm" "vertexMarkers dm3 = AList.update X ms' (vertexMarkers dm)"
    "midpointMarkers dm3 = midpointMarkers dm" "heap dm3 = heap dm2"
    using s2 by (cases snap; simp add: dm3_def emit_fields)+
  have ok3: "registry_ok (heap dm3) (snapEngine dm3)"
    using ok2 s2 by (cases snap) (simp_all add: dm3_def emit_fields registry_ok_hide)
  have ev3: "\<exists>a b. events dm3 = events dm @ [SnapActive a b]"
    using s2 by (cases snap) (auto simp add: dm3_def emit_fields emit_def)
  have len3: "length (setAt idx target q) = n"
    using len idxn by (simp add: length_setAt)
  obtain dm' where upd: "updateMidpointPositions shape dm3 = Returned dm'"
    and f': "shapes dm' = shapes dm3" "vertexMarkers dm' = vertexMarkers dm3"
            "heap dm' = heap dm3" "snapEngine dm' = snapEngine dm3" "events dm' = events dm3"
    and mids': "case map_of (midpointMarkers dm') X of None \<Rightarrow> True | Some m \<Rightarrow> length m \<le> n"
  proof (cases "map_of (midpointMarkers dm) X")
    case None
    then have "updateMidpointPositions shape dm3 = Returned dm3"
      using p3 s3 sid by (simp add: updateMidpointPositions_def)
    with None s3 that [of dm3] show ?thesis by simp
  next
    case (Some m)
    with mids have le: "length m \<le> n" by simp
    let ?dm = "dm3\<lparr>midpointMarkers :=
                  AList.update X
                    (map (\<lambda>i. (m ! i)\<lparr>m_position :=
                         midpoint (setAt idx target q ! i)
                           (setAt idx target q ! ((i + 1) mod length (setAt idx target q)))\<rparr>)
                       [0..<length m])
                    (midpointMarkers dm3)\<rparr>"
    have "updateMidpointPositions shape dm3 = Returned ?dm"
      using p3 s3 sid Some le len3 by (simp add: updateMidpointPositions_def)
    moreover have "case map_of (midpointMarkers ?dm) X of None \<Rightarrow> True | Some m \<Rightarrow> length m \<le> n"
      using le by (simp add: update_conv')
    ultimately show ?thesis using that [of ?dm] by simp
  qed
  have p': "obj_path dm' (sh_obj shape) = Some (setAt idx target q)"
    using p3 f' by (simp add: obj_path_def)
  have "vertex_dragging X idx shape n dm'"
    using sh f' s3 mids' p' len3 idxn ok3 idx
    by (simp add: vertex_dragging_def update_conv' ms'_def)
  moreover from ev3 f' have "\<exists>a b. events dm' = events dm @ [SnapActive a b]" by simp
  ultimately show ?thesis
    using run upd snap p' unfolding target_def by auto
qed

lemma vertex_dragend_result:
  assumes sh: "map_of (shapes dm) X = Some shape" and sid: "sh_id shape = X"
      and line: "sh_type shape = ''polygon'' \<or> sh_type shape = ''polyline''"
      and ms: "map_of (vertexMarkers dm) X = Some ms" and idx: "idx < length ms"
      and path: "obj_path dm (sh_obj shape) = Some q"
  shows "\<exists>dm' shape'. vertex_dragend X idx dm = Returned dm' \<and>
           map_of (shapes dm') X = Some shape' \<and> sh_path shape' = Some q \<and>
           sh_area shape' = (if sh_type shape = ''polygon'' then calculatePolygonArea q
                             else sh_area shape) \<and>
           events dm' = events dm @ [ShapeUpdated (serialize shape'), SnapActive False None]"
proof -
  from updateShapeData_result [OF path sh sid] obtain dm1 shape' where
    us: "updateShapeData shape dm = Returned dm1"
    and sh1: "map_of (shapes dm1) X = Some shape'"
    and geo: "sh_geo shape' = setPath q (sh_geo shape)"
    and area: "sh_area shape' = (if sh_type shape = ''polygon'' then calculatePolygonArea q
                             else sh_area shape)"
    and ev1: "events dm1 = events dm @ [ShapeUpdated (serialize shape')]"
    by blast
  define dm' where "dm' = emit (SnapActive False None) (dm1\<lparr>snapEngine := hideIndicator (snapEngine dm1)\<rparr>)"
  have run: "vertex_dragend X idx dm = Returned dm'"
    using sh ms idx us by (simp add: vertex_dragend_def dm'_def)
  have "map_of (shapes dm') X = Some shape'" using sh1 by (simp add: dm'_def emit_fields)
  moreover have "sh_path shape' = Some q"
    using geo line by (simp add: sh_path_def sh_type_def getPath_setPath)
  moreover have "events dm' = events dm @ [ShapeUpdated (serialize shape'), SnapActive False None]"
    using ev1 by (simp add: dm'_def emit_def)
  ultimately show ?thesis using run area by blast
qed

lemma vertex_dragging_path:
  "vertex_dragging X idx shape n dm \<Longrightarrow> \<exists>q. obj_path dm (sh_obj shape) = Some q \<and> length q = n"
  by (auto simp add: vertex_dragging_def split: option.splits)

lemma vertex_drag_moves:
  assumes "vertex_dragging X idx shape n dm" and sid: "sh_id shape = X"
  shows "\<exists>dm' evs. drag_moves (vertex_drag X idx) moves dm = Returned dm' \<and>
           vertex_dragging X idx shape n dm' \<and>
           events dm' = events dm @ evs \<and> list_all snap_active evs \<and>
           (moves = [] \<longrightarrow> dm' = dm)"
  using assms(1)
proof (induction moves arbitrary: dm)
  case Nil
  then show ?case by auto
next
  case (Cons latLng moves)
  from vertex_dragging_path [OF Cons.prems] obtain q where
    q: "obj_path dm (sh_obj shape) = Some q" by blast
  from vertex_drag_step [OF Cons.prems sid q, of latLng] obtain dm1 a b where
    step: "vertex_drag X idx latLng dm = Returned dm1"
    and inv1: "vertex_dragging X idx shape n dm1"
    and ev1: "events dm1 = events dm @ [SnapActive a b]"
    by blast
  from Cons.IH [OF inv1] obtain dm' evs where
    rest: "drag_moves (vertex_drag X idx) moves dm1 = Returned dm'"
    and inv': "vertex_dragging X idx shape n dm'"
    and ev': "events dm' = events dm1 @ evs" and sa: "list_all snap_active evs"
    by blast
  have "drag_moves (vertex_drag X idx) (latLng # moves) dm = Returned dm'"
    using step rest by simp
  moreover have "events dm' = events dm @ (SnapActive a b # evs)"
    using ev1 ev' by simp
  moreover have "list_all snap_active (SnapActive a b # evs)" using sa by simp
  moreover have "latLng # moves = [] \<longrightarrow> dm' = dm" by simp
  ultimately show ?case using inv' by blast
qed

lemma vertex_gesture_result:
  assumes sh: "map_of (shapes dm) X = Some shape" and sid: "sh_id shape = X"
      and line: "sh_type shape = ''polygon'' \<or> sh_type shape = ''polyline''"
      and ms: "map_of (vertexMarkers dm) X = Some ms" and idx: "idx < length ms"
      and path: "obj_path dm (sh_obj shape) = Some p" and idxp: "idx < length p"
      and mids: "map_of (midpointMarkers dm) X = Some mids" and le: "length mids \<le> length p"
      and ok: "registry_ok (heap dm) (snapEngine dm)"
  shows "\<exists>dm' shape' q evs.
           vertex_gesture X idx moves (h, dm) = Returned (h, dm') \<and>
           obj_path dm' (sh_obj shape) = Some q \<and> length q = length p \<and>
           (moves = [] \<longrightarrow> q = p) \<and>
           map_of (shapes dm') X = Some shape' \<and> sh_path shape' = Some q \<and>
           sh_area shape' = (if sh_type shape = ''polygon'' then calculatePolygonArea q
                             else sh_area shape) \<and>
           events dm' = events dm @ evs @ [ShapeUpdated (serialize shape'), SnapActive False None] \<and>
           list_all snap_active evs"
proof -
  have inv: "vertex_dragging X idx shape (length p) dm"
    using sh ms idx path idxp mids le ok by (simp add: vertex_dragging_def)
  from vertex_drag_moves [OF inv sid, of moves] obtain dm1 evs where
    drags: "drag_moves (vertex_drag X idx) moves dm = Returned dm1"
    and inv1: "vertex_dragging X idx shape (length p) dm1"
    and ev1: "events dm1 = events dm @ evs" and sa: "list_all snap_active evs"
    and same: "moves = [] \<longrightarrow> dm1 = dm"
    by blast
  from inv1 obtain q ms1 where sh1: "map_of (shapes dm1) X = Some shape"
    and ms1: "map_of (vertexMarkers dm1) X = Some ms1" and idx1: "idx < length ms1"
    and q: "obj_path dm1 (sh_obj shape) = Some q" and lq: "length q = length p"
    by (auto simp add: vertex_dragging_def split: option.splits)
  from vertex_dragend_result [OF sh1 sid line ms1 idx1 q] obtain dm' shape' where
    finish: "vertex_dragend X idx dm1 = Returned dm'"
    and c2: "map_of (shapes dm') X = Some shape'" and c3: "sh_path shape' = Some q"
    and c4: "sh_area shape' = (if sh_type shape = ''polygon'' then calculatePolygonArea q
                             else sh_area shape)"
    and ev2: "events dm' = events dm1 @ [ShapeUpdated (serialize shape'), SnapActive False None]"
    by blast
  have hp: "heap dm' = heap dm1"
  proof -
    from updateShapeData_result [OF q sh1 sid] obtain d s where
      "updateShapeData shape dm1 = Returned d" "heap d = heap dm1" by blast
    with finish sh1 ms1 idx1 show ?thesis
      by (auto simp add: vertex_dragend_def emit_def)
  qed
  have c1: "obj_path dm' (sh_obj shape) = Some q" using q hp by (simp add: obj_path_def)
  have run: "vertex_gesture X idx moves (h, dm) = Returned (h, dm')"
    using drags finish by (simp add: vertex_gesture_def on_manager_def)
  have ev: "events dm' = events dm @ evs @ [ShapeUpdated (serialize shape'), SnapActive False None]"
    using ev1 ev2 by simp
  have qp: "moves = [] \<longrightarrow> q = p" using same q path by auto
  from run c1 lq qp c2 c3 c4 ev sa show ?thesis by blast
qed

text \<open>
  The midpoint gesture. For a registered polygon whose overlay has 3 vertices, with a
  well-formed SnapEngine registry, the gesture on the midpoint handle \<open>e\<close> (\<open>dragstart\<close>,
  the \<open>drag\<close> events at \<open>moves\<close>, \<open>dragend\<close>) returns; the path of the overlay and the
  stored path of the shape are the old path with one vertex inserted at \<open>e + 1\<close>, 4
  vertices; the shape has 4 vertex and 4 midpoint handles; one \<open>shape:updated\<close> is
  emitted, after the \<open>snap:active\<close> events of the moves. The history manager is the one
  the gesture started with.
\<close>

theorem midpoint_gesture_inserts_vertex:
  assumes "map_of (shapes dm) X = Some shape" and "sh_id shape = X"
      and "sh_type shape = ''polygon''"
      and "obj_path dm (sh_obj shape) = Some p" and "length p = 3"
      and "map_of (midpointMarkers dm) X = Some ms" and "e < length ms" and "e < 3"
      and "registry_ok (heap dm) (snapEngine dm)"
  shows "\<exists>v dm' shape' evs.
           midpoint_gesture X e moves (h, dm) = Returned (h, dm') \<and>
           obj_path dm' (sh_obj shape) = Some (take (e + 1) p @ [v] @ drop (e + 1) p) \<and>
           length (take (e + 1) p @ [v] @ drop (e + 1) p) = 4 \<and>
           (moves = [] \<longrightarrow> v = m_position (ms ! e)) \<and>
           map_of (shapes dm') X = Some shape' \<and>
           sh_path shape' = Some (take (e + 1) p @ [v] @ drop (e + 1) p) \<and>
           (\<exists>vs. map_of (vertexMarkers dm') X = Some vs \<and> length vs = 4) \<and>
           (\<exists>ms'. map_of (midpointMarkers dm') X = Some ms' \<and> length ms' = 4) \<and>
           events dm' = events dm @ evs @ [ShapeUpdated (serialize shape'), SnapActive False None] \<and>
           list_all snap_active evs"
proof -
  have room: "e + 1 \<le> length p" using assms(5,8) by simp
  from midpoint_gesture_result [OF assms(1-4,6,7) room assms(9), of moves h]
  obtain v dm' shape' evs where
    "midpoint_gesture X e moves (h, dm) = Returned (h, dm')"
    "obj_path dm' (sh_obj shape) = Some (insertAt (e + 1) v p)"
    "moves = [] \<longrightarrow> v = m_position (ms ! e)"
    "map_of (shapes dm') X = Some shape'"
    "sh_path shape' = Some (insertAt (e + 1) v p)"
    "\<exists>vs. map_of (vertexMarkers dm') X = Some vs \<and> length vs = length p + 1"
    "\<exists>ms'. map_of (midpointMarkers dm') X = Some ms' \<and> length ms' = length p + 1"
    "events dm' = events dm @ evs @ [ShapeUpdated (serialize shape'), SnapActive False None]"
    "list_all snap_active evs"
    by blast
  moreover have "length (take (e + 1) p @ [v] @ drop (e + 1) p) = 4"
    using assms(5) room by simp
  ultimately show ?thesis
    unfolding insertAt_def using assms(5) by (intro exI [of _ v] exI [of _ dm'] exI [of _ shape'] exI [of _ evs]) simp
qed

text \<open>
  The vertex gesture. For a registered polygon or polyline with its handles and a
  well-formed SnapEngine registry, \<open>dragend\<close> of a vertex handle returns, stores the
  overlay's path in the shape, computes the area of a polygon again and emits
  \<open>shape:updated\<close>; so does the whole gesture after any \<open>drag\<close> events. The history
  manager is the same after \<open>dragend\<close>, after the whole gesture and after every single
  \<open>drag\<close>.
\<close>

theorem vertex_dragend_recomputes:
  assumes "map_of (shapes dm) X = Some shape" and "sh_id shape = X"
      and "sh_type shape = ''polygon'' \<or> sh_type shape = ''polyline''"
      and "map_of (vertexMarkers dm) X = Some ms" and "idx < length ms"
      and "obj_path dm (sh_obj shape) = Some p" and "idx < length p"
      and "map_of (midpointMarkers dm) X = Some mids" and "length mids \<le> length p"
      and "registry_ok (heap dm) (snapEngine dm)"
  shows "(\<exists>dm' shape'.
            on_manager (vertex_dragend X idx) (h, dm) = Returned (h, dm') \<and>
            map_of (shapes dm') X = Some shape' \<and> sh_path shape' = Some p \<and>
            sh_area shape' = (if sh_type shape = ''polygon'' then calculatePolygonArea p
                              else sh_area shape) \<and>
            events dm' = events dm @ [ShapeUpdated (serialize shape'), SnapActive False None]) \<and>
         (\<exists>dm' shape' q evs.
            vertex_gesture X idx moves (h, dm) = Returned (h, dm') \<and>
            obj_path dm' (sh_obj shape) = Some q \<and> length q = length p \<and>
            map_of (shapes dm') X = Some shape' \<and> sh_path shape' = Some q \<and>
            sh_area shape' = (if sh_type shape = ''polygon'' then calculatePolygonArea q
                              else sh_area shape) \<and>
            events dm' = events dm @ evs @ [ShapeUpdated (serialize shape'), SnapActive False None] \<and>
            list_all snap_active evs) \<and>
         fst (world_of (on_manager (vertex_drag X idx latLng) (h, dm))) = h"
proof -
  from vertex_dragend_result [OF assms(1-6)] have a: "\<exists>dm' shape'.
            on_manager (vertex_dragend X idx) (h, dm) = Returned (h, dm') \<and>
            map_of (shapes dm') X = Some shape' \<and> sh_path shape' = Some p \<and>
            sh_area shape' = (if sh_type shape = ''polygon'' then calculatePolygonArea p
                              else sh_area shape) \<and>
            events dm' = events dm @ [ShapeUpdated (serialize shape'), SnapActive False None]"
    by (auto simp add: on_manager_def)
  from vertex_gesture_result [OF assms, of moves h] have b: "\<exists>dm' shape' q evs.
            vertex_gesture X idx moves (h, dm) = Returned (h, dm') \<and>
            obj_path dm' (sh_obj shape) = Some q \<and> length q = length p \<and>
            map_of (shapes dm') X = Some shape' \<and> sh_path shape' = Some q \<and>
            sh_area shape' = (if sh_type shape = ''polygon'' then calculatePolygonArea q
                              else sh_area shape) \<and>
            events dm' = events dm @ evs @ [ShapeUpdated (serialize shape'), SnapActive False None] \<and>
            list_all snap_active evs"
    by blast
  from a b fst_on_manager [of "vertex_drag X idx latLng" h dm] show ?thesis by blast
qed

text \<open>
  Claim C4. With \<open>excludeShapeId = X\<close>, no edge that \<open>_getAllEdges\<close> returns belongs to
  the shape registered as \<open>X\<close>, and the edge of a result of \<open>findSnapPoint\<close> is one of
  these edges. The \<open>drag\<close> listener of a vertex handle of \<open>X\<close> looks up the snap with
  \<open>X\<close> excluded, so a snap it finds is on an edge of another shape, and it moves the
  vertex to that snap point, or to the cursor when there is none.
\<close>

theorem excluded_shape_never_snapped:
  "(getAllEdges st engine (Some X) = Inr edges \<longrightarrow>
      (\<forall>edge\<in>set edges. edge_shapeId edge \<noteq> X)) \<and>
   (findSnapPoint st engine point (Some X) = Inr (Some snap, engine') \<longrightarrow>
      edge_shapeId (snap_edge snap) \<noteq> X \<and>
      (\<exists>es. getAllEdges st engine (Some X) = Inr es \<and> snap_edge snap \<in> set es)) \<and>
   (dragSnap dm X point = Inr (Some snap, engine') \<longrightarrow> edge_shapeId (snap_edge snap) \<noteq> X) \<and>
   (vertex_dragging X idx shape n dm \<and> sh_id shape = X \<and>
    obj_path dm (sh_obj shape) = Some q \<longrightarrow>
      (\<exists>dm' sn engine1.
         vertex_drag X idx point dm = Returned dm' \<and>
         dragSnap dm X point = Inr (sn, engine1) \<and>
         obj_path dm' (sh_obj shape) =
           Some (setAt idx (case sn of Some s \<Rightarrow> snap_point s | None \<Rightarrow> point) q)))"
proof -
  have a: "getAllEdges st engine (Some X) = Inr edges \<longrightarrow>
      (\<forall>edge\<in>set edges. edge_shapeId edge \<noteq> X)"
    using getAllEdges_excluded by blast
  have b: "findSnapPoint st engine point (Some X) = Inr (Some snap, engine') \<longrightarrow>
      edge_shapeId (snap_edge snap) \<noteq> X \<and>
      (\<exists>es. getAllEdges st engine (Some X) = Inr es \<and> snap_edge snap \<in> set es)"
    using findSnapPoint_excluded findSnapPoint_edge by blast
  have c: "dragSnap dm X point = Inr (Some snap, engine') \<longrightarrow> edge_shapeId (snap_edge snap) \<noteq> X"
    using dragSnap_excluded by blast
  have d: "vertex_dragging X idx shape n dm \<and> sh_id shape = X \<and>
    obj_path dm (sh_obj shape) = Some q \<longrightarrow>
      (\<exists>dm' sn engine1.
         vertex_drag X idx point dm = Returned dm' \<and>
         dragSnap dm X point = Inr (sn, engine1) \<and>
         obj_path dm' (sh_obj shape) =
           Some (setAt idx (case sn of Some s \<Rightarrow> snap_point s | None \<Rightarrow> point) q))"
    using vertex_drag_step [of X idx shape n dm q point] by blast
  from a b c d show ?thesis by blast
qed

section \<open>Selection of an unknown id; undo and redo of a creation\<close>

lemma selectShape_selected: "selectedShapeId (selectShape j dm) = Some j"
  by (simp add: selectShape_def Let_def emit_fields showMarkers_fields setOptions_fields
      split: option.splits)

lemma createLabel_fields:
  "shapes (createLabel s dm) = shapes dm" "events (createLabel s dm) = events dm"
  "selectedShapeId (createLabel s dm) = selectedShapeId dm"
  by (simp_all add: createLabel_def)

lemma restoreShape_result:
  "\<exists>dm'. restoreShape d dm = Returned dm' \<and>
         selectedShapeId dm' = selectedShapeId dm \<and>
         map_of (shapes dm') (sh_id d) =
           Some \<lparr> sh_id = sh_id d, sh_name = sh_name d, sh_geo = sh_geo d, sh_area = sh_area d,
                  sh_obj = length (heap dm) \<rparr> \<and>
         (\<forall>j. j \<noteq> sh_id d \<longrightarrow> map_of (shapes dm') j = map_of (shapes dm) j)"
proof -
  define shape :: Shape where
    "shape = \<lparr> sh_id = sh_id d, sh_name = sh_name d, sh_geo = sh_geo d, sh_area = sh_area d,
               sh_obj = length (heap dm) \<rparr>"
  define dm2 where
    "dm2 = dm\<lparr>heap := heap dm @ [\<lparr> g_geom = sh_geo d,
                                     g_options = overlay_options (options dm) (sh_geo d),
                                     g_onMap = True \<rparr>],
              shapes := AList.update (sh_id d) shape (shapes dm),
              snapEngine := addShape (sh_id d) (sh_type d) (length (heap dm)) (snapEngine dm)\<rparr>"
  have unfold: "restoreShape d dm =
      and_then (if sh_type shape = ''polygon'' \<or> sh_type shape = ''polyline''
                then createVertexMarkers shape dm2 else Returned dm2)
        (\<lambda>dm3. Returned (emit (ShapeCreated (serialize shape)) (createLabel shape dm3)))"
    by (simp add: restoreShape_def alloc_def Let_def shape_def dm2_def)
  have sel2: "selectedShapeId dm2 = selectedShapeId dm"
    and reg2: "map_of (shapes dm2) (sh_id d) = Some shape"
    and other2: "\<And>j. j \<noteq> sh_id d \<Longrightarrow> map_of (shapes dm2) j = map_of (shapes dm) j"
    by (simp_all add: dm2_def update_conv')
  have "\<exists>dm3. (if sh_type shape = ''polygon'' \<or> sh_type shape = ''polyline''
                then createVertexMarkers shape dm2 else Returned dm2) = Returned dm3 \<and>
               shapes dm3 = shapes dm2 \<and> selectedShapeId dm3 = selectedShapeId dm2"
  proof (cases "sh_type shape = ''polygon'' \<or> sh_type shape = ''polyline''")
    case True
    then obtain q where "getPath (sh_geo d) = Some q"
      by (cases "sh_geo d") (simp_all add: sh_type_def shape_def)
    then have "obj_path dm2 (sh_obj shape) = Some q"
      by (simp add: obj_path_def deref_def dm2_def shape_def)
    from createVertexMarkers_result [OF this] True show ?thesis by auto
  next
    case False
    then show ?thesis by simp
  qed
  then obtain dm3 where
    r: "(if sh_type shape = ''polygon'' \<or> sh_type shape = ''polyline''
         then createVertexMarkers shape dm2 else Returned dm2) = Returned dm3"
    and sh3: "shapes dm3 = shapes dm2" and sel3: "selectedShapeId dm3 = selectedShapeId dm2"
    by blast
  have res: "restoreShape d dm = Returned (emit (ShapeCreated (serialize shape)) (createLabel shape dm3))"
    unfolding unfold r by simp
  show ?thesis
    unfolding res
    using sel2 reg2 other2 sh3 sel3
    by (simp add: emit_fields createLabel_fields shape_def)
qed

lemma dm_removeShape_fields:
  assumes "map_of (shapes dm) i = Some shape"
  shows "shapes (dm_removeShape i dm) = AList.delete i (shapes dm)"
    and "selectedShapeId (dm_removeShape i dm) =
           (if selectedShapeId dm = Some i then None else selectedShapeId dm)"
  using assms
  by (simp_all add: dm_removeShape_def Let_def emit_fields removeLabel_def removeMarkers_def
      update_obj_def)

lemma redo_returned:
  assumes can: "canRedo h"
    and a: "history_at h (currentIndex h + 1) = Some a"
    and cb: "redo_cb a w = Returned w1"
    and l: "onChange h = Some (\<lambda>st x. Returned (g st x))"
  shows "\<exists>st h'. redo (h, w) = (True, h', g st w1) \<and> history h' = history h \<and>
           currentIndex h' = currentIndex h + 1 \<and> onChange h' = onChange h"
  using assms
  by (auto simp add: redo_def Let_def notifyChange_def history_at_def canRedo_def split: if_splits)

lemma undo_returned:
  assumes can: "canUndo h"
    and a: "history_at h (currentIndex h) = Some a"
    and cb: "undo_cb a w = Returned w1"
    and l: "onChange h = Some (\<lambda>st x. Returned (g st x))"
  shows "\<exists>st h'. undo (h, w) = (True, h', g st w1) \<and> history h' = history h \<and>
           currentIndex h' = currentIndex h - 1 \<and> onChange h' = onChange h"
  using assms
  by (auto simp add: undo_def Let_def notifyChange_def history_at_def canUndo_def split: if_splits)

lemma dm_removeShape_registry:
  "map_of (shapes (dm_removeShape i dm)) i = None"
  "j \<noteq> i \<Longrightarrow> map_of (shapes (dm_removeShape i dm)) j = map_of (shapes dm) j"
proof -
  show "map_of (shapes (dm_removeShape i dm)) i = None"
  proof (cases "map_of (shapes dm) i")
    case None
    then show ?thesis by (simp add: dm_removeShape_def)
  next
    case (Some s)
    from dm_removeShape_fields(1) [OF Some] show ?thesis by (simp add: delete_conv)
  qed
  show "j \<noteq> i \<Longrightarrow> map_of (shapes (dm_removeShape i dm)) j = map_of (shapes dm) j"
  proof (cases "map_of (shapes dm) i")
    case None
    then show ?thesis by (simp add: dm_removeShape_def)
  next
    case (Some s)
    assume "j \<noteq> i"
    with dm_removeShape_fields(1) [OF Some] show ?thesis by (simp add: delete_conv)
  qed
qed

text \<open>
  \<open>undo()\<close> on a \<open>create\<close> entry removes the shape; \<open>redo()\<close> after it registers the
  shape again with the geometry of the snapshot taken when the shape was created.
\<close>

lemma undo_redo_create_entry:
  assumes can: "canUndo h"
    and a: "history_at h (currentIndex h) = Some a"
    and u: "undo_cb a = (\<lambda>w. Returned (dm_removeShape X w))"
    and r: "redo_cb a = restoreShape d"
    and d: "sh_id d = X"
    and l: "onChange h = Some (\<lambda>st x. Returned (emit (HistoryChange st) x))"
  shows "fst (undo (h, dm))"
    and "map_of (shapes (snd (snd (undo (h, dm))))) X = None"
    and "j \<noteq> X \<Longrightarrow> map_of (shapes (snd (snd (undo (h, dm))))) j = map_of (shapes dm) j"
    and "fst (redo (snd (undo (h, dm))))"
    and "map_option sh_geo (map_of (shapes (snd (snd (redo (snd (undo (h, dm))))))) X) =
           Some (sh_geo d)"
proof -
  have cb: "undo_cb a dm = Returned (dm_removeShape X dm)" by (simp add: u)
  from undo_returned [OF can a cb l] obtain st h' where
    un: "undo (h, dm) = (True, h', emit (HistoryChange st) (dm_removeShape X dm))"
    and hh: "history h' = history h" and ci: "currentIndex h' = currentIndex h - 1"
    and oc: "onChange h' = onChange h"
    by blast
  show "fst (undo (h, dm))" by (simp add: un)
  show "map_of (shapes (snd (snd (undo (h, dm))))) X = None"
    by (simp add: un emit_fields dm_removeShape_registry)
  show "j \<noteq> X \<Longrightarrow> map_of (shapes (snd (snd (undo (h, dm))))) j = map_of (shapes dm) j"
    by (simp add: un emit_fields dm_removeShape_registry)
  define w where "w = emit (HistoryChange st) (dm_removeShape X dm)"
  from restoreShape_result [of d w] obtain dm' where
    res: "restoreShape d w = Returned dm'"
    and reg: "map_of (shapes dm') (sh_id d) =
           Some \<lparr> sh_id = sh_id d, sh_name = sh_name d, sh_geo = sh_geo d, sh_area = sh_area d,
                  sh_obj = length (heap w) \<rparr>"
    by blast
  have can': "canRedo h'"
    using a by (auto simp add: canRedo_def hh ci history_at_def split: if_splits)
  have a': "history_at h' (currentIndex h' + 1) = Some a"
    using a by (auto simp add: history_at_def hh ci split: if_splits)
  have cb': "redo_cb a w = Returned dm'" by (simp add: r res)
  have l': "onChange h' = Some (\<lambda>st x. Returned (emit (HistoryChange st) x))"
    by (simp add: oc l)
  from redo_returned [OF can' a' cb' l'] obtain st' h'' where
    re: "redo (h', w) = (True, h'', emit (HistoryChange st') dm')"
    by blast
  show "fst (redo (snd (undo (h, dm))))"
    by (simp add: un re w_def [symmetric])
  show "map_option sh_geo (map_of (shapes (snd (snd (redo (snd (undo (h, dm))))))) X) =
           Some (sh_geo d)"
    using reg by (simp add: un re w_def [symmetric] emit_fields d)
qed

text \<open>
  Claim C10, as amended. \<open>selectShape(id)\<close> with an id that is not in the registry makes
  it the selected id all the same, emits nothing, and leaves the registry as it is, so
  the selected id names no shape. A shape selected before has the handles of its id
  hidden and its overlay given the completed style. Afterwards removing the selected id
  does nothing; another \<open>selectShape\<close> replaces the id; \<open>deselectShape()\<close> clears it when
  it is not the empty string and does nothing when it is; and \<open>_restoreShape\<close> of a
  snapshot with this id, which is what \<open>undo()\<close> and \<open>redo()\<close> call, returns with the id
  still selected and now naming the restored shape.
\<close>

theorem selectShape_unknown_id:
  assumes unknown: "map_of (shapes dm) i = None"
  shows "selectedShapeId (selectShape i dm) = Some i \<and>
         shapes (selectShape i dm) = shapes dm \<and>
         map_of (shapes (selectShape i dm)) i = None \<and>
         events (selectShape i dm) = events dm \<and>
         (selectedShapeId dm = Some prev \<and> prev \<noteq> [] \<and> prev \<noteq> i \<longrightarrow>
            map_of (vertexMarkers (selectShape i dm)) prev =
              map_option (map (\<lambda>m. m\<lparr>m_visible := False\<rparr>)) (map_of (vertexMarkers dm) prev) \<and>
            map_of (midpointMarkers (selectShape i dm)) prev =
              map_option (map (\<lambda>m. m\<lparr>m_visible := False\<rparr>)) (map_of (midpointMarkers dm) prev) \<and>
            (map_of (shapes dm) prev = Some p \<and> sh_obj p < length (heap dm) \<longrightarrow>
               g_options (heap (selectShape i dm) ! sh_obj p) =
                 g_options (heap dm ! sh_obj p) ++ style_completed (options dm))) \<and>
         dm_removeShape i (selectShape i dm) = selectShape i dm \<and>
         selectedShapeId (selectShape j (selectShape i dm)) = Some j \<and>
         (i \<noteq> [] \<longrightarrow> selectedShapeId (deselectShape (selectShape i dm)) = None) \<and>
         (i = [] \<longrightarrow> deselectShape (selectShape i dm) = selectShape i dm) \<and>
         (sh_id d = i \<longrightarrow>
            returned (restoreShape d (selectShape i dm)) \<and>
            selectedShapeId (world_of (restoreShape d (selectShape i dm))) = Some i \<and>
            map_option sh_id (map_of (shapes (world_of (restoreShape d (selectShape i dm)))) i) = Some i)"
proof -
  note sel = selectShape_unknown [OF unknown]
  have c1: "selectedShapeId (selectShape i dm) = Some i" by (simp add: sel)
  have c2: "shapes (selectShape i dm) = shapes dm"
    by (simp add: sel unselect_previous_fields)
  have c3: "map_of (shapes (selectShape i dm)) i = None" using c2 unknown by simp
  have c4: "events (selectShape i dm) = events dm"
    by (simp add: sel unselect_previous_fields)
  have c5: "selectedShapeId dm = Some prev \<and> prev \<noteq> [] \<and> prev \<noteq> i \<longrightarrow>
            map_of (vertexMarkers (selectShape i dm)) prev =
              map_option (map (\<lambda>m. m\<lparr>m_visible := False\<rparr>)) (map_of (vertexMarkers dm) prev) \<and>
            map_of (midpointMarkers (selectShape i dm)) prev =
              map_option (map (\<lambda>m. m\<lparr>m_visible := False\<rparr>)) (map_of (midpointMarkers dm) prev) \<and>
            (map_of (shapes dm) prev = Some p \<and> sh_obj p < length (heap dm) \<longrightarrow>
               g_options (heap (selectShape i dm) ! sh_obj p) =
                 g_options (heap dm ! sh_obj p) ++ style_completed (options dm))"
    by (simp add: sel truthy_def unselect_previous_effect)
  have c6: "dm_removeShape i (selectShape i dm) = selectShape i dm"
    using c3 by (simp add: dm_removeShape_def)
  have c7: "selectedShapeId (selectShape j (selectShape i dm)) = Some j"
    by (rule selectShape_selected)
  have c8: "i \<noteq> [] \<longrightarrow> selectedShapeId (deselectShape (selectShape i dm)) = None"
    using c1 by (simp add: deselectShape_def truthy_def emit_def)
  have c9: "i = [] \<longrightarrow> deselectShape (selectShape i dm) = selectShape i dm"
    by (simp add: deselectShape_def truthy_def selectShape_selected)
  have c10: "sh_id d = i \<longrightarrow>
            returned (restoreShape d (selectShape i dm)) \<and>
            selectedShapeId (world_of (restoreShape d (selectShape i dm))) = Some i \<and>
            map_option sh_id (map_of (shapes (world_of (restoreShape d (selectShape i dm)))) i) = Some i"
  proof
    assume d: "sh_id d = i"
    from restoreShape_result [of d "selectShape i dm"] obtain dm' where
      r: "restoreShape d (selectShape i dm) = Returned dm'"
      and s: "selectedShapeId dm' = selectedShapeId (selectShape i dm)"
      and g: "map_of (shapes dm') (sh_id d) =
           Some \<lparr> sh_id = sh_id d, sh_name = sh_name d, sh_geo = sh_geo d, sh_area = sh_area d,
                  sh_obj = length (heap (selectShape i dm)) \<rparr>"
      by blast
    from g have "map_option sh_id (map_of (shapes dm') i) = Some i" unfolding d by simp
    with r s c1 show "returned (restoreShape d (selectShape i dm)) \<and>
            selectedShapeId (world_of (restoreShape d (selectShape i dm))) = Some i \<and>
            map_option sh_id (map_of (shapes (world_of (restoreShape d (selectShape i dm)))) i) = Some i"
      by simp
  qed
  from c1 c2 c3 c4 c5 c6 c7 c8 c9 c10 show ?thesis by blast
qed


section \<open>The example sessions, evaluated\<close>

lemma ex_triangle_state:
  "shapes (snd ex_triangle) = [(''shape_1'', ex_shape1)]"
  "heap (snd ex_triangle) =
     [\<lparr> g_geom = PolygonGeom [\<lparr>lat = 0, lng = 0\<rparr>, \<lparr>lat = 0, lng = 10\<rparr>, \<lparr>lat = 10, lng = 0\<rparr>],
        g_options = default_completed(''editable'' \<mapsto> ''false'', ''clickable'' \<mapsto> ''true''),
        g_onMap = True \<rparr>]"
  "vertexMarkers (snd ex_triangle) =
     [(''shape_1'',
       [\<lparr>m_position = \<lparr>lat = 0, lng = 0\<rparr>, m_visible = False, m_onMap = True\<rparr>,
        \<lparr>m_position = \<lparr>lat = 0, lng = 10\<rparr>, m_visible = False, m_onMap = True\<rparr>,
        \<lparr>m_position = \<lparr>lat = 10, lng = 0\<rparr>, m_visible = False, m_onMap = True\<rparr>])]"
  "midpointMarkers (snd ex_triangle) =
     [(''shape_1'',
       [\<lparr>m_position = \<lparr>lat = 0, lng = 5\<rparr>, m_visible = False, m_onMap = True, insertedIndex = None\<rparr>,
        \<lparr>m_position = \<lparr>lat = 5, lng = 5\<rparr>, m_visible = False, m_onMap = True, insertedIndex = None\<rparr>,
        \<lparr>m_position = \<lparr>lat = 5, lng = 0\<rparr>, m_visible = False, m_onMap = True, insertedIndex = None\<rparr>])]"
  "se_shapes (snapEngine (snd ex_triangle)) =
     [(''shape_1'', \<lparr>ss_id = ''shape_1'', ss_type = ''polygon'', ss_obj = 0\<rparr>)]"
  "se_map (snapEngine (snd ex_triangle)) = Some ex_map"
  "enabled (snapEngine (snd ex_triangle))" "threshold (snapEngine (snd ex_triangle)) = 15"
  "snapMarker (snapEngine (snd ex_triangle)) = None"
  "selectedShapeId (snd ex_triangle) = None"
  "isDrawing (snd ex_triangle) = False" "drawingPath (snd ex_triangle) = []"
  "lastSnapPoint (snd ex_triangle) = None"
  "idCounter (snd ex_triangle) = 1" "shapeNameCounter (snd ex_triangle) = 1"
  "snapping_enabled (options (snd ex_triangle))"
  "style_completed (options (snd ex_triangle)) = default_completed"
  "style_selected (options (snd ex_triangle)) = default_selected"
  "map atype (history (fst ex_triangle)) = [''create'']"
  "currentIndex (fst ex_triangle) = 0" "maxSteps (fst ex_triangle) = 50"
  "onChange (fst ex_triangle) = Some (\<lambda>state dm. Returned (emit (HistoryChange state) dm))"
  by (simp_all add: ex_triangle_def complete_defs split_beta ex_three_points_fields
      ex_three_points_more ex_three_points_extra string_of_nat_1 upt_3 ex_shape1_def midpoint_def)

lemma string_of_nat_2: "string_of_nat (Suc (Suc 0)) = ''2''"
  by (subst string_of_nat.simps) (simp add: digit_char_def)

lemma ex_line_points_state:
  "isDrawing (snd ex_line_points)" "drawingType (snd ex_line_points) = Some ''polyline''"
  "drawingPath (snd ex_line_points) = [\<lparr>lat = 0, lng = 20\<rparr>, \<lparr>lat = 0, lng = 30\<rparr>]"
  "shapes (snd ex_line_points) = shapes (snd ex_triangle)"
  "heap (snd ex_line_points) = heap (snd ex_triangle)"
  "vertexMarkers (snd ex_line_points) = vertexMarkers (snd ex_triangle)"
  "midpointMarkers (snd ex_line_points) = midpointMarkers (snd ex_triangle)"
  "labels (snd ex_line_points) = labels (snd ex_triangle)"
  "snapEngine (snd ex_line_points) = snapEngine (snd ex_triangle)"
  "options (snd ex_line_points) = options (snd ex_triangle)"
  "idCounter (snd ex_line_points) = 1" "shapeNameCounter (snd ex_line_points) = 1"
  "selectedShapeId (snd ex_line_points) = None"
  "fst ex_line_points = fst ex_triangle"
  by (simp_all add: ex_line_points_def map_click_def handleDrawingClick_def split_beta
      addPreviewMarker_def updatePreviewLine_def startDrawing_def deselectShape_def truthy_def
      emit_def Let_def ex_triangle_state)

lemma ex_triangle_history_length: "length (history (fst ex_triangle)) = 1"
  using arg_cong [OF ex_triangle_state(19), of length] by simp

lemma ex_pair_state:
  "map_of (shapes (snd ex_pair)) ''shape_1'' = Some ex_shape1"
  "map fst (shapes (snd ex_pair)) = [''shape_1'', ''shape_2'']"
  "map g_geom (heap (snd ex_pair)) =
     [PolygonGeom [\<lparr>lat = 0, lng = 0\<rparr>, \<lparr>lat = 0, lng = 10\<rparr>, \<lparr>lat = 10, lng = 0\<rparr>],
      PolylineGeom [\<lparr>lat = 0, lng = 20\<rparr>, \<lparr>lat = 0, lng = 30\<rparr>]]"
  "map_of (vertexMarkers (snd ex_pair)) ''shape_1'' =
     Some [\<lparr>m_position = \<lparr>lat = 0, lng = 0\<rparr>, m_visible = False, m_onMap = True\<rparr>,
           \<lparr>m_position = \<lparr>lat = 0, lng = 10\<rparr>, m_visible = False, m_onMap = True\<rparr>,
           \<lparr>m_position = \<lparr>lat = 10, lng = 0\<rparr>, m_visible = False, m_onMap = True\<rparr>]"
  "map_option length (map_of (midpointMarkers (snd ex_pair)) ''shape_1'') = Some 3"
  "se_shapes (snapEngine (snd ex_pair)) =
     [(''shape_1'', \<lparr>ss_id = ''shape_1'', ss_type = ''polygon'', ss_obj = 0\<rparr>),
      (''shape_2'', \<lparr>ss_id = ''shape_2'', ss_type = ''polyline'', ss_obj = 1\<rparr>)]"
  "se_map (snapEngine (snd ex_pair)) = Some ex_map"
  "enabled (snapEngine (snd ex_pair))" "threshold (snapEngine (snd ex_pair)) = 15"
  "snapping_enabled (options (snd ex_pair))"
  "length (history (fst ex_pair)) = 2"
  by (simp_all add: ex_pair_def complete_defs split_beta ex_line_points_state
      ex_triangle_state ex_triangle_history_length string_of_nat_2 upt_2 slice0_def)

lemma ex_shape1_fields:
  "sh_id ex_shape1 = ''shape_1''" "sh_type ex_shape1 = ''polygon''" "sh_obj ex_shape1 = 0"
  by (simp_all add: ex_shape1_def sh_type_def)

lemma ex_triangle_more:
  "map_of (shapes (snd ex_triangle)) ''shape_1'' = Some ex_shape1"
  "obj_path (snd ex_triangle) 0 =
     Some [\<lparr>lat = 0, lng = 0\<rparr>, \<lparr>lat = 0, lng = 10\<rparr>, \<lparr>lat = 10, lng = 0\<rparr>]"
  "registry_ok (heap (snd ex_triangle)) (snapEngine (snd ex_triangle))"
  by (simp_all add: ex_triangle_state obj_path_def deref_def registry_ok_def shapeEdges_def)

lemma map_pair_eq: "map f xs = [a, b] \<Longrightarrow> length xs = 2 \<and> f (xs ! 0) = a \<and> f (xs ! 1) = b"
  by (cases xs; cases "tl xs") auto

lemma ex_pair_heap:
  "length (heap (snd ex_pair)) = 2"
  "g_geom (heap (snd ex_pair) ! 0) =
     PolygonGeom [\<lparr>lat = 0, lng = 0\<rparr>, \<lparr>lat = 0, lng = 10\<rparr>, \<lparr>lat = 10, lng = 0\<rparr>]"
  "g_geom (heap (snd ex_pair) ! Suc 0) = PolylineGeom [\<lparr>lat = 0, lng = 20\<rparr>, \<lparr>lat = 0, lng = 30\<rparr>]"
  using map_pair_eq [OF ex_pair_state(3)] by simp_all

lemma ex_pair_more:
  "obj_path (snd ex_pair) 0 =
     Some [\<lparr>lat = 0, lng = 0\<rparr>, \<lparr>lat = 0, lng = 10\<rparr>, \<lparr>lat = 10, lng = 0\<rparr>]"
  "registry_ok (heap (snd ex_pair)) (snapEngine (snd ex_pair))"
  "getAllEdges (heap (snd ex_pair)) (snapEngine (snd ex_pair)) (Some ''shape_1'') = Inr [ex_edge2]"
  by (simp_all add: ex_pair_state ex_pair_heap obj_path_def deref_def registry_ok_def
      shapeEdges_def getAllEdges_def polylineEdges_def ex_edge2_def)

lemma ex_distance2: "pixelDistance ex_projection 0 \<lparr>lat = 3, lng = 24\<rparr> ex_edge2 = 3"
  by (simp add: pixelDistance_def edgeProjected_def toPixel_def ex_projection_def ex_edge2_def
      projectPointToSegment_def Let_def power2_eq_square sqrt_9)

lemma ex_pair_dragSnap:
  "\<exists>sn engine1. dragSnap (snd ex_pair) ''shape_1'' \<lparr>lat = 3, lng = 24\<rparr> = Inr (Some sn, engine1) \<and>
     snap_edge sn = ex_edge2 \<and> snap_distance sn = 3"
proof -
  have zoom: "getZoom ex_map = 0" and pr: "getProjection ex_map = Some ex_projection"
    by (simp_all add: ex_map_def)
  have near: "\<exists>edge\<in>set [ex_edge2]. pixelDistance ex_projection (getZoom ex_map)
      \<lparr>lat = 3, lng = 24\<rparr> edge < threshold (snapEngine (snd ex_pair))"
    by (simp add: zoom ex_distance2 ex_pair_state)
  from findSnapPoint_near [OF ex_pair_state(8) ex_pair_state(7) pr ex_pair_more(3) near]
  obtain snap engine' i where
    res: "findSnapPoint (heap (snd ex_pair)) (snapEngine (snd ex_pair)) \<lparr>lat = 3, lng = 24\<rparr>
            (Some ''shape_1'') = Inr (Some snap, engine')"
    and i: "i < length [ex_edge2]" and e: "snap_edge snap = [ex_edge2] ! i"
    and d: "snap_distance snap = pixelDistance ex_projection (getZoom ex_map) \<lparr>lat = 3, lng = 24\<rparr>
              ([ex_edge2] ! i)"
    by blast
  from i e d have "snap_edge snap = ex_edge2" "snap_distance snap = 3"
    by (simp_all add: zoom ex_distance2)
  with res show ?thesis
    by (simp add: dragSnap_def ex_pair_state)
qed

lemma ex_pair_dragging:
  "vertex_dragging ''shape_1'' 1 ex_shape1 3 (snd ex_pair)"
proof -
  from ex_pair_state(5) obtain mids where
    "map_of (midpointMarkers (snd ex_pair)) ''shape_1'' = Some mids" "length mids = 3"
    by (cases "map_of (midpointMarkers (snd ex_pair)) ''shape_1''") auto
  then show ?thesis
    by (simp add: vertex_dragging_def ex_pair_state ex_pair_more ex_shape1_fields)
qed

lemma ex_triangle_history:
  "history (fst ex_triangle) =
     [\<lparr> atype = ''create'',
        undo_cb = (\<lambda>w. Returned (dm_removeShape ''shape_1'' w)),
        redo_cb = restoreShape (serialize ex_shape1) \<rparr>]"
  by (simp add: ex_triangle_def complete_defs split_beta ex_three_points_fields
      ex_three_points_more ex_three_points_extra string_of_nat_1 upt_3 ex_shape1_def midpoint_def)

lemma ex_undone_state:
  "fst (undo ex_triangle)"
  "history (fst ex_undone) = history (fst ex_triangle)"
  "currentIndex (fst ex_undone) = - 1"
  "onChange (fst ex_undone) = onChange (fst ex_triangle)"
  "shapes (snd ex_undone) = []"
  "selectedShapeId (snd ex_undone) = None"
proof -
  have reg: "map_of (shapes (snd ex_triangle)) ''shape_1'' = Some ex_shape1"
    by (simp add: ex_triangle_state)
  note rem = dm_removeShape_fields [OF reg]
  have u: "undo ex_triangle =
     (True,
      (fst ex_triangle)\<lparr>calls := calls (fst ex_triangle) @
           [UndoCall 0,
            ChangeCall (getState ((fst ex_triangle)\<lparr>calls := calls (fst ex_triangle) @ [UndoCall 0],
                                                   currentIndex := - 1\<rparr>))],
         currentIndex := - 1\<rparr>,
      emit (HistoryChange (getState ((fst ex_triangle)\<lparr>calls := calls (fst ex_triangle) @ [UndoCall 0],
                                                      currentIndex := - 1\<rparr>)))
        (dm_removeShape ''shape_1'' (snd ex_triangle)))"
    by (simp add: undo_def split_beta canUndo_def history_at_def notifyChange_def Let_def
        ex_triangle_state ex_triangle_history)
  show "fst (undo ex_triangle)" "history (fst ex_undone) = history (fst ex_triangle)"
    "currentIndex (fst ex_undone) = - 1" "onChange (fst ex_undone) = onChange (fst ex_triangle)"
    "shapes (snd ex_undone) = []" "selectedShapeId (snd ex_undone) = None"
    unfolding ex_undone_def u
    by (simp_all add: emit_fields rem ex_triangle_state)
qed

lemma ex_dangling_state:
  "map_of (shapes (snd ex_dangling)) ''shape_1'' = None"
  "selectedShapeId (snd ex_dangling) = Some ''shape_1''"
  "fst ex_dangling = fst ex_undone"
  by (simp_all add: ex_dangling_def selectShape_selected selectShape_def Let_def truthy_def
      ex_undone_state)

lemma ex_restore:
  "\<exists>dm'. restoreShape (serialize ex_shape1) (snd ex_dangling) = Returned dm' \<and>
         selectedShapeId dm' = Some ''shape_1'' \<and>
         map_option sh_id (map_of (shapes dm') ''shape_1'') = Some ''shape_1''"
proof -
  from restoreShape_result [of "serialize ex_shape1" "snd ex_dangling"]
  obtain dm' where r: "restoreShape (serialize ex_shape1) (snd ex_dangling) = Returned dm'"
    and sel: "selectedShapeId dm' = selectedShapeId (snd ex_dangling)"
    and reg: "map_of (shapes dm') (sh_id (serialize ex_shape1)) =
           Some \<lparr> sh_id = sh_id (serialize ex_shape1), sh_name = sh_name (serialize ex_shape1),
                  sh_geo = sh_geo (serialize ex_shape1), sh_area = sh_area (serialize ex_shape1),
                  sh_obj = length (heap (snd ex_dangling)) \<rparr>"
    by blast
  have i: "sh_id (serialize ex_shape1) = ''shape_1''"
    by (simp add: serialize_def ex_shape1_fields)
  from reg have "map_option sh_id (map_of (shapes dm') ''shape_1'') = Some ''shape_1''"
    unfolding i by simp
  with r sel ex_dangling_state(2) show ?thesis by simp
qed

lemma ex_redo_pair: "redo ex_dangling = redo (fst ex_undone, snd ex_dangling)"
  by (simp add: ex_dangling_def)

lemma ex_redone_state:
  "fst (redo ex_dangling)"
  "selectedShapeId (snd ex_redone) = Some ''shape_1''"
  "map_option sh_id (map_of (shapes (snd ex_redone)) ''shape_1'') = Some ''shape_1''"
proof -
  from ex_restore obtain dm' where
    r: "restoreShape (serialize ex_shape1) (snd ex_dangling) = Returned dm'"
    and sel: "selectedShapeId dm' = Some ''shape_1''"
    and reg: "map_option sh_id (map_of (shapes dm') ''shape_1'') = Some ''shape_1''"
    by blast
  have can: "canRedo (fst ex_undone)"
    by (simp add: canRedo_def ex_undone_state ex_triangle_history)
  have a: "history_at (fst ex_undone) (currentIndex (fst ex_undone) + 1) = Some (hd (history (fst ex_triangle)))"
    by (simp add: history_at_def ex_undone_state ex_triangle_history)
  have cb: "redo_cb (hd (history (fst ex_triangle))) (snd ex_dangling) = Returned dm'"
    by (simp add: ex_triangle_history r)
  have l: "onChange (fst ex_undone) = Some (\<lambda>st x. Returned (emit (HistoryChange st) x))"
    by (simp add: ex_undone_state ex_triangle_state)
  from redo_returned [OF can a cb l] obtain st h' where
    "redo (fst ex_undone, snd ex_dangling) = (True, h', emit (HistoryChange st) dm')"
    by blast
  then have red: "redo ex_dangling = (True, h', emit (HistoryChange st) dm')"
    by (simp add: ex_redo_pair)
  show "fst (redo ex_dangling)" "selectedShapeId (snd ex_redone) = Some ''shape_1''"
    "map_option sh_id (map_of (shapes (snd ex_redone)) ''shape_1'') = Some ''shape_1''"
    unfolding ex_redone_def red by (simp_all add: emit_fields sel reg)
qed

lemma ex_pair_history:
  "map undo_cb (history (fst ex_pair)) =
     [\<lambda>w. Returned (dm_removeShape ''shape_1'' w), \<lambda>w. Returned (dm_removeShape ''shape_2'' w)]"
  "currentIndex (fst ex_pair) = 1"
  "onChange (fst ex_pair) = Some (\<lambda>state dm. Returned (emit (HistoryChange state) dm))"
  by (simp_all add: ex_pair_def complete_defs split_beta ex_line_points_state
      ex_triangle_state ex_triangle_history ex_triangle_history_length string_of_nat_2 upt_2 slice0_def)

lemma ex_shape1_snapshot:
  "sh_id (serialize ex_shape1) = ''shape_1''"
  "sh_geo (serialize ex_shape1) =
     PolygonGeom [\<lparr>lat = 0, lng = 0\<rparr>, \<lparr>lat = 0, lng = 10\<rparr>, \<lparr>lat = 10, lng = 0\<rparr>]"
  by (simp_all add: serialize_def ex_shape1_def)


section \<open>The claims on the example sessions\<close>

text \<open>
  The triangle of the example session, its first midpoint handle dragged over one
  point: a fourth vertex between the first two.
\<close>

theorem midpoint_gesture_inserts_vertex_witness:
  "map_of (shapes (snd ex_triangle)) ''shape_1'' = Some ex_shape1 \<and>
   obj_path (snd ex_triangle) 0 =
     Some [\<lparr>lat = 0, lng = 0\<rparr>, \<lparr>lat = 0, lng = 10\<rparr>, \<lparr>lat = 10, lng = 0\<rparr>] \<and>
   (\<exists>v dm'. midpoint_gesture ''shape_1'' 0 [\<lparr>lat = 1, lng = 5\<rparr>] ex_triangle =
               Returned (fst ex_triangle, dm') \<and>
            obj_path dm' 0 =
              Some [\<lparr>lat = 0, lng = 0\<rparr>, v, \<lparr>lat = 0, lng = 10\<rparr>, \<lparr>lat = 10, lng = 0\<rparr>])"
proof -
  have ms: "map_of (midpointMarkers (snd ex_triangle)) ''shape_1'' =
     Some [\<lparr>m_position = \<lparr>lat = 0, lng = 5\<rparr>, m_visible = False, m_onMap = True, insertedIndex = None\<rparr>,
        \<lparr>m_position = \<lparr>lat = 5, lng = 5\<rparr>, m_visible = False, m_onMap = True, insertedIndex = None\<rparr>,
        \<lparr>m_position = \<lparr>lat = 5, lng = 0\<rparr>, m_visible = False, m_onMap = True, insertedIndex = None\<rparr>]"
    by (simp add: ex_triangle_state)
  have path: "obj_path (snd ex_triangle) (sh_obj ex_shape1) =
     Some [\<lparr>lat = 0, lng = 0\<rparr>, \<lparr>lat = 0, lng = 10\<rparr>, \<lparr>lat = 10, lng = 0\<rparr>]"
    by (simp add: ex_shape1_fields ex_triangle_more)
  from midpoint_gesture_inserts_vertex
    [OF ex_triangle_more(1) ex_shape1_fields(1) ex_shape1_fields(2) path _ ms _ _ ex_triangle_more(3),
     of 0 "[\<lparr>lat = 1, lng = 5\<rparr>]" "fst ex_triangle"]
  obtain v dm' where
    "midpoint_gesture ''shape_1'' 0 [\<lparr>lat = 1, lng = 5\<rparr>] (fst ex_triangle, snd ex_triangle) =
       Returned (fst ex_triangle, dm')"
    "obj_path dm' (sh_obj ex_shape1) =
       Some [\<lparr>lat = 0, lng = 0\<rparr>, v, \<lparr>lat = 0, lng = 10\<rparr>, \<lparr>lat = 10, lng = 0\<rparr>]"
    by auto
  then show ?thesis
    using ex_triangle_more(1,2) by (auto simp add: ex_shape1_fields)
qed

text \<open>
  Claim C1 asks for one history entry for the whole midpoint gesture. On the example
  triangle the gesture returns and inserts the fourth vertex, and the history holds the
  \<open>create\<close> entry before the gesture and nothing more after it. \<open>undo()\<close> then removes the
  shape, and \<open>redo()\<close> restores it from the snapshot taken at its creation: the three
  vertices it was drawn with, the inserted vertex is lost.
\<close>

theorem midpoint_gesture_edit_not_recorded:
  "returned (midpoint_gesture ''shape_1'' 0 [\<lparr>lat = 1, lng = 5\<rparr>] ex_triangle) \<and>
   length (history (fst ex_triangle)) = 1 \<and>
   length (history (fst ex_midpoint_dragged)) = 1 \<and>
   length (history (fst ex_midpoint_dragged)) \<noteq> length (history (fst ex_triangle)) + 1 \<and>
   map_option length (Option.bind (map_of (shapes (snd ex_midpoint_dragged)) ''shape_1'') sh_path) =
     Some 4 \<and>
   fst (undo ex_midpoint_dragged) \<and>
   fst (redo (snd (undo ex_midpoint_dragged))) \<and>
   map_option sh_geo
     (map_of (shapes (snd (snd (redo (snd (undo ex_midpoint_dragged)))))) ''shape_1'') =
     Some (PolygonGeom [\<lparr>lat = 0, lng = 0\<rparr>, \<lparr>lat = 0, lng = 10\<rparr>, \<lparr>lat = 10, lng = 0\<rparr>])"
proof -
  have ms: "map_of (midpointMarkers (snd ex_triangle)) ''shape_1'' =
     Some [\<lparr>m_position = \<lparr>lat = 0, lng = 5\<rparr>, m_visible = False, m_onMap = True, insertedIndex = None\<rparr>,
        \<lparr>m_position = \<lparr>lat = 5, lng = 5\<rparr>, m_visible = False, m_onMap = True, insertedIndex = None\<rparr>,
        \<lparr>m_position = \<lparr>lat = 5, lng = 0\<rparr>, m_visible = False, m_onMap = True, insertedIndex = None\<rparr>]"
    by (simp add: ex_triangle_state)
  have path: "obj_path (snd ex_triangle) (sh_obj ex_shape1) =
     Some [\<lparr>lat = 0, lng = 0\<rparr>, \<lparr>lat = 0, lng = 10\<rparr>, \<lparr>lat = 10, lng = 0\<rparr>]"
    by (simp add: ex_shape1_fields ex_triangle_more)
  from midpoint_gesture_result
    [OF ex_triangle_more(1) ex_shape1_fields(1) ex_shape1_fields(2) path ms _ _ ex_triangle_more(3),
     of 0 "[\<lparr>lat = 1, lng = 5\<rparr>]" "fst ex_triangle"]
  obtain v dm' shape' where
    run: "midpoint_gesture ''shape_1'' 0 [\<lparr>lat = 1, lng = 5\<rparr>] (fst ex_triangle, snd ex_triangle) =
       Returned (fst ex_triangle, dm')"
    and reg: "map_of (shapes dm') ''shape_1'' = Some shape'"
    and sp: "sh_path shape' =
       Some (insertAt (0 + 1) v [\<lparr>lat = 0, lng = 0\<rparr>, \<lparr>lat = 0, lng = 10\<rparr>, \<lparr>lat = 10, lng = 0\<rparr>])"
    by auto
  have dragged: "ex_midpoint_dragged = (fst ex_triangle, dm')"
    using run by (simp add: ex_midpoint_dragged_def)
  have c1: "returned (midpoint_gesture ''shape_1'' 0 [\<lparr>lat = 1, lng = 5\<rparr>] ex_triangle)"
    using run by simp
  have c2: "length (history (fst ex_midpoint_dragged)) = 1"
    by (simp add: dragged ex_triangle_history_length)
  have c3: "map_option length (Option.bind (map_of (shapes (snd ex_midpoint_dragged)) ''shape_1'') sh_path) =
     Some 4"
    by (simp add: dragged reg sp length_insertAt)
  have can: "canUndo (fst ex_triangle)" by (simp add: canUndo_def ex_triangle_state)
  have a: "history_at (fst ex_triangle) (currentIndex (fst ex_triangle)) =
      Some (hd (history (fst ex_triangle)))"
    by (simp add: history_at_def ex_triangle_state ex_triangle_history)
  have u: "undo_cb (hd (history (fst ex_triangle))) = (\<lambda>w. Returned (dm_removeShape ''shape_1'' w))"
    and r: "redo_cb (hd (history (fst ex_triangle))) = restoreShape (serialize ex_shape1)"
    by (simp_all add: ex_triangle_history)
  note lost = undo_redo_create_entry
    [OF can a u r ex_shape1_snapshot(1) ex_triangle_state(22), where dm = dm']
  from lost(1) lost(4) lost(5) have c4: "fst (undo ex_midpoint_dragged)"
    and c5: "fst (redo (snd (undo ex_midpoint_dragged)))"
    and c6: "map_option sh_geo
       (map_of (shapes (snd (snd (redo (snd (undo ex_midpoint_dragged)))))) ''shape_1'') =
       Some (PolygonGeom [\<lparr>lat = 0, lng = 0\<rparr>, \<lparr>lat = 0, lng = 10\<rparr>, \<lparr>lat = 10, lng = 0\<rparr>])"
    unfolding dragged ex_shape1_snapshot(2) by simp_all
  from c1 c2 c3 c4 c5 c6 ex_triangle_history_length show ?thesis by simp
qed

text \<open>
  The session with the triangle and the polyline: the second vertex of the triangle
  dragged next to the polyline and released.
\<close>

theorem vertex_dragend_recomputes_witness:
  "map_of (shapes (snd ex_pair)) ''shape_1'' = Some ex_shape1 \<and>
   obj_path (snd ex_pair) 0 =
     Some [\<lparr>lat = 0, lng = 0\<rparr>, \<lparr>lat = 0, lng = 10\<rparr>, \<lparr>lat = 10, lng = 0\<rparr>] \<and>
   (\<exists>dm' shape' q. vertex_gesture ''shape_1'' 1 [\<lparr>lat = 3, lng = 24\<rparr>] ex_pair =
               Returned (fst ex_pair, dm') \<and>
            map_of (shapes dm') ''shape_1'' = Some shape' \<and>
            sh_path shape' = Some q \<and> length q = 3 \<and>
            sh_area shape' = calculatePolygonArea q)"
proof -
  from ex_pair_state(5) obtain mids where
    mids: "map_of (midpointMarkers (snd ex_pair)) ''shape_1'' = Some mids" and l: "length mids = 3"
    by (cases "map_of (midpointMarkers (snd ex_pair)) ''shape_1''") auto
  have path: "obj_path (snd ex_pair) (sh_obj ex_shape1) =
     Some [\<lparr>lat = 0, lng = 0\<rparr>, \<lparr>lat = 0, lng = 10\<rparr>, \<lparr>lat = 10, lng = 0\<rparr>]"
    by (simp add: ex_shape1_fields ex_pair_more)
  have ty: "sh_type ex_shape1 = ''polygon'' \<or> sh_type ex_shape1 = ''polyline''"
    by (simp add: ex_shape1_fields)
  have i1: "1 < length [\<lparr>m_position = \<lparr>lat = 0, lng = 0\<rparr>, m_visible = False, m_onMap = True\<rparr>,
           \<lparr>m_position = \<lparr>lat = 0, lng = 10\<rparr>, m_visible = False, m_onMap = True\<rparr>,
           \<lparr>m_position = \<lparr>lat = 10, lng = 0\<rparr>, m_visible = False, m_onMap = True\<rparr>]"
    by simp
  have i2: "1 < length [\<lparr>lat = 0, lng = 0\<rparr>, \<lparr>lat = 0, lng = 10\<rparr>, \<lparr>lat = 10, lng = 0\<rparr>]"
    by simp
  have i3: "length mids \<le> length [\<lparr>lat = 0, lng = 0\<rparr>, \<lparr>lat = 0, lng = 10\<rparr>, \<lparr>lat = 10, lng = 0\<rparr>]"
    using l by simp
  from vertex_dragend_recomputes
    [OF ex_pair_state(1) ex_shape1_fields(1) ty ex_pair_state(4) i1 path i2 mids i3 ex_pair_more(2),
     of "fst ex_pair" "[\<lparr>lat = 3, lng = 24\<rparr>]" "\<lparr>lat = 3, lng = 24\<rparr>"]
  have "\<exists>dm' shape' q evs.
            vertex_gesture ''shape_1'' 1 [\<lparr>lat = 3, lng = 24\<rparr>] (fst ex_pair, snd ex_pair) =
              Returned (fst ex_pair, dm') \<and>
            obj_path dm' (sh_obj ex_shape1) = Some q \<and>
            length q = length [\<lparr>lat = 0, lng = 0\<rparr>, \<lparr>lat = 0, lng = 10\<rparr>, \<lparr>lat = 10, lng = 0\<rparr>] \<and>
            map_of (shapes dm') ''shape_1'' = Some shape' \<and> sh_path shape' = Some q \<and>
            sh_area shape' = (if sh_type ex_shape1 = ''polygon'' then calculatePolygonArea q
                              else sh_area ex_shape1) \<and>
            events dm' = events (snd ex_pair) @ evs @
              [ShapeUpdated (serialize shape'), SnapActive False None] \<and>
            list_all snap_active evs"
    by blast
  then obtain dm' shape' q where
    "vertex_gesture ''shape_1'' 1 [\<lparr>lat = 3, lng = 24\<rparr>] (fst ex_pair, snd ex_pair) =
       Returned (fst ex_pair, dm')"
    "map_of (shapes dm') ''shape_1'' = Some shape'" "sh_path shape' = Some q" "length q = 3"
    "sh_area shape' = calculatePolygonArea q"
    by (auto simp add: ex_shape1_fields)
  then show ?thesis
    using ex_pair_state(1) ex_pair_more(1) by auto
qed

text \<open>
  Claim C2 asks for one history action for every vertex drag. On the session with the
  triangle and the polyline the drag of the triangle's second vertex returns, and the
  history holds the two \<open>create\<close> entries before the gesture and the same two after it.
  \<open>undo()\<close> after the drag takes back the creation of the polyline and leaves the triangle
  as the drag left it.
\<close>

theorem vertex_gesture_edit_not_recorded:
  "returned (vertex_gesture ''shape_1'' 1 [\<lparr>lat = 3, lng = 24\<rparr>] ex_pair) \<and>
   length (history (fst ex_pair)) = 2 \<and>
   length (history (fst ex_vertex_dragged)) = 2 \<and>
   length (history (fst ex_vertex_dragged)) \<noteq> length (history (fst ex_pair)) + 1 \<and>
   fst (undo ex_vertex_dragged) \<and>
   map_of (shapes (snd (snd (undo ex_vertex_dragged)))) ''shape_2'' = None \<and>
   map_of (shapes (snd (snd (undo ex_vertex_dragged)))) ''shape_1'' =
     map_of (shapes (snd ex_vertex_dragged)) ''shape_1''"
proof -
  from ex_pair_state(5) obtain mids where
    mids: "map_of (midpointMarkers (snd ex_pair)) ''shape_1'' = Some mids" and l: "length mids = 3"
    by (cases "map_of (midpointMarkers (snd ex_pair)) ''shape_1''") auto
  have path: "obj_path (snd ex_pair) (sh_obj ex_shape1) =
     Some [\<lparr>lat = 0, lng = 0\<rparr>, \<lparr>lat = 0, lng = 10\<rparr>, \<lparr>lat = 10, lng = 0\<rparr>]"
    by (simp add: ex_shape1_fields ex_pair_more)
  have ty: "sh_type ex_shape1 = ''polygon'' \<or> sh_type ex_shape1 = ''polyline''"
    by (simp add: ex_shape1_fields)
  from vertex_gesture_result
    [OF ex_pair_state(1) ex_shape1_fields(1) ty ex_pair_state(4) _ path _ mids _ ex_pair_more(2),
     of 1 "[\<lparr>lat = 3, lng = 24\<rparr>]" "fst ex_pair"] l
  obtain dm' where
    run: "vertex_gesture ''shape_1'' 1 [\<lparr>lat = 3, lng = 24\<rparr>] (fst ex_pair, snd ex_pair) =
       Returned (fst ex_pair, dm')"
    by auto
  have dragged: "ex_vertex_dragged = (fst ex_pair, dm')"
    using run by (simp add: ex_vertex_dragged_def)
  have c1: "returned (vertex_gesture ''shape_1'' 1 [\<lparr>lat = 3, lng = 24\<rparr>] ex_pair)"
    using run by simp
  have c2: "length (history (fst ex_vertex_dragged)) = 2"
    by (simp add: dragged ex_pair_state)
  have len: "length (history (fst ex_pair)) = 2" by (simp add: ex_pair_state)
  have can: "canUndo (fst ex_pair)" by (simp add: canUndo_def ex_pair_history)
  have a: "history_at (fst ex_pair) (currentIndex (fst ex_pair)) = Some (history (fst ex_pair) ! 1)"
    by (simp add: history_at_def ex_pair_history len)
  have "map undo_cb (history (fst ex_pair)) ! 1 = (\<lambda>w. Returned (dm_removeShape ''shape_2'' w))"
    by (simp add: ex_pair_history)
  then have u: "undo_cb (history (fst ex_pair) ! 1) = (\<lambda>w. Returned (dm_removeShape ''shape_2'' w))"
    using len by simp
  have cb: "undo_cb (history (fst ex_pair) ! 1) dm' = Returned (dm_removeShape ''shape_2'' dm')"
    using u by simp
  from undo_returned [OF can a cb ex_pair_history(3)] obtain st h' where
    un: "undo (fst ex_pair, dm') = (True, h', emit (HistoryChange st) (dm_removeShape ''shape_2'' dm'))"
    by blast
  have c3: "fst (undo ex_vertex_dragged)"
    and c4: "map_of (shapes (snd (snd (undo ex_vertex_dragged)))) ''shape_2'' = None"
    and c5: "map_of (shapes (snd (snd (undo ex_vertex_dragged)))) ''shape_1'' =
       map_of (shapes (snd ex_vertex_dragged)) ''shape_1''"
    unfolding dragged un by (simp_all add: emit_fields dm_removeShape_registry)
  from c1 c2 c3 c4 c5 len show ?thesis by simp
qed

text \<open>
  With the first polyline excluded only the second one's edge is left; and the
  triangle's vertex, dragged to 3 pixels from the polyline, snaps to the polyline's
  edge and moves to the snap point.
\<close>

theorem excluded_shape_never_snapped_witness:
  "getAllEdges ex_store ex_engine (Some ''shape_1'') = Inr [ex_edge ''shape_2''] \<and>
   edge_shapeId (ex_edge ''shape_2'') \<noteq> ''shape_1'' \<and>
   (\<exists>sn engine1 dm'.
      dragSnap (snd ex_pair) ''shape_1'' \<lparr>lat = 3, lng = 24\<rparr> = Inr (Some sn, engine1) \<and>
      findSnapPoint (heap (snd ex_pair)) (snapEngine (snd ex_pair)) \<lparr>lat = 3, lng = 24\<rparr>
        (Some ''shape_1'') = Inr (Some sn, engine1) \<and>
      snap_edge sn = ex_edge2 \<and> edge_shapeId (snap_edge sn) \<noteq> ''shape_1'' \<and>
      vertex_drag ''shape_1'' 1 \<lparr>lat = 3, lng = 24\<rparr> (snd ex_pair) = Returned dm' \<and>
      obj_path dm' 0 = Some [\<lparr>lat = 0, lng = 0\<rparr>, snap_point sn, \<lparr>lat = 10, lng = 0\<rparr>])"
proof -
  from ex_pair_dragSnap obtain sn engine1 where
    ds: "dragSnap (snd ex_pair) ''shape_1'' \<lparr>lat = 3, lng = 24\<rparr> = Inr (Some sn, engine1)"
    and e: "snap_edge sn = ex_edge2"
    by blast
  then have fs: "findSnapPoint (heap (snd ex_pair)) (snapEngine (snd ex_pair))
      \<lparr>lat = 3, lng = 24\<rparr> (Some ''shape_1'') = Inr (Some sn, engine1)"
    by (simp add: dragSnap_def ex_pair_state)
  have path: "obj_path (snd ex_pair) (sh_obj ex_shape1) =
     Some [\<lparr>lat = 0, lng = 0\<rparr>, \<lparr>lat = 0, lng = 10\<rparr>, \<lparr>lat = 10, lng = 0\<rparr>]"
    by (simp add: ex_shape1_fields ex_pair_more)
  note inst = excluded_shape_never_snapped
    [of "heap (snd ex_pair)" "snapEngine (snd ex_pair)" "''shape_1''" "[ex_edge2]"
        "\<lparr>lat = 3, lng = 24\<rparr>" sn engine1 "snd ex_pair" 1 ex_shape1 3
        "[\<lparr>lat = 0, lng = 0\<rparr>, \<lparr>lat = 0, lng = 10\<rparr>, \<lparr>lat = 10, lng = 0\<rparr>]"]
  from inst ds fs have ne: "edge_shapeId (snap_edge sn) \<noteq> ''shape_1''" by blast
  from inst ex_pair_dragging ex_shape1_fields(1) path ds obtain dm' where
    "vertex_drag ''shape_1'' 1 \<lparr>lat = 3, lng = 24\<rparr> (snd ex_pair) = Returned dm'"
    "obj_path dm' (sh_obj ex_shape1) =
       Some (setAt 1 (snap_point sn) [\<lparr>lat = 0, lng = 0\<rparr>, \<lparr>lat = 0, lng = 10\<rparr>, \<lparr>lat = 10, lng = 0\<rparr>])"
    by auto
  then have "\<exists>dm'. vertex_drag ''shape_1'' 1 \<lparr>lat = 3, lng = 24\<rparr> (snd ex_pair) = Returned dm' \<and>
      obj_path dm' 0 = Some [\<lparr>lat = 0, lng = 0\<rparr>, snap_point sn, \<lparr>lat = 10, lng = 0\<rparr>]"
    by (auto simp add: setAt_def ex_shape1_fields)
  moreover have "edge_shapeId (ex_edge ''shape_2'') \<noteq> ''shape_1''"
    using excluded_shape_never_snapped
      [of ex_store ex_engine "''shape_1''" "[ex_edge ''shape_2'']"] ex_edges_excl
    by simp
  ultimately show ?thesis
    using ds fs e ne ex_edges_excl by blast
qed

lemma ex_selected_state:
  "selectedShapeId ex_selected = Some ''shape_1''"
  "shapes ex_selected = [(''shape_1'', ex_shape1)]"
  "length (heap ex_selected) = 1"
  "g_options (heap ex_selected ! 0) ''strokeColor'' = Some ''#f59e0b''"
  "style_completed (options ex_selected) = default_completed"
  "map_option (map m_visible) (map_of (vertexMarkers ex_selected) ''shape_1'') =
     Some [True, True, True]"
  "map_option (map m_visible) (map_of (midpointMarkers ex_selected) ''shape_1'') =
     Some [True, True, True]"
  by (simp_all add: ex_selected_def selectShape_def Let_def ex_triangle_state truthy_def
      emit_def showMarkers_def setOptions_def update_obj_def ex_shape1_fields default_selected_def)

text \<open>
  The triangle is selected; selecting the unknown id \<open>shape_9\<close> hides its handles,
  gives it the completed stroke colour and emits nothing. \<open>deselectShape()\<close> clears
  \<open>shape_9\<close> and leaves the empty string selected; restoring a snapshot with the id
  \<open>shape_9\<close> registers a shape under the selected id.
\<close>

theorem selectShape_unknown_id_witness:
  "map_of (shapes ex_selected) ''shape_9'' = None \<and>
   selectedShapeId ex_selected = Some ''shape_1'' \<and>
   selectedShapeId (selectShape ''shape_9'' ex_selected) = Some ''shape_9'' \<and>
   map_of (shapes (selectShape ''shape_9'' ex_selected)) ''shape_9'' = None \<and>
   events (selectShape ''shape_9'' ex_selected) = events ex_selected \<and>
   map_option (map m_visible) (map_of (vertexMarkers (selectShape ''shape_9'' ex_selected)) ''shape_1'') =
     Some [False, False, False] \<and>
   map_option (map m_visible) (map_of (midpointMarkers (selectShape ''shape_9'' ex_selected)) ''shape_1'') =
     Some [False, False, False] \<and>
   g_options (heap ex_selected ! 0) ''strokeColor'' = Some ''#f59e0b'' \<and>
   g_options (heap (selectShape ''shape_9'' ex_selected) ! 0) ''strokeColor'' = Some ''#22c55e'' \<and>
   selectedShapeId (selectShape ''shape_1'' (selectShape ''shape_9'' ex_selected)) = Some ''shape_1'' \<and>
   selectedShapeId (deselectShape (selectShape ''shape_9'' ex_selected)) = None \<and>
   map_of (shapes ex_selected) [] = None \<and>
   deselectShape (selectShape [] ex_selected) = selectShape [] ex_selected \<and>
   selectedShapeId (deselectShape (selectShape [] ex_selected)) = Some [] \<and>
   returned (restoreShape (serialize (ex_shape1\<lparr>sh_id := ''shape_9''\<rparr>))
               (selectShape ''shape_9'' ex_selected)) \<and>
   selectedShapeId (world_of (restoreShape (serialize (ex_shape1\<lparr>sh_id := ''shape_9''\<rparr>))
               (selectShape ''shape_9'' ex_selected))) = Some ''shape_9'' \<and>
   map_option sh_id (map_of (shapes (world_of (restoreShape (serialize (ex_shape1\<lparr>sh_id := ''shape_9''\<rparr>))
               (selectShape ''shape_9'' ex_selected)))) ''shape_9'') = Some ''shape_9''"
proof -
  have unknown: "map_of (shapes ex_selected) ''shape_9'' = None"
    and empty: "map_of (shapes ex_selected) [] = None"
    by (simp_all add: ex_selected_state)
  have known: "map_of (shapes ex_selected) ''shape_1'' = Some ex_shape1"
    by (simp add: ex_selected_state)
  have d: "sh_id (serialize (ex_shape1\<lparr>sh_id := ''shape_9''\<rparr>)) = ''shape_9''"
    by (simp add: serialize_def)
  note inst = selectShape_unknown_id
    [OF unknown, of "''shape_1''" ex_shape1 "''shape_1''" "serialize (ex_shape1\<lparr>sh_id := ''shape_9''\<rparr>)"]
  from inst unknown have a: "selectedShapeId (selectShape ''shape_9'' ex_selected) = Some ''shape_9''"
    and b: "map_of (shapes (selectShape ''shape_9'' ex_selected)) ''shape_9'' = None"
    and c: "events (selectShape ''shape_9'' ex_selected) = events ex_selected"
    and g: "selectedShapeId (deselectShape (selectShape ''shape_9'' ex_selected)) = None"
    and s: "selectedShapeId (selectShape ''shape_1'' (selectShape ''shape_9'' ex_selected)) = Some ''shape_1''"
    by simp_all
  from inst d have r: "returned (restoreShape (serialize (ex_shape1\<lparr>sh_id := ''shape_9''\<rparr>))
               (selectShape ''shape_9'' ex_selected))"
    and rs: "selectedShapeId (world_of (restoreShape (serialize (ex_shape1\<lparr>sh_id := ''shape_9''\<rparr>))
               (selectShape ''shape_9'' ex_selected))) = Some ''shape_9''"
    and rr: "map_option sh_id (map_of (shapes (world_of (restoreShape (serialize (ex_shape1\<lparr>sh_id := ''shape_9''\<rparr>))
               (selectShape ''shape_9'' ex_selected)))) ''shape_9'') = Some ''shape_9''"
    by blast+
  from inst ex_selected_state(1) known ex_selected_state(3) have
    d1: "map_of (vertexMarkers (selectShape ''shape_9'' ex_selected)) ''shape_1'' =
          map_option (map (\<lambda>m. m\<lparr>m_visible := False\<rparr>)) (map_of (vertexMarkers ex_selected) ''shape_1'')"
    and e: "map_of (midpointMarkers (selectShape ''shape_9'' ex_selected)) ''shape_1'' =
          map_option (map (\<lambda>m. m\<lparr>m_visible := False\<rparr>)) (map_of (midpointMarkers ex_selected) ''shape_1'')"
    and f: "g_options (heap (selectShape ''shape_9'' ex_selected) ! sh_obj ex_shape1) =
          g_options (heap ex_selected ! sh_obj ex_shape1) ++ style_completed (options ex_selected)"
    by (simp_all add: ex_shape1_fields)
  have d': "map_option (map m_visible) (map_of (vertexMarkers (selectShape ''shape_9'' ex_selected)) ''shape_1'') =
     Some [False, False, False]"
    using ex_selected_state(6) unfolding d1
    by (cases "map_of (vertexMarkers ex_selected) ''shape_1''") auto
  have e': "map_option (map m_visible) (map_of (midpointMarkers (selectShape ''shape_9'' ex_selected)) ''shape_1'') =
     Some [False, False, False]"
    using ex_selected_state(7) unfolding e
    by (cases "map_of (midpointMarkers ex_selected) ''shape_1''") auto
  have f': "g_options (heap (selectShape ''shape_9'' ex_selected) ! 0) ''strokeColor'' = Some ''#22c55e''"
    using f by (simp add: ex_shape1_fields ex_selected_state default_completed_def map_add_def)
  from selectShape_unknown_id [OF empty]
  have k: "deselectShape (selectShape [] ex_selected) = selectShape [] ex_selected"
    and k1: "selectedShapeId (selectShape [] ex_selected) = Some []"
    by simp_all
  have k2: "selectedShapeId (deselectShape (selectShape [] ex_selected)) = Some []"
    unfolding k by (rule k1)
  from unknown empty ex_selected_state(1,4) a b c d' e' f' g s k k2 r rs rr show ?thesis by blast
qed

text \<open>
  The claim as stated fails on the session in which the creation of the triangle was
  undone and the id \<open>shape_1\<close> of the removed triangle was selected: the id names no
  shape, and after \<open>redo()\<close>, with no call of \<open>selectShape\<close> or \<open>deselectShape\<close>, it is
  still selected and names the restored triangle.
\<close>

theorem selectShape_restored_counterexample:
  "map_of (shapes (snd ex_dangling)) ''shape_1'' = None \<and>
   selectedShapeId (snd ex_dangling) = Some ''shape_1'' \<and>
   fst (redo ex_dangling) \<and>
   selectedShapeId (snd ex_redone) = Some ''shape_1'' \<and>
   map_option sh_id (map_of (shapes (snd ex_redone)) ''shape_1'') = Some ''shape_1'' \<and>
   map_of (shapes (snd ex_redone)) ''shape_1'' \<noteq> None"
  using ex_dangling_state ex_redone_state by auto

end
